theory Spec2Isabelle
  imports Main
begin

section \<open>Python values shared by both modules\<close>

text \<open>
  Exceptions are values.  Every \<^verbatim>\<open>raise\<close> and every failing \<^verbatim>\<open>assert\<close> of the
  source is a branch returning \<open>Inl\<close> of one of these.
\<close>

datatype error =
    ValueError string
  | KeyError
  | TypeError
  | IndexError
  | AssertionError
  | RuntimeError
  | NotImplementedError string

text \<open>
  The dense array of the numeric backend (\<^verbatim>\<open>torch.Tensor\<close>): its shape and its
  entries, read by a positional multi-index.  Only entries at indices inside the shape
  are meaningful.
\<close>

record 'a torch =
  shape :: "nat list"
  elems :: "nat list \<Rightarrow> 'a"

text \<open>
  The array that \<^verbatim>\<open>torch.arange(start, stop, step)\<close> returns when it returns one, as
  the backend documents it: the one-dimensional array of the values \<open>start + i * step\<close>,
  as many of them as \<open>(stop - start) / step\<close> rounded up.
\<close>

definition arange_values :: "int \<Rightarrow> int \<Rightarrow> int \<Rightarrow> int torch" where
  "arange_values start stop step =
     \<lparr>shape = [if 0 < step then nat ((stop - start + step - 1) div step)
               else nat ((start - stop - step - 1) div (- step))],
      elems = (\<lambda>ix. start + int (ix ! 0) * step)\<rparr>"

text \<open>
  \<^verbatim>\<open>torch.arange(start, stop, step)\<close> on Python integers.  The backend takes its
  bounds as 64-bit integers and raises \<^verbatim>\<open>RuntimeError\<close> for one that does not fit, for
  a step of zero, and for bounds that the sign of the step contradicts (\<open>stop < start\<close>
  with a positive step, \<open>start < stop\<close> with a negative one).  Memory is taken to be
  unbounded.
\<close>

definition int64 :: "int \<Rightarrow> bool" where
  "int64 x \<longleftrightarrow> - (2 ^ 63) \<le> x \<and> x < 2 ^ 63"

definition arange :: "int \<Rightarrow> int \<Rightarrow> int \<Rightarrow> error + int torch" where
  "arange start stop step =
     (if \<not> (int64 start \<and> int64 stop \<and> int64 step) then Inl RuntimeError
      else if step = 0 then Inl RuntimeError
      else if (0 < step \<and> stop < start) \<or> (step < 0 \<and> start < stop) then Inl RuntimeError
      else Inr (arange_values start stop step))"

text \<open>The entries of a one-dimensional array, in order (\<^verbatim>\<open>data.tolist()\<close>).\<close>

definition tolist :: "'a torch \<Rightarrow> 'a list" where
  "tolist t = map (\<lambda>i. elems t [i]) [0..<shape t ! 0]"

text \<open>
  Python's \<^verbatim>\<open>range(start, stop, step)\<close> for a positive step, written as the
  language defines it: count up from \<open>start\<close> while below \<open>stop\<close>.
\<close>

function py_range :: "int \<Rightarrow> int \<Rightarrow> int \<Rightarrow> int list" where
  "py_range start stop step =
     (if 0 < step \<and> start < stop then start # py_range (start + step) stop step else [])"
  by pat_completeness auto
termination
  by (relation "measure (\<lambda>(start, stop, step). nat (stop - start))") auto

declare py_range.simps [simp del]

section \<open>funsor/sum\_product.py\<close>

subsection \<open>The Tensor funsor of funsor.torch\<close>

text \<open>
  Modelled from the spec: the class \<^verbatim>\<open>funsor.torch.Tensor\<close>, which
  \<^verbatim>\<open>sum_product.py\<close> imports and which is not among the source files.  A Tensor
  is backed by a dense array; \<open>inputs\<close> is the ordered mapping from its dimension names
  to their finite sizes (\<^verbatim>\<open>bint(size)\<close>), in the order of the array's axes; \<open>dtype\<close>
  is the output domain: real, or a bounded integer with the given bound.
\<close>

datatype dtype = DReal | DInt int

record 'a tensor =
  data :: "'a torch"
  inputs :: "(string \<times> nat) list"
  dtype :: dtype

subsection \<open>Slice\<close>

text \<open>
  \<^verbatim>\<open>Slice(name, *args)\<close>.  The branches on \<^verbatim>\<open>len(args)\<close> are the cases on the
  argument list; \<open>Slice_make\<close> is the common tail of the function from
  \<^verbatim>\<open>if step <= 0\<close> on.
\<close>

definition Slice_make :: "string \<Rightarrow> int \<Rightarrow> int \<Rightarrow> int \<Rightarrow> int \<Rightarrow> error + int tensor" where
  "Slice_make name start stop step bound =
     (if step \<le> 0 then Inl (ValueError [])
      else case arange start stop step of
             Inl e \<Rightarrow> Inl e
           | Inr d \<Rightarrow> Inr \<lparr>data = d, inputs = [(name, length (tolist d))], dtype = DInt bound\<rparr>)"

fun Slice :: "string \<Rightarrow> int list \<Rightarrow> error + int tensor" where
  "Slice name [stop] = Slice_make name 0 stop 1 stop"
| "Slice name [start, stop] = Slice_make name start stop 1 stop"
| "Slice name [start, stop, step] = Slice_make name start stop step stop"
| "Slice name [start, stop, step, bound] = Slice_make name start stop step bound"
| "Slice name args = Inl (ValueError [])"

text \<open>
  What the claim about \<open>Slice\<close> says of its result: a Tensor over the single
  dimension \<open>name\<close>, whose data enumerates \<^verbatim>\<open>range(start, stop, step)\<close>, with
  the bound as its dtype.
\<close>

definition range_tensor :: "int tensor \<Rightarrow> string \<Rightarrow> int \<Rightarrow> int \<Rightarrow> int \<Rightarrow> int \<Rightarrow> bool" where
  "range_tensor t name start stop step bound \<longleftrightarrow>
     inputs t = [(name, length (py_range start stop step))] \<and>
     shape (data t) = [length (py_range start stop step)] \<and>
     tolist (data t) = py_range start stop step \<and>
     dtype t = DInt bound"

subsection \<open>Dictionaries and reductions of the Python runtime\<close>

text \<open>
  An insertion-ordered dictionary (\<^verbatim>\<open>dict\<close>, \<^verbatim>\<open>OrderedDict\<close>, \<^verbatim>\<open>defaultdict\<close>) is
  an association list with one entry per key, in insertion order.
  \<open>dict_set\<close> is \<^verbatim>\<open>d[k] = v\<close>: an existing key keeps its place, a new key goes last.
  \<open>dict_append\<close> is \<^verbatim>\<open>d[k].append(x)\<close> on a \<^verbatim>\<open>defaultdict(list)\<close> and
  \<^verbatim>\<open>d.setdefault(k, []).append(x)\<close>.  \<open>dict_pop\<close> is \<^verbatim>\<open>d.pop(k)\<close>, with
  \<open>None\<close> for the \<^verbatim>\<open>KeyError\<close>.
\<close>

fun dict_set :: "'k \<Rightarrow> 'v \<Rightarrow> ('k \<times> 'v) list \<Rightarrow> ('k \<times> 'v) list" where
  "dict_set k v [] = [(k, v)]"
| "dict_set k v ((k', v') # d) =
     (if k' = k then (k', v) # d else (k', v') # dict_set k v d)"

fun dict_append :: "'k \<Rightarrow> 'a \<Rightarrow> ('k \<times> 'a list) list \<Rightarrow> ('k \<times> 'a list) list" where
  "dict_append k x [] = [(k, [x])]"
| "dict_append k x ((k', xs) # d) =
     (if k' = k then (k', xs @ [x]) # d else (k', xs) # dict_append k x d)"

fun dict_pop :: "'k \<Rightarrow> ('k \<times> 'v) list \<Rightarrow> ('v \<times> ('k \<times> 'v) list) option" where
  "dict_pop k [] = None"
| "dict_pop k ((k', v) # d) =
     (if k' = k then Some (v, d)
      else (case dict_pop k d of None \<Rightarrow> None | Some (w, d') \<Rightarrow> Some (w, (k', v) # d')))"

text \<open>
  \<^verbatim>\<open>max(xs, key=key)\<close> on a non-empty sequence: the first element whose key is
  maximal (a later element replaces the best one only when its key is strictly
  greater).
\<close>

fun py_max_by :: "('a \<Rightarrow> nat) \<Rightarrow> 'a \<Rightarrow> 'a list \<Rightarrow> 'a" where
  "py_max_by key best [] = best"
| "py_max_by key best (x # xs) = py_max_by key (if key best < key x then x else best) xs"

text \<open>
  \<^verbatim>\<open>functools.reduce(f, xs, init)\<close> is \<open>fold_err f init xs\<close>, and
  \<^verbatim>\<open>functools.reduce(f, xs)\<close> is \<open>py_reduce f xs\<close>, a \<^verbatim>\<open>TypeError\<close> on an
  empty sequence.  The function may raise.
\<close>

fun fold_err :: "('a \<Rightarrow> 'b \<Rightarrow> error + 'a) \<Rightarrow> 'a \<Rightarrow> 'b list \<Rightarrow> error + 'a" where
  "fold_err f acc [] = Inr acc"
| "fold_err f acc (x # xs) =
     (case f acc x of Inl e \<Rightarrow> Inl e | Inr acc' \<Rightarrow> fold_err f acc' xs)"

fun py_reduce :: "('a \<Rightarrow> 'a \<Rightarrow> error + 'a) \<Rightarrow> 'a list \<Rightarrow> error + 'a" where
  "py_reduce f [] = Inl TypeError"
| "py_reduce f (x # xs) = fold_err f x xs"

subsection \<open>The funsors that partial\_sum\_product contracts\<close>

text \<open>
  Modelled from the spec: the interface of \<^verbatim>\<open>funsor.terms.Funsor\<close> and of
  \<^verbatim>\<open>funsor.ops\<close>, which \<^verbatim>\<open>sum_product.py\<close> imports and which are not among the
  source files.  The elimination engine uses a factor only through this interface, so
  it is a parameter of the model: \<open>inputs_of f\<close> are the dimension names of \<open>f\<close>
  (\<^verbatim>\<open>f.inputs\<close>, in order), \<open>apply_op op f g\<close> is \<^verbatim>\<open>op(f, g)\<close>,
  \<open>reduce_of f op vars\<close> is \<^verbatim>\<open>f.reduce(op, vars)\<close>, \<open>Number v\<close> is the constant funsor
  and \<open>UNITS\<close> is the table of identity elements, a dictionary keyed by operator.
  Factors serve as dictionary keys; two factors are the same key when they are equal.
\<close>

record ('f, 'o, 'v) funsor_api =
  inputs_of :: "'f \<Rightarrow> string list"
  apply_op :: "'o \<Rightarrow> 'f \<Rightarrow> 'f \<Rightarrow> error + 'f"
  reduce_of :: "'f \<Rightarrow> 'o \<Rightarrow> string set \<Rightarrow> error + 'f"
  Number :: "'v \<Rightarrow> 'f"
  UNITS :: "'o \<Rightarrow> 'v option"

subsection \<open>\_partition\<close>

text \<open>
  The vertices of the bipartite graph: the keys of \<^verbatim>\<open>neighbors\<close> are factors and
  dimension names.
\<close>

datatype 'f vertex = Factor 'f | Dim string

type_synonym 'f graph = "('f vertex \<times> 'f vertex list) list"

text \<open>The inner \<^verbatim>\<open>for dim in term.inputs.keys()\<close> and the outer \<^verbatim>\<open>for term in terms\<close>.\<close>

fun add_dims :: "string set \<Rightarrow> 'f \<Rightarrow> string list \<Rightarrow> 'f graph \<Rightarrow> 'f graph" where
  "add_dims sum_vars t [] nb = nb"
| "add_dims sum_vars t (dim # dims) nb =
     add_dims sum_vars t dims
       (if dim \<in> sum_vars
        then dict_append (Dim dim) (Factor t) (dict_append (Factor t) (Dim dim) nb)
        else nb)"

fun add_terms :: "('f, 'o, 'v) funsor_api \<Rightarrow> string set \<Rightarrow> 'f list \<Rightarrow> 'f graph \<Rightarrow> 'f graph" where
  "add_terms api sum_vars [] nb = nb"
| "add_terms api sum_vars (t # ts) nb =
     add_terms api sum_vars ts (add_dims sum_vars t (inputs_of api t) nb)"

definition neighbors_of :: "('f, 'o, 'v) funsor_api \<Rightarrow> 'f list \<Rightarrow> string set \<Rightarrow> 'f graph" where
  "neighbors_of api terms sum_vars =
     add_terms api sum_vars terms (foldl (\<lambda>d t. dict_set (Factor t) [] d) [] terms)"

text \<open>
  \<^verbatim>\<open>for v in ...: if v not in component: component[v] = None; pending.append(v)\<close>,
  the body of the inner while loop after the pop.  The component is an ordered set.
\<close>

fun visit :: "'a list \<Rightarrow> 'a list \<times> 'a list \<Rightarrow> 'a list \<times> 'a list" where
  "visit [] cp = cp"
| "visit (v # vs) (component, pending) =
     visit vs (if v \<in> set component then (component, pending)
               else (component @ [v], pending @ [v]))"

lemma dict_pop_length [termination_simp]:
  "dict_pop k d = Some (v, d') \<Longrightarrow> length d' < length d"
  by (induction d arbitrary: v d') (auto split: if_splits option.splits)

text \<open>
  \<^verbatim>\<open>while pending: v = pending.pop(); for v in neighbors.pop(v): ...\<close>.  Every
  round takes a key out of \<^verbatim>\<open>neighbors\<close> or raises \<^verbatim>\<open>KeyError\<close>.
\<close>

function component_loop ::
  "('k \<times> 'k list) list \<Rightarrow> 'k list \<Rightarrow> 'k list \<Rightarrow> error + (('k \<times> 'k list) list \<times> 'k list)" where
  "component_loop nb component pending =
     (if pending = [] then Inr (nb, component)
      else (case dict_pop (last pending) nb of
              None \<Rightarrow> Inl KeyError
            | Some (ws, nb') \<Rightarrow>
                component_loop nb' (fst (visit ws (component, butlast pending)))
                  (snd (visit ws (component, butlast pending)))))"
  by pat_completeness auto
termination
  by (relation "measure (\<lambda>(nb, component, pending). length nb)")
    (auto simp: dict_pop_length)

declare component_loop.simps [simp del]

lemma component_loop_length:
  "component_loop nb component pending = Inr (nb', component') \<Longrightarrow> length nb' \<le> length nb"
proof (induction nb component pending rule: component_loop.induct)
  case (1 nb component pending)
  show ?case
  proof (cases "pending = []")
    case True
    then show ?thesis using "1.prems" by (simp add: component_loop.simps)
  next
    case False
    then obtain ws nb1 where pop: "dict_pop (last pending) nb = Some (ws, nb1)"
      using "1.prems" by (auto simp: component_loop.simps split: option.splits)
    have "component_loop nb1 (fst (visit ws (component, butlast pending)))
            (snd (visit ws (component, butlast pending))) = Inr (nb', component')"
      using "1.prems" False pop by (simp add: component_loop.simps)
    then have "length nb' \<le> length nb1"
      using "1.IH" [OF False pop refl] by simp
    then show ?thesis
      using dict_pop_length [OF pop] by simp
  qed
qed

text \<open>
  The outer loop, \<^verbatim>\<open>while neighbors: v, pending = neighbors.popitem(); ...\<close>,
  which pops the last item, and the split of each component into its factors and its
  dimension names.  A component without a factor is dropped.  The component starts as
  the ordered set of the popped key and its neighbours, which is what \<open>visit\<close> builds
  from the key alone.  (\<open>partition_py\<close> is \<^verbatim>\<open>_partition\<close>.)
\<close>

fun factors_in :: "'f vertex list \<Rightarrow> 'f list" where
  "factors_in [] = []"
| "factors_in (Factor t # vs) = t # factors_in vs"
| "factors_in (Dim d # vs) = factors_in vs"

fun dims_in :: "'f vertex list \<Rightarrow> string set" where
  "dims_in [] = {}"
| "dims_in (Factor t # vs) = dims_in vs"
| "dims_in (Dim d # vs) = insert d (dims_in vs)"

function partition_loop ::
  "'f graph \<Rightarrow> ('f list \<times> string set) list \<Rightarrow> error + ('f list \<times> string set) list" where
  "partition_loop nb components =
     (if nb = [] then Inr components
      else (case component_loop (butlast nb)
                   (fst (visit (snd (last nb)) ([fst (last nb)], [])))
                   (snd (last nb)) of
              Inl e \<Rightarrow> Inl e
            | Inr (nb', component) \<Rightarrow>
                partition_loop nb'
                  (if factors_in component \<noteq> []
                   then components @ [(factors_in component, dims_in component)]
                   else components)))"
  by pat_completeness auto
termination
proof (relation "measure (\<lambda>(nb, components). length nb)", goal_cases)
  case 1
  show ?case by simp
next
  case (2 nb components x2 nb' component)
  then have "length nb' \<le> length (butlast nb)"
    using component_loop_length by metis
  then show ?case using 2 by (cases nb rule: rev_cases) auto
qed

declare partition_loop.simps [simp del]

definition partition_py :: "('f, 'o, 'v) funsor_api \<Rightarrow> 'f list \<Rightarrow> string set \<Rightarrow>
    error + ('f list \<times> string set) list" where
  "partition_py api terms sum_vars = partition_loop (neighbors_of api terms sum_vars) []"

subsection \<open>partial\_sum\_product and sum\_product\<close>

text \<open>
  An ordinal is a \<^verbatim>\<open>frozenset\<close> of plate names.  \<open>ordinal_to_factors\<close> is a
  \<^verbatim>\<open>defaultdict(list)\<close>, \<open>var_to_ordinal\<close> a \<^verbatim>\<open>dict\<close>.
\<close>

type_synonym ordinal = "string set"

text \<open>
  The first loop, \<^verbatim>\<open>for f in factors\<close>.  \<open>set_var_ordinals\<close> is its inner loop over
  \<^verbatim>\<open>sum_vars.intersection(f.inputs)\<close>; the order in which a set is iterated does not
  matter there, since the entries of different variables do not depend on each other and
  \<open>var_to_ordinal\<close> is only ever looked up by key.
\<close>

fun set_var_ordinals :: "ordinal \<Rightarrow> string list \<Rightarrow> (string \<times> ordinal) list \<Rightarrow> (string \<times> ordinal) list" where
  "set_var_ordinals ordinal [] vto = vto"
| "set_var_ordinals ordinal (var # vars) vto =
     set_var_ordinals ordinal vars
       (dict_set var ((case map_of vto var of None \<Rightarrow> ordinal | Some o' \<Rightarrow> o') \<inter> ordinal) vto)"

fun bucket_factors :: "('f, 'o, 'v) funsor_api \<Rightarrow> string set \<Rightarrow> string set \<Rightarrow> 'f list \<Rightarrow>
    (ordinal \<times> 'f list) list \<times> (string \<times> ordinal) list \<Rightarrow>
    (ordinal \<times> 'f list) list \<times> (string \<times> ordinal) list" where
  "bucket_factors api sum_vars plates [] st = st"
| "bucket_factors api sum_vars plates (f # fs) (otf, vto) =
     (let ordinal = plates \<inter> set (inputs_of api f)
      in bucket_factors api sum_vars plates fs
           (dict_append ordinal f otf,
            set_var_ordinals ordinal
              (filter (\<lambda>v. v \<in> sum_vars) (remdups (inputs_of api f))) vto))"

text \<open>
  \<^verbatim>\<open>ordinal_to_vars[leaf]\<close>: the second loop puts every variable into the set of its
  ordinal, and a \<^verbatim>\<open>defaultdict(set)\<close> gives the empty set for an ordinal without one.
\<close>

definition ordinal_to_vars :: "(string \<times> ordinal) list \<Rightarrow> ordinal \<Rightarrow> string set" where
  "ordinal_to_vars vto leaf = set (map fst (filter (\<lambda>(var, ordinal). ordinal = leaf) vto))"

text \<open>\<^verbatim>\<open>leaf = max(ordinal_to_factors, key=len)\<close>: the keys are ordinals, \<^verbatim>\<open>len\<close> counts
  the plate names of an ordinal.  The dictionary is not empty when this is called.\<close>

definition choose_leaf :: "(ordinal \<times> 'f list) list \<Rightarrow> ordinal" where
  "choose_leaf otf = py_max_by card (fst (hd otf)) (map fst (tl otf))"

text \<open>
  \<^verbatim>\<open>frozenset().union(*(var_to_ordinal[v] for v in remaining_sum_vars))\<close>: every
  lookup is made, and a missing key is a \<^verbatim>\<open>KeyError\<close>.
\<close>

fun new_plates_of :: "(string \<times> ordinal) list \<Rightarrow> string list \<Rightarrow> error + ordinal" where
  "new_plates_of vto [] = Inr {}"
| "new_plates_of vto (v # vs) =
     (case map_of vto v of
        None \<Rightarrow> Inl KeyError
      | Some ordinal \<Rightarrow>
          (case new_plates_of vto vs of Inl e \<Rightarrow> Inl e | Inr rest \<Rightarrow> Inr (ordinal \<union> rest)))"

text \<open>The fixed values of one run: the operators, the sets and \<open>var_to_ordinal\<close>.\<close>

record ('f, 'o, 'v) psp_env =
  api :: "('f, 'o, 'v) funsor_api"
  sum_op :: 'o
  prod_op :: 'o
  eliminate :: "string set"
  plates :: "string set"
  var_to_ordinal :: "(string \<times> ordinal) list"

definition sum_vars :: "('f, 'o, 'v) psp_env \<Rightarrow> string set" where
  "sum_vars env = eliminate env - plates env"

definition remaining_sum_vars :: "('f, 'o, 'v) psp_env \<Rightarrow> 'f \<Rightarrow> string list" where
  "remaining_sum_vars env f =
     filter (\<lambda>v. v \<in> sum_vars env) (remdups (inputs_of (api env) f))"

text \<open>
  \<^verbatim>\<open>f = reduce(prod_op, group_factors).reduce(sum_op, group_vars)\<close>, the contraction of
  one connected component.
\<close>

definition contract_group :: "('f, 'o, 'v) psp_env \<Rightarrow> 'f list \<times> string set \<Rightarrow> error + 'f" where
  "contract_group env g =
     (case py_reduce (apply_op (api env) (prod_op env)) (fst g) of
        Inl e \<Rightarrow> Inl e
      | Inr p \<Rightarrow> reduce_of (api env) p (sum_op env) (snd g))"

text \<open>
  The body of \<^verbatim>\<open>for (group_factors, group_vars) in _partition(...)\<close>, on the state
  \<open>(ordinal_to_factors, results)\<close>, and the loop over the groups.
\<close>

definition process_group :: "('f, 'o, 'v) psp_env \<Rightarrow> ordinal \<Rightarrow> 'f list \<times> string set \<Rightarrow>
    (ordinal \<times> 'f list) list \<times> 'f list \<Rightarrow> error + ((ordinal \<times> 'f list) list \<times> 'f list)" where
  "process_group env leaf g st =
     (case contract_group env g of
        Inl e \<Rightarrow> Inl e
      | Inr f \<Rightarrow>
          if remaining_sum_vars env f = []
          then (case reduce_of (api env) f (prod_op env) (leaf \<inter> eliminate env) of
                  Inl e \<Rightarrow> Inl e
                | Inr r \<Rightarrow> Inr (fst st, snd st @ [r]))
          else (case new_plates_of (var_to_ordinal env) (remaining_sum_vars env f) of
                  Inl e \<Rightarrow> Inl e
                | Inr new_plates \<Rightarrow>
                    if new_plates = leaf then Inl (ValueError ''intractable!'')
                    else (case reduce_of (api env) f (prod_op env) (leaf - new_plates) of
                            Inl e \<Rightarrow> Inl e
                          | Inr f' \<Rightarrow> Inr (dict_append new_plates f' (fst st), snd st))))"

text \<open>One round of \<^verbatim>\<open>while ordinal_to_factors\<close>, on a non-empty dictionary.\<close>

definition psp_step :: "('f, 'o, 'v) psp_env \<Rightarrow> (ordinal \<times> 'f list) list \<times> 'f list \<Rightarrow>
    error + ((ordinal \<times> 'f list) list \<times> 'f list)" where
  "psp_step env st =
     (let leaf = choose_leaf (fst st)
      in case dict_pop leaf (fst st) of
           None \<Rightarrow> Inl KeyError
         | Some (leaf_factors, otf) \<Rightarrow>
             (case partition_py (api env) leaf_factors (ordinal_to_vars (var_to_ordinal env) leaf) of
                Inl e \<Rightarrow> Inl e
              | Inr groups \<Rightarrow> fold_err (\<lambda>s g. process_group env leaf g s) (otf, snd st) groups))"

text \<open>
  The while loop.  Whether it ends is not assumed: the result is \<open>None\<close> when it does
  not, \<open>Some (Inl e)\<close> when the run raises \<open>e\<close>, and \<open>Some (Inr results)\<close> when it
  returns.
\<close>

partial_function (option) psp_loop :: "('f, 'o, 'v) psp_env \<Rightarrow>
    (ordinal \<times> 'f list) list \<times> 'f list \<Rightarrow> (error + 'f list) option" where
  "psp_loop env st =
     (if fst st = [] then Some (Inr (snd st))
      else (case psp_step env st of
              Inl e \<Rightarrow> Some (Inl e)
            | Inr st' \<Rightarrow> psp_loop env st'))"

definition psp_env_of :: "('f, 'o, 'v) funsor_api \<Rightarrow> 'o \<Rightarrow> 'o \<Rightarrow> 'f list \<Rightarrow> string set \<Rightarrow>
    string set \<Rightarrow> ('f, 'o, 'v) psp_env" where
  "psp_env_of a s p factors elim pl =
     \<lparr>api = a, sum_op = s, prod_op = p, eliminate = elim, plates = pl,
      var_to_ordinal = snd (bucket_factors a (elim - pl) pl factors ([], []))\<rparr>"

definition psp_init :: "('f, 'o, 'v) funsor_api \<Rightarrow> 'f list \<Rightarrow> string set \<Rightarrow> string set \<Rightarrow>
    (ordinal \<times> 'f list) list \<times> 'f list" where
  "psp_init a factors elim pl = (fst (bucket_factors a (elim - pl) pl factors ([], [])), [])"

definition partial_sum_product :: "('f, 'o, 'v) funsor_api \<Rightarrow> 'o \<Rightarrow> 'o \<Rightarrow> 'f list \<Rightarrow>
    string set \<Rightarrow> string set \<Rightarrow> (error + 'f list) option" where
  "partial_sum_product a s p factors elim pl =
     psp_loop (psp_env_of a s p factors elim pl) (psp_init a factors elim pl)"

text \<open>
  \<^verbatim>\<open>sum_product\<close>: the partial contraction, then
  \<^verbatim>\<open>reduce(prod_op, factors, Number(UNITS[prod_op]))\<close>.  The lookup in \<open>UNITS\<close> is made
  after the partial contraction has returned.
\<close>

definition sum_product :: "('f, 'o, 'v) funsor_api \<Rightarrow> 'o \<Rightarrow> 'o \<Rightarrow> 'f list \<Rightarrow>
    string set \<Rightarrow> string set \<Rightarrow> (error + 'f) option" where
  "sum_product a s p factors elim pl =
     (case partial_sum_product a s p factors elim pl of
        None \<Rightarrow> None
      | Some (Inl e) \<Rightarrow> Some (Inl e)
      | Some (Inr results) \<Rightarrow>
          (case UNITS a p of
             None \<Rightarrow> Some (Inl KeyError)
           | Some u \<Rightarrow> Some (fold_err (apply_op a p) (Number a u) results)))"

text \<open>
  The state after \<open>k\<close> rounds of the while loop, when none of them raised and the
  dictionary was not empty before any of them.
\<close>

fun psp_rounds :: "('f, 'o, 'v) psp_env \<Rightarrow> nat \<Rightarrow> (ordinal \<times> 'f list) list \<times> 'f list \<Rightarrow>
    ((ordinal \<times> 'f list) list \<times> 'f list) option" where
  "psp_rounds env 0 st = Some st"
| "psp_rounds env (Suc k) st =
     (if fst st = [] then None
      else (case psp_step env st of Inl e \<Rightarrow> None | Inr st' \<Rightarrow> psp_rounds env k st'))"

text \<open>
  A lazy funsor, for concrete runs of the engine: a named factor with its inputs, the
  constant, and the two symbolic nodes the engine builds.  Modelled from the spec: a
  binary operation has the union of its operands' dimensions, first seen first, and a
  reduction removes the reduced dimensions.
\<close>

datatype lazy =
    Leaf string "string list"
  | Const int
  | Binary string lazy lazy
  | Reduce string lazy "string set"

fun lazy_inputs :: "lazy \<Rightarrow> string list" where
  "lazy_inputs (Leaf name dims) = dims"
| "lazy_inputs (Const v) = []"
| "lazy_inputs (Binary op' f g) = lazy_inputs f @ filter (\<lambda>d. d \<notin> set (lazy_inputs f)) (lazy_inputs g)"
| "lazy_inputs (Reduce op' f vars) = filter (\<lambda>d. d \<notin> vars) (lazy_inputs f)"

definition lazy_api :: "(lazy, string, int) funsor_api" where
  "lazy_api =
     \<lparr>inputs_of = lazy_inputs,
      apply_op = (\<lambda>op' f g. Inr (Binary op' f g)),
      reduce_of = (\<lambda>f op' vars. Inr (Reduce op' f vars)),
      Number = Const,
      UNITS = [''mul'' \<mapsto> 1, ''add'' \<mapsto> 0]\<rparr>"

text \<open>
  A second instance for the examples: the funsors without inputs are numbers, on which
  an operator acts as on numbers, and the units are the identity elements: 1 for the
  product and 0 for the sum.
\<close>

definition number_api :: "(int, string, int) funsor_api" where
  "number_api =
     \<lparr>inputs_of = (\<lambda>f. []),
      apply_op = (\<lambda>op' x y. if op' = ''mul'' then Inr (x * y)
                              else if op' = ''add'' then Inr (x + y) else Inl TypeError),
      reduce_of = (\<lambda>f op' vars. Inr f),
      Number = (\<lambda>v. v),
      UNITS = [''mul'' \<mapsto> 1, ''add'' \<mapsto> 0]\<rparr>"

subsection \<open>Operations of the Tensor funsor\<close>

text \<open>
  Modelled from the spec: the methods of \<^verbatim>\<open>funsor.torch.Tensor\<close> that
  \<^verbatim>\<open>sequential_sum_product\<close> and \<^verbatim>\<open>Cat\<close> call, which are not among the source
  files.  They follow sections 4.1 and 4.2 of the spec.

  A call substitutes values for named dimensions, one dimension at a time.  An integer
  indexes and drops the dimension.  A string relabels the dimension in place without
  touching the data.  A Tensor-valued index performs a gather along that axis and
  splices the dimensions of the index in at that position; a dimension of the index that
  collides with another dimension of the receiver is refused.  A dimension the receiver
  does not have is left alone.
\<close>

datatype sub = SubInt int | SubStr string | SubTensor "int tensor"

definition names :: "'a tensor \<Rightarrow> string list" where
  "names t = map fst (inputs t)"

text \<open>The position of a name in a tuple of names (\<^verbatim>\<open>tuple.index\<close>), when it is there.\<close>

definition pos_of :: "'k \<Rightarrow> 'k list \<Rightarrow> nat" where
  "pos_of d ds = length (takeWhile (\<lambda>d'. d' \<noteq> d) ds)"

text \<open>All the multi-indices of a shape, in row-major order.\<close>

fun all_indices :: "nat list \<Rightarrow> nat list list" where
  "all_indices [] = [[]]"
| "all_indices (n # ns) = concat (map (\<lambda>i. map ((#) i) (all_indices ns)) [0..<n])"

definition substitute :: "'a tensor \<Rightarrow> string \<Rightarrow> sub \<Rightarrow> error + 'a tensor" where
  "substitute t dim v =
     (if dim \<notin> set (names t) then Inr t
      else
        let pos = pos_of dim (names t);
            n = snd (inputs t ! pos);
            sh = shape (data t)
        in case v of
             SubInt i \<Rightarrow>
               (let j = (if i < 0 then int n + i else i)
                in if 0 \<le> j \<and> j < int n
                   then Inr \<lparr>data = \<lparr>shape = take pos sh @ drop (Suc pos) sh,
                                    elems = (\<lambda>ix. elems (data t)
                                               (take pos ix @ [nat j] @ drop pos ix))\<rparr>,
                            inputs = take pos (inputs t) @ drop (Suc pos) (inputs t),
                            dtype = dtype t\<rparr>
                   else Inl IndexError)
           | SubStr new \<Rightarrow>
               if new \<in> set (take pos (names t) @ drop (Suc pos) (names t))
               then Inl AssertionError
               else Inr (t\<lparr>inputs := (inputs t)[pos := (new, n)]\<rparr>)
           | SubTensor idx \<Rightarrow>
               if \<exists>d\<in>set (names idx). d \<noteq> dim \<and> d \<in> set (names t)
               then Inl (NotImplementedError ''TODO'')
               else if \<not> list_all (\<lambda>ix. 0 \<le> elems (data idx) ix \<and> elems (data idx) ix < int n)
                          (all_indices (shape (data idx)))
               then Inl IndexError
               else
                 let k = length (shape (data idx))
                 in Inr \<lparr>data = \<lparr>shape = take pos sh @ shape (data idx) @ drop (Suc pos) sh,
                                  elems = (\<lambda>ix. elems (data t)
                                             (take pos ix @
                                              [nat (elems (data idx) (take k (drop pos ix)))] @
                                              drop (pos + k) ix))\<rparr>,
                          inputs = take pos (inputs t) @ inputs idx @ drop (Suc pos) (inputs t),
                          dtype = dtype t\<rparr>)"

text \<open>\<^verbatim>\<open>t(**kwargs)\<close>; the keyword arguments are a dictionary.\<close>

definition Tensor_call :: "'a tensor \<Rightarrow> (string \<times> sub) list \<Rightarrow> error + 'a tensor" where
  "Tensor_call t kwargs = fold_err (\<lambda>t' kv. substitute t' (fst kv) (snd kv)) t kwargs"

text \<open>
  \<^verbatim>\<open>op(x, y)\<close> on two Tensors: the dimensions of the result are the union of the
  operands' dimensions, first seen first, and each entry is \<open>op\<close> of the operands'
  entries at the index restricted to their own dimensions.  A dimension the operands
  share must have one size.
\<close>

definition restrict_index :: "string list \<Rightarrow> string list \<Rightarrow> nat list \<Rightarrow> nat list" where
  "restrict_index all own ix = map (\<lambda>d. ix ! pos_of d all) own"

definition binary_op :: "('a \<Rightarrow> 'a \<Rightarrow> 'a) \<Rightarrow> 'a tensor \<Rightarrow> 'a tensor \<Rightarrow> error + 'a tensor" where
  "binary_op op' x y =
     (if \<exists>dn\<in>set (inputs y). fst dn \<in> set (names x) \<and> map_of (inputs x) (fst dn) \<noteq> Some (snd dn)
      then Inl RuntimeError
      else
        let ins = inputs x @ filter (\<lambda>dn. fst dn \<notin> set (names x)) (inputs y);
            all = map fst ins
        in Inr \<lparr>data = \<lparr>shape = map snd ins,
                         elems = (\<lambda>ix. op' (elems (data x) (restrict_index all (names x) ix))
                                          (elems (data y) (restrict_index all (names y) ix)))\<rparr>,
                 inputs = ins,
                 dtype = dtype x\<rparr>)"

text \<open>
  \<^verbatim>\<open>t.reduce(op, dim)\<close> for one named dimension: the entries along that axis are folded
  pairwise with \<open>op\<close>, from index 0 up.  An unknown dimension cannot be reduced, and
  neither can an axis without entries.
\<close>

definition reduce_dim :: "('a \<Rightarrow> 'a \<Rightarrow> 'a) \<Rightarrow> 'a tensor \<Rightarrow> string \<Rightarrow> error + 'a tensor" where
  "reduce_dim op' t dim =
     (if dim \<notin> set (names t) then Inl (NotImplementedError ''cannot reduce dim'')
      else
        let pos = pos_of dim (names t);
            n = snd (inputs t ! pos);
            sh = shape (data t)
        in if n = 0 then Inl TypeError
           else Inr \<lparr>data = \<lparr>shape = take pos sh @ drop (Suc pos) sh,
                            elems = (\<lambda>ix. foldl op'
                                       (elems (data t) (take pos ix @ [0] @ drop pos ix))
                                       (map (\<lambda>i. elems (data t) (take pos ix @ [i] @ drop pos ix))
                                          [1..<n]))\<rparr>,
                    inputs = take pos (inputs t) @ drop (Suc pos) (inputs t),
                    dtype = dtype t\<rparr>)"

subsection \<open>Cat\<close>

text \<open>
  \<^verbatim>\<open>inputs.update(x.inputs)\<close> for every part, on an \<^verbatim>\<open>OrderedDict\<close>.
\<close>

definition update_inputs :: "(string \<times> nat) list \<Rightarrow> (string \<times> nat) list \<Rightarrow> (string \<times> nat) list" where
  "update_inputs ins new = foldl (\<lambda>d kv. dict_set (fst kv) (snd kv) d) ins new"

text \<open>
  \<^verbatim>\<open>align_tensor(inputs, part).expand(shape)\<close>: the array of the part, permuted into
  the order of \<open>inputs\<close> and broadcast to \<open>shape\<close>.  Modelled from the spec
  (\<^verbatim>\<open>align_tensor\<close> is not among the source files): a dimension the part lacks is
  broadcast, a dimension of size 1 is expanded, and any other size must be the size
  asked for.
\<close>

definition align_expand :: "(string \<times> nat) list \<Rightarrow> 'a tensor \<Rightarrow> error + 'a torch" where
  "align_expand ins part =
     (if \<exists>dn\<in>set (inputs part). snd dn \<noteq> 1 \<and> map_of ins (fst dn) \<noteq> Some (snd dn)
      then Inl RuntimeError
      else Inr \<lparr>shape = map snd ins,
                elems = (\<lambda>ix. elems (data part)
                           (map (\<lambda>dn. if snd dn = 1 then 0 else ix ! pos_of (fst dn) (map fst ins))
                              (inputs part)))\<rparr>)"

text \<open>
  The loop \<^verbatim>\<open>for part in parts\<close> of \<open>Cat\<close>: it sets \<^verbatim>\<open>inputs[name]\<close> to the size
  the part has along \<open>name\<close> (a \<^verbatim>\<open>KeyError\<close> when the part lacks \<open>name\<close>) and collects
  the aligned arrays.  The dictionary \<open>inputs\<close> is shared by the rounds.
\<close>

fun cat_align :: "string \<Rightarrow> 'a tensor list \<Rightarrow> (string \<times> nat) list \<Rightarrow>
    error + ((string \<times> nat) list \<times> 'a torch list)" where
  "cat_align name [] ins = Inr (ins, [])"
| "cat_align name (part # parts) ins =
     (case map_of (inputs part) name of
        None \<Rightarrow> Inl KeyError
      | Some n \<Rightarrow>
          (case align_expand (dict_set name n ins) part of
             Inl e \<Rightarrow> Inl e
           | Inr a \<Rightarrow>
               (case cat_align name parts (dict_set name n ins) of
                  Inl e \<Rightarrow> Inl e
                | Inr (ins', as) \<Rightarrow> Inr (ins', a # as))))"

text \<open>
  \<^verbatim>\<open>torch.cat(tensors, dim)\<close> of a non-empty sequence: the arrays must agree on
  every other axis; along \<open>dim\<close> the index runs through the first array, then the
  second, and so on.
\<close>

fun cat_elems :: "nat \<Rightarrow> 'a torch \<Rightarrow> 'a torch list \<Rightarrow> nat list \<Rightarrow> 'a" where
  "cat_elems dim a [] = elems a"
| "cat_elems dim a (b # bs) =
     (\<lambda>ix. if ix ! dim < shape a ! dim then elems a ix
           else cat_elems dim b bs (ix[dim := ix ! dim - shape a ! dim]))"

definition torch_cat :: "'a torch list \<Rightarrow> nat \<Rightarrow> error + 'a torch" where
  "torch_cat tensors dim =
     (case tensors of
        [] \<Rightarrow> Inl RuntimeError
      | a # bs \<Rightarrow>
          if \<exists>b\<in>set bs. (shape b)[dim := 0] \<noteq> (shape a)[dim := 0]
          then Inl RuntimeError
          else Inr \<lparr>shape = (shape a)[dim := sum_list (map (\<lambda>t. shape t ! dim) tensors)],
                    elems = cat_elems dim a bs\<rparr>)"

definition Cat :: "'a tensor list \<Rightarrow> string \<Rightarrow> error + 'a tensor" where
  "Cat parts name =
     (if length parts = 1 then Inr (hd parts)
      else if 1 < card (set (map dtype parts)) then Inl (NotImplementedError ''TODO'')
      else
        case cat_align name parts (foldl update_inputs [] (map inputs parts)) of
          Inl e \<Rightarrow> Inl e
        | Inr (ins, tensors) \<Rightarrow>
            if name \<notin> set (map fst ins) then Inl (ValueError [])
            else
              (case torch_cat tensors (pos_of name (map fst ins)) of
                 Inl e \<Rightarrow> Inl e
               | Inr tensor \<Rightarrow>
                   Inr \<lparr>data = tensor,
                        inputs = dict_set name (shape tensor ! pos_of name (map fst ins)) ins,
                        dtype = dtype (hd parts)\<rparr>))"

subsection \<open>sequential\_sum\_product\<close>

text \<open>
  The operators are Python callables on the entries; \<open>prod_op(x, y)\<close> on Tensors is
  \<open>binary_op\<close>.  The parameters \<^verbatim>\<open>trans\<close> and \<^verbatim>\<open>curr\<close> are written \<open>trans'\<close> and \<open>curr'\<close>.  \<open>ssp_round\<close> is the body of the while loop for a \<open>trans'\<close> whose time
  dimension has size \<open>duration\<close>.
\<close>

definition ssp_round :: "('a \<Rightarrow> 'a \<Rightarrow> 'a) \<Rightarrow> ('a \<Rightarrow> 'a \<Rightarrow> 'a) \<Rightarrow> string \<Rightarrow> string \<Rightarrow> string \<Rightarrow>
    'a tensor \<Rightarrow> nat \<Rightarrow> error + 'a tensor" where
  "ssp_round sum_op' prod_op' time prev curr' trans' duration =
     (let even_duration = duration div 2 * 2
      in case Slice time [0, int even_duration, 2, int duration] of Inl e \<Rightarrow> Inl e | Inr sx \<Rightarrow>
         case Tensor_call trans' (dict_set curr' (SubStr ''_drop'') [(time, SubTensor sx)]) of
           Inl e \<Rightarrow> Inl e | Inr x \<Rightarrow>
         case Slice time [1, int even_duration, 2, int duration] of Inl e \<Rightarrow> Inl e | Inr sy \<Rightarrow>
         case Tensor_call trans' (dict_set prev (SubStr ''_drop'') [(time, SubTensor sy)]) of
           Inl e \<Rightarrow> Inl e | Inr y \<Rightarrow>
         case binary_op prod_op' x y of Inl e \<Rightarrow> Inl e | Inr xy \<Rightarrow>
         case reduce_dim sum_op' xy ''_drop'' of Inl e \<Rightarrow> Inl e | Inr contracted \<Rightarrow>
         if even_duration < duration
         then (case Slice time [int duration - 1, int duration] of Inl e \<Rightarrow> Inl e | Inr se \<Rightarrow>
               case Tensor_call trans' [(time, SubTensor se)] of Inl e \<Rightarrow> Inl e | Inr extra \<Rightarrow>
               Cat [contracted, extra] time)
         else Inr contracted)"

text \<open>
  The function itself.  \<^verbatim>\<open>trans.inputs[time]\<close> is a dictionary lookup.  The loop is not
  assumed to end: \<open>None\<close> is a run that does not return.
\<close>

partial_function (option) sequential_sum_product :: "('a \<Rightarrow> 'a \<Rightarrow> 'a) \<Rightarrow> ('a \<Rightarrow> 'a \<Rightarrow> 'a) \<Rightarrow>
    'a tensor \<Rightarrow> string \<Rightarrow> string \<Rightarrow> string \<Rightarrow> (error + 'a tensor) option" where
  "sequential_sum_product sum_op' prod_op' trans' time prev curr' =
     (case map_of (inputs trans') time of
        None \<Rightarrow> Some (Inl KeyError)
      | Some duration \<Rightarrow>
          if 1 < duration
          then (case ssp_round sum_op' prod_op' time prev curr' trans' duration of
                  Inl e \<Rightarrow> Some (Inl e)
                | Inr contracted \<Rightarrow>
                    sequential_sum_product sum_op' prod_op' contracted time prev curr')
          else Some (Tensor_call trans' [(time, SubInt 0)]))"

text \<open>
  The explicit chain contraction the spec compares with, for two states: the chain of
  \<open>Suc n\<close> steps that starts at time \<open>t\<close>, from the state \<open>p\<close> to the state \<open>c\<close>, is the
  sum over the intermediate state \<open>s\<close> of the first step times the rest of the chain.
  For four steps it is the sum over \<open>s1, s2, s3\<close> of
  \<open>T 0 s0 s1 * T 1 s1 s2 * T 2 s2 s3 * T 3 s3 s4\<close>.
\<close>

fun chain_sum :: "(nat \<Rightarrow> nat \<Rightarrow> nat \<Rightarrow> 'a::comm_semiring_0) \<Rightarrow> nat \<Rightarrow> nat \<Rightarrow> nat \<Rightarrow> nat \<Rightarrow> 'a" where
  "chain_sum T t 0 p c = T t p c"
| "chain_sum T t (Suc n) p c = (\<Sum>s<2. T t p s * chain_sum T (Suc t) n s c)"

text \<open>The transition Tensor with entries \<open>T t prev curr\<close> over \<open>n\<close> time steps.\<close>

definition transition :: "(nat \<Rightarrow> nat \<Rightarrow> nat \<Rightarrow> 'a) \<Rightarrow> nat \<Rightarrow> 'a tensor" where
  "transition T n =
     \<lparr>data = \<lparr>shape = [n, 2, 2], elems = (\<lambda>ix. T (ix ! 0) (ix ! 1) (ix ! 2))\<rparr>,
      inputs = [(''time'', n), (''prev'', 2), (''curr'', 2)],
      dtype = DReal\<rparr>"

text \<open>
  One round of the scan pairs the time steps \<open>t\<close> and \<open>u\<close>: the entry of the pair is
  the sum over the shared state of the product of the two steps.
\<close>

definition pair_sum :: "'a::comm_semiring_0 tensor \<Rightarrow> nat \<Rightarrow> nat \<Rightarrow> nat \<Rightarrow> nat \<Rightarrow> 'a" where
  "pair_sum r t u p c = (\<Sum>s<2. elems (data r) [t, p, s] * elems (data r) [u, s, c])"

text \<open>
  What the claim about the scan says of a result: the call returns a Tensor over
  \<open>prev\<close> and \<open>curr\<close> whose entry at every pair of boundary states is the chain sum
  over \<open>n\<close> time steps.
\<close>

definition chain_result :: "(error + 'a::comm_semiring_0 tensor) option \<Rightarrow> (nat \<Rightarrow> nat \<Rightarrow> nat \<Rightarrow> 'a) \<Rightarrow> nat \<Rightarrow> bool" where
  "chain_result res T n \<longleftrightarrow>
     (\<exists>r. res = Some (Inr r) \<and> inputs r = [(''prev'', 2), (''curr'', 2)] \<and>
          (\<forall>s0 sn. elems (data r) [s0, sn] = chain_sum T 0 (n - 1) s0 sn))"

text \<open>
  What the claim about the choice of the bucket says: the chosen ordinal is a key whose
  list of factors is at least as long as every other.
\<close>

definition most_factors :: "(ordinal \<times> 'f list) list \<Rightarrow> ordinal \<Rightarrow> bool" where
  "most_factors otf leaf \<longleftrightarrow>
     (\<exists>fs. map_of otf leaf = Some fs \<and> (\<forall>(k, fs') \<in> set otf. length fs' \<le> length fs))"

section \<open>funsor.py\<close>

subsection \<open>Domains, operators and values\<close>

text \<open>
  An entry of a funsor's \<^verbatim>\<open>shape\<close>: a size, documented as a nonnegative integer, or a
  string, which must be one of \<^verbatim>\<open>DOMAINS\<close>.
\<close>

datatype domain = Bint nat | Named string

definition DOMAINS :: "string list" where
  "DOMAINS = [''real'', ''positive'', ''unit_interval'']"

text \<open>
  The callables that \<^verbatim>\<open>funsor.py\<close> uses as operators: the unary ones
  (\<^verbatim>\<open>operator.invert\<close>, \<^verbatim>\<open>operator.neg\<close>, \<^verbatim>\<open>_abs\<close>, \<^verbatim>\<open>_sqrt\<close>, \<^verbatim>\<open>_exp\<close>,
  \<^verbatim>\<open>_log\<close>, \<^verbatim>\<open>_log1p\<close>), the binary ones of the module \<^verbatim>\<open>operator\<close> with
  \<^verbatim>\<open>_pow\<close>, \<^verbatim>\<open>min\<close> and \<^verbatim>\<open>max\<close>, the three reflected lambdas, and the three
  placeholders \<^verbatim>\<open>_logaddexp\<close>, \<^verbatim>\<open>_marginal\<close> and \<^verbatim>\<open>_sample\<close>.
\<close>

datatype op =
    Op_invert | Op_neg | Op_abs | Op_sqrt | Op_exp | Op_log | Op_log1p
  | Op_add | Op_sub | Op_mul | Op_truediv | Op_pow | Op_and | Op_or | Op_xor
  | Op_eq | Op_ne | Op_lt | Op_le | Op_gt | Op_ge | Op_min | Op_max
  | Op_rsub | Op_rtruediv | Op_rpow
  | Op_logaddexp | Op_marginal | Op_sample

text \<open>
  Funsors, the Python functions that back a \<open>Function\<close>, and the Python values that are
  passed around.  The array of a \<open>Tensor\<close> has integer entries.  Every closure the
  source creates is a constructor: \<open>Partial\<close> is \<^verbatim>\<open>functools.partial(fn, *args, **kwargs)\<close>,
  \<open>UnaryFn\<close>, \<open>BinaryFn\<close> and \<open>BroadcastFn\<close> are the three local functions \<^verbatim>\<open>fn\<close> of
  \<^verbatim>\<open>pointwise_unary\<close> and \<^verbatim>\<open>pointwise_binary\<close> with the variables they capture, and
  \<open>PLam op other\<close> is \<^verbatim>\<open>lambda a: op(a, other)\<close>.  \<open>Native\<close> is a function of the
  client, known by its identity only.

  The classes \<^verbatim>\<open>TransformedVariable\<close>, \<^verbatim>\<open>Delta\<close> and \<^verbatim>\<open>MultivariateNormal\<close> do not
  define the abstract method \<^verbatim>\<open>__call__\<close>, so no object of them exists; \<^verbatim>\<open>Normal\<close> and
  \<^verbatim>\<open>TransformedDistribution\<close> are outside the core the spec describes.
\<close>

datatype funsor =
    Variable string domain
  | Function "string list" "domain list" closure
  | Tensor "string list" "int torch"
and closure =
    Native nat
  | Partial closure "pyval list" "(string \<times> pyval) list"
  | UnaryFn pyval funsor
  | BinaryFn pyval funsor funsor
  | BroadcastFn pyval funsor funsor "string list"
and pyval =
    PNone
  | PInt int
  | PStr string
  | PEllipsis
  | PSlice "int option" "int option" "int option"
  | PTorch "int torch"
  | PFunsor funsor
  | POp op
  | PLam pyval pyval

fun dims_of :: "funsor \<Rightarrow> string list" where
  "dims_of (Variable name s) = [name]"
| "dims_of (Function dims sh fn) = dims"
| "dims_of (Tensor dims x) = dims"

fun shape_of :: "funsor \<Rightarrow> domain list" where
  "shape_of (Variable name s) = [s]"
| "shape_of (Function dims sh fn) = sh"
| "shape_of (Tensor dims x) = map Bint (shape x)"

text \<open>\<^verbatim>\<open>self.schema = OrderedDict(zip(dims, shape))\<close>.\<close>

definition schema :: "funsor \<Rightarrow> (string \<times> domain) list" where
  "schema f = foldl (\<lambda>d kv. dict_set (fst kv) (snd kv) d) [] (zip (dims_of f) (shape_of f))"

text \<open>
  The assertions of \<^verbatim>\<open>Funsor.__init__\<close>, which every constructor runs: the names are
  unique, every entry of the shape is an integer or one of \<^verbatim>\<open>DOMAINS\<close>, and there are
  as many names as sizes.
\<close>

definition Funsor_init :: "string list \<Rightarrow> domain list \<Rightarrow> bool" where
  "Funsor_init dims sh \<longleftrightarrow>
     distinct dims \<and>
     list_all (\<lambda>s. case s of Bint n \<Rightarrow> True | Named d \<Rightarrow> d \<in> set DOMAINS) sh \<and>
     length dims = length sh"

definition mk_Function :: "string list \<Rightarrow> domain list \<Rightarrow> closure \<Rightarrow> error + funsor" where
  "mk_Function dims sh fn =
     (if Funsor_init dims sh then Inr (Function dims sh fn) else Inl AssertionError)"

text \<open>\<^verbatim>\<open>Tensor(dims, data)\<close> asserts that \<open>data\<close> is an array; its shape is the array's.\<close>

definition mk_Tensor :: "string list \<Rightarrow> pyval \<Rightarrow> error + funsor" where
  "mk_Tensor dims v =
     (case v of
        PTorch x \<Rightarrow>
          if Funsor_init dims (map Bint (shape x)) then Inr (Tensor dims x)
          else Inl AssertionError
      | _ \<Rightarrow> Inl AssertionError)"

text \<open>The invariant the spec states of every funsor.\<close>

definition funsor_ok :: "funsor \<Rightarrow> bool" where
  "funsor_ok f \<longleftrightarrow> distinct (dims_of f) \<and> length (dims_of f) = length (shape_of f)"

subsection \<open>The registry of variables\<close>

text \<open>
  \<^verbatim>\<open>_VARIABLES\<close> is a \<^verbatim>\<open>WeakValueDictionary\<close> from \<open>(name, size)\<close> to objects.  An
  object is a funsor with its identity, a number that \<open>next_id\<close> hands out.  \<open>collect\<close>
  is the garbage collector: an entry whose object is not among the live ones goes away.
\<close>

record registry =
  VARIABLES :: "((string \<times> domain) \<times> (nat \<times> funsor)) list"
  next_id :: nat

definition collect :: "nat set \<Rightarrow> registry \<Rightarrow> registry" where
  "collect live R = R\<lparr>VARIABLES := filter (\<lambda>kv. fst (snd kv) \<in> live) (VARIABLES R)\<rparr>"

text \<open>
  \<^verbatim>\<open>Variable(name, size)\<close> asserts that the key is not registered, and then what
  \<^verbatim>\<open>Funsor.__init__\<close> asserts.
\<close>

definition mk_Variable :: "registry \<Rightarrow> string \<Rightarrow> domain \<Rightarrow> error + funsor" where
  "mk_Variable R name s =
     (if map_of (VARIABLES R) (name, s) = None \<and> Funsor_init [name] [s]
      then Inr (Variable name s) else Inl AssertionError)"

definition var :: "string \<Rightarrow> domain \<Rightarrow> registry \<Rightarrow> (error + nat \<times> funsor) \<times> registry" where
  "var name s R =
     (case map_of (VARIABLES R) (name, s) of
        Some obj \<Rightarrow> (Inr obj, R)
      | None \<Rightarrow>
          (case (case s of
                   Bint n \<Rightarrow>
                     (case arange 0 (int n) 1 of
                        Inl e \<Rightarrow> Inl e
                      | Inr x \<Rightarrow> mk_Tensor [name] (PTorch x))
                 | Named d \<Rightarrow> mk_Variable R name s) of
             Inl e \<Rightarrow> (Inl e, R)
           | Inr f \<Rightarrow>
               (Inr (next_id R, f),
                \<lparr>VARIABLES = dict_set (name, s) (next_id R, f) (VARIABLES R),
                 next_id = Suc (next_id R)\<rparr>)))"

subsection \<open>Operations of the array backend\<close>

text \<open>
  The numbers of the backend are modelled by integers.  What an operator computes on
  them is the backend's business and a parameter of the model: \<open>entry1\<close> and \<open>entry2\<close>
  apply a unary and a binary operator to entries, \<open>reduce_entries\<close> is the batch
  reduction (\<^verbatim>\<open>torch.sum\<close>, \<^verbatim>\<open>torch.prod\<close>, ...) of a sequence of entries.
\<close>

record backend =
  entry1 :: "op \<Rightarrow> int \<Rightarrow> int"
  entry2 :: "op \<Rightarrow> int \<Rightarrow> int \<Rightarrow> int"
  reduce_entries :: "op \<Rightarrow> int list \<Rightarrow> int"

text \<open>\<^verbatim>\<open>data[(slice(None),) * pos + (i,)]\<close>: a negative index counts from the end.\<close>

definition torch_select :: "int torch \<Rightarrow> nat \<Rightarrow> int \<Rightarrow> error + int torch" where
  "torch_select x pos i =
     (if length (shape x) \<le> pos then Inl IndexError
      else let n = int (shape x ! pos); j = (if i < 0 then n + i else i)
           in if 0 \<le> j \<and> j < n
              then Inr \<lparr>shape = take pos (shape x) @ drop (Suc pos) (shape x),
                        elems = (\<lambda>ix. elems x (take pos ix @ [nat j] @ drop pos ix))\<rparr>
              else Inl IndexError)"

text \<open>
  \<^verbatim>\<open>data[index]\<close> where \<open>index\<close> is all slices but for the array \<open>idx\<close> at \<open>pos\<close>: the
  axes of \<open>idx\<close> take the place of the axis \<open>pos\<close>.
\<close>

definition torch_gather :: "int torch \<Rightarrow> nat \<Rightarrow> int torch \<Rightarrow> error + int torch" where
  "torch_gather x pos idx =
     (if length (shape x) \<le> pos then Inl IndexError
      else let n = int (shape x ! pos); k = length (shape idx)
           in if list_all (\<lambda>ix. - n \<le> elems idx ix \<and> elems idx ix < n) (all_indices (shape idx))
              then Inr \<lparr>shape = take pos (shape x) @ shape idx @ drop (Suc pos) (shape x),
                        elems = (\<lambda>ix. elems x
                                   (take pos ix @
                                    [nat (let i = elems idx (take k (drop pos ix))
                                          in if i < 0 then n + i else i)] @
                                    drop (pos + k) ix))\<rparr>
              else Inl IndexError)"

text \<open>\<^verbatim>\<open>x.permute(perm)\<close>: axis \<open>i\<close> of the result is axis \<open>perm ! i\<close> of \<open>x\<close>.\<close>

definition torch_permute :: "int torch \<Rightarrow> nat list \<Rightarrow> error + int torch" where
  "torch_permute x perm =
     (if length perm = length (shape x) \<and> set perm = set [0..<length (shape x)]
      then Inr \<lparr>shape = map (\<lambda>k. shape x ! k) perm,
                elems = (\<lambda>ix. elems x (map (\<lambda>k. ix ! pos_of k perm) [0..<length (shape x)]))\<rparr>
      else Inl RuntimeError)"

text \<open>\<^verbatim>\<open>x.reshape(sh)\<close>: the entries in row-major order, under a shape of the same count.\<close>

fun ravel :: "nat list \<Rightarrow> nat list \<Rightarrow> nat" where
  "ravel [] ix = 0"
| "ravel (n # ns) ix = hd ix * prod_list ns + ravel ns (tl ix)"

fun unravel :: "nat list \<Rightarrow> nat \<Rightarrow> nat list" where
  "unravel [] k = []"
| "unravel (n # ns) k = k div prod_list ns # unravel ns (k mod prod_list ns)"

definition torch_reshape :: "int torch \<Rightarrow> nat list \<Rightarrow> error + int torch" where
  "torch_reshape x sh =
     (if prod_list sh = prod_list (shape x)
      then Inr \<lparr>shape = sh, elems = (\<lambda>ix. elems x (unravel (shape x) (ravel sh ix)))\<rparr>
      else Inl RuntimeError)"

definition torch_map :: "(int \<Rightarrow> int) \<Rightarrow> int torch \<Rightarrow> int torch" where
  "torch_map f x = \<lparr>shape = shape x, elems = (\<lambda>ix. f (elems x ix))\<rparr>"

text \<open>
  An elementwise operation on two arrays, broadcast as the backend does: the shapes are
  aligned at their last axes, and two sizes go together when they are equal or one of
  them is 1.
\<close>

fun broadcast_shape :: "nat list \<Rightarrow> nat list \<Rightarrow> nat list option" where
  "broadcast_shape [] [] = Some []"
| "broadcast_shape (a # as) (b # bs) =
     (case broadcast_shape as bs of
        None \<Rightarrow> None
      | Some r \<Rightarrow> if a = b \<or> b = 1 then Some (a # r) else if a = 1 then Some (b # r) else None)"
| "broadcast_shape as bs = None"

definition bidx :: "nat list \<Rightarrow> nat list \<Rightarrow> nat list" where
  "bidx sh ix = map (\<lambda>ni. if fst ni = 1 then 0 else snd ni) (zip sh (drop (length ix - length sh) ix))"

definition torch_map2 :: "(int \<Rightarrow> int \<Rightarrow> int) \<Rightarrow> int torch \<Rightarrow> int torch \<Rightarrow> error + int torch" where
  "torch_map2 f x y =
     (let r = max (length (shape x)) (length (shape y))
      in case broadcast_shape (replicate (r - length (shape x)) 1 @ shape x)
                (replicate (r - length (shape y)) 1 @ shape y) of
           None \<Rightarrow> Inl RuntimeError
         | Some sh \<Rightarrow>
             Inr \<lparr>shape = sh,
                  elems = (\<lambda>ix. f (elems x (bidx (shape x) ix)) (elems y (bidx (shape y) ix)))\<rparr>)"

text \<open>\<^verbatim>\<open>torch_op(data)\<close> over all entries and \<^verbatim>\<open>torch_op(data, pos)\<close> along one axis.\<close>

definition torch_reduce_all :: "backend \<Rightarrow> op \<Rightarrow> int torch \<Rightarrow> int torch" where
  "torch_reduce_all be o' x =
     \<lparr>shape = [], elems = (\<lambda>ix. reduce_entries be o' (map (elems x) (all_indices (shape x))))\<rparr>"

definition torch_reduce_axis :: "backend \<Rightarrow> op \<Rightarrow> int torch \<Rightarrow> nat \<Rightarrow> error + int torch" where
  "torch_reduce_axis be o' x pos =
     (if length (shape x) \<le> pos then Inl IndexError
      else Inr \<lparr>shape = take pos (shape x) @ drop (Suc pos) (shape x),
                elems = (\<lambda>ix. reduce_entries be o'
                           (map (\<lambda>i. elems x (take pos ix @ [i] @ drop pos ix))
                              [0..<shape x ! pos]))\<rparr>)"

subsection \<open>\_align\_tensors\<close>

text \<open>
  The first loop collects the sizes by name, after asserting that every array has as many
  axes as names.  The second permutes and reshapes every array whose names are not the
  union already.
\<close>

fun align_sizes :: "(string list \<times> int torch) list \<Rightarrow> (string \<times> nat) list \<Rightarrow> error + (string \<times> nat) list" where
  "align_sizes [] sizes = Inr sizes"
| "align_sizes ((x_dims, x) # args) sizes =
     (if length x_dims \<noteq> length (shape x) then Inl AssertionError
      else align_sizes args
             (foldl (\<lambda>d kv. dict_set (fst kv) (snd kv) d) sizes (zip x_dims (shape x))))"

definition align_one :: "(string \<times> nat) list \<Rightarrow> string list \<times> int torch \<Rightarrow> error + int torch" where
  "align_one sizes a =
     (let dims = map fst sizes; x_dims = fst a; x = snd a
      in if x_dims = dims then Inr x
         else case torch_permute x (map (\<lambda>d. pos_of d x_dims) (filter (\<lambda>d. d \<in> set x_dims) dims)) of
                Inl e \<Rightarrow> Inl e
              | Inr p \<Rightarrow>
                  (case torch_reshape p (map (\<lambda>dn. if fst dn \<in> set x_dims then snd dn else 1) sizes) of
                     Inl e \<Rightarrow> Inl e
                   | Inr r \<Rightarrow> if length (shape r) = length dims then Inr r else Inl AssertionError))"

fun align_all :: "(string \<times> nat) list \<Rightarrow> (string list \<times> int torch) list \<Rightarrow> error + int torch list" where
  "align_all sizes [] = Inr []"
| "align_all sizes (a # args) =
     (case align_one sizes a of
        Inl e \<Rightarrow> Inl e
      | Inr x \<Rightarrow> (case align_all sizes args of Inl e \<Rightarrow> Inl e | Inr xs \<Rightarrow> Inr (x # xs)))"

definition align_tensors :: "(string list \<times> int torch) list \<Rightarrow> error + (string list \<times> int torch list)" where
  "align_tensors args =
     (case align_sizes args [] of
        Inl e \<Rightarrow> Inl e
      | Inr sizes \<Rightarrow>
          (case align_all sizes args of Inl e \<Rightarrow> Inl e | Inr xs \<Rightarrow> Inr (map fst sizes, xs)))"

subsection \<open>Calling a funsor\<close>

text \<open>\<^verbatim>\<open>kwargs.update(pairs)\<close> on a dictionary.\<close>

definition dict_update :: "('k \<times> 'v) list \<Rightarrow> ('k \<times> 'v) list \<Rightarrow> ('k \<times> 'v) list" where
  "dict_update d pairs = foldl (\<lambda>d' kv. dict_set (fst kv) (snd kv) d') d pairs"

text \<open>
  \<^verbatim>\<open>Variable.__call__\<close>.  A number makes the method return without a value, which is
  \<^verbatim>\<open>None\<close>.
\<close>

definition call_Variable :: "string \<Rightarrow> domain \<Rightarrow> pyval list \<Rightarrow> (string \<times> pyval) list \<Rightarrow>
    registry \<Rightarrow> (error + pyval) \<times> registry" where
  "call_Variable name s args kwargs R =
     (case map_of (dict_update kwargs (zip [name] args)) name of
        None \<Rightarrow> (Inr (PFunsor (Variable name s)), R)
      | Some value \<Rightarrow>
          (case value of
             PEllipsis \<Rightarrow> (Inr (PFunsor (Variable name s)), R)
           | PStr v \<Rightarrow>
               (case var v s R of
                  (Inl e, R') \<Rightarrow> (Inl e, R')
                | (Inr obj, R') \<Rightarrow> (Inr (PFunsor (snd obj)), R'))
           | PInt n \<Rightarrow> (Inr PNone, R)
           | PFunsor g \<Rightarrow> (Inr (PFunsor g), R)
           | _ \<Rightarrow> (Inl (NotImplementedError ''TODO handle''), R)))"

text \<open>\<^verbatim>\<open>Function.__call__\<close>: partial application; the backing function is not run.\<close>

fun lookup_all :: "('k \<times> 'v) list \<Rightarrow> 'k list \<Rightarrow> error + 'v list" where
  "lookup_all d [] = Inr []"
| "lookup_all d (k # ks) =
     (case map_of d k of
        None \<Rightarrow> Inl KeyError
      | Some v \<Rightarrow> (case lookup_all d ks of Inl e \<Rightarrow> Inl e | Inr vs \<Rightarrow> Inr (v # vs)))"

definition call_Function :: "string list \<Rightarrow> domain list \<Rightarrow> closure \<Rightarrow> pyval list \<Rightarrow>
    (string \<times> pyval) list \<Rightarrow> error + pyval" where
  "call_Function dims sh fn args kwargs =
     (let kw = filter (\<lambda>kv. fst kv \<in> set dims) kwargs
      in if args = [] \<and> kw = [] then Inr (PFunsor (Function dims sh fn))
         else let dims' = filter (\<lambda>d. d \<notin> set (map fst kw)) (drop (length args) dims)
              in case lookup_all (schema (Function dims sh fn)) dims' of
                   Inl e \<Rightarrow> Inl e
                 | Inr sh' \<Rightarrow>
                     (case mk_Function dims' sh' (Partial fn args kw) of
                        Inl e \<Rightarrow> Inl e
                      | Inr f \<Rightarrow> Inr (PFunsor f)))"

text \<open>
  \<^verbatim>\<open>Tensor._substitute\<close>.  A slice that is not \<^verbatim>\<open>slice(None)\<close> becomes the Tensor of its
  range and falls through to the Tensor case.  The string case writes \<^verbatim>\<open>dim\<close>, the name
  the dimension has already, into the copy of the names.
\<close>

definition substitute_index :: "string list \<Rightarrow> int torch \<Rightarrow> string \<Rightarrow> pyval \<Rightarrow>
    string list \<Rightarrow> int torch \<Rightarrow> error + funsor" where
  "substitute_index dims x dim value vdims vdata =
     (let pos = pos_of dim dims
      in if \<exists>d\<in>set vdims. d \<noteq> dim \<and> d \<in> set dims then Inl (NotImplementedError ''TODO'')
         else case torch_gather x pos vdata of
                Inl e \<Rightarrow> Inl e
              | Inr y \<Rightarrow> mk_Tensor (take pos dims @ vdims @ drop (Suc pos) dims) (PTorch y))"

definition Tensor_substitute :: "string list \<Rightarrow> int torch \<Rightarrow> string \<Rightarrow> pyval \<Rightarrow> error + funsor" where
  "Tensor_substitute dims x dim value =
     (if dim \<notin> set dims then Inl (ValueError [])
      else
        let pos = pos_of dim dims
        in case value of
             PInt i \<Rightarrow>
               (case torch_select x pos i of
                  Inl e \<Rightarrow> Inl e
                | Inr y \<Rightarrow> mk_Tensor (take pos dims @ drop (Suc pos) dims) (PTorch y))
           | PSlice start stop step \<Rightarrow>
               if start = None \<and> stop = None \<and> step = None then Inr (Tensor dims x)
               else
                 let start' = (case start of None \<Rightarrow> 0 | Some a \<Rightarrow> a);
                     stop' = (case stop of None \<Rightarrow> int (shape x ! pos) | Some b \<Rightarrow> b);
                     step' = (case step of None \<Rightarrow> 1 | Some c \<Rightarrow> c)
                 in case arange start' stop' step' of
                      Inl e \<Rightarrow> Inl e
                    | Inr a \<Rightarrow>
                        (case mk_Tensor [dim] (PTorch a) of
                           Inl e \<Rightarrow> Inl e
                         | Inr v \<Rightarrow> substitute_index dims x dim value [dim] a)
           | PFunsor (Tensor vdims vdata) \<Rightarrow> substitute_index dims x dim value vdims vdata
           | PStr v \<Rightarrow>
               if dims ! pos = v then Inr (Tensor dims x)
               else mk_Tensor (dims[pos := dim]) (PTorch x)
           | _ \<Rightarrow> Inl (NotImplementedError ''TODO handle''))"

text \<open>
  \<^verbatim>\<open>Tensor.__call__\<close>: the handling of \<^verbatim>\<open>Ellipsis\<close>, then one substitution for every
  item of the dictionary, in its order.
\<close>

fun ellipsis_split :: "pyval list \<Rightarrow> (pyval list \<times> pyval list) option" where
  "ellipsis_split [] = None"
| "ellipsis_split (a # as) =
     (if a = PEllipsis then Some ([], as)
      else (case ellipsis_split as of None \<Rightarrow> None | Some (pre, post) \<Rightarrow> Some (a # pre, post)))"

fun substitute_all :: "funsor \<Rightarrow> (string \<times> pyval) list \<Rightarrow> error + funsor" where
  "substitute_all result [] = Inr result"
| "substitute_all result (kv # kvs) =
     (case result of
        Tensor dims x \<Rightarrow>
          (case Tensor_substitute dims x (fst kv) (snd kv) of
             Inl e \<Rightarrow> Inl e
           | Inr result' \<Rightarrow> substitute_all result' kvs)
      | _ \<Rightarrow> Inl TypeError)"

definition call_Tensor :: "string list \<Rightarrow> int torch \<Rightarrow> pyval list \<Rightarrow> (string \<times> pyval) list \<Rightarrow>
    error + pyval" where
  "call_Tensor dims x args kwargs =
     (let kw = filter (\<lambda>kv. fst kv \<in> set dims) kwargs;
          kw' = (case ellipsis_split args of
                   None \<Rightarrow> dict_update kw (zip dims args)
                 | Some (pre, post) \<Rightarrow>
                     dict_update (dict_update kw (zip (rev dims) (rev post))) (zip dims pre))
      in case substitute_all (Tensor dims x) kw' of
           Inl e \<Rightarrow> Inl e
         | Inr f \<Rightarrow> Inr (PFunsor f))"

text \<open>\<^verbatim>\<open>f(*args, **kwargs)\<close>, dispatched on the class of \<open>f\<close>.\<close>

fun funsor_call :: "funsor \<Rightarrow> pyval list \<Rightarrow> (string \<times> pyval) list \<Rightarrow> registry \<Rightarrow>
    (error + pyval) \<times> registry" where
  "funsor_call (Variable name s) args kwargs R = call_Variable name s args kwargs R"
| "funsor_call (Function dims sh fn) args kwargs R = (call_Function dims sh fn args kwargs, R)"
| "funsor_call (Tensor dims x) args kwargs R = (call_Tensor dims x args kwargs, R)"

subsection \<open>Applying an operator\<close>

definition is_unary :: "op \<Rightarrow> bool" where
  "is_unary o' \<longleftrightarrow> o' \<in> {Op_invert, Op_neg, Op_abs, Op_sqrt, Op_exp, Op_log, Op_log1p}"

text \<open>
  The placeholders raise whatever they are given: \<^verbatim>\<open>_logaddexp\<close> raises
  \<^verbatim>\<open>NotImplementedError\<close>, \<^verbatim>\<open>_marginal\<close> and \<^verbatim>\<open>_sample\<close> raise \<^verbatim>\<open>ValueError\<close>.
\<close>

definition placeholder :: "op \<Rightarrow> error option" where
  "placeholder o' =
     (if o' = Op_logaddexp then Some (NotImplementedError [])
      else if o' = Op_marginal \<or> o' = Op_sample then Some (ValueError [])
      else None)"

text \<open>
  \<open>op(x, other)\<close> for a built-in operator, an array \<open>x\<close> and an operand that is not a
  funsor: a number or another array.
\<close>

definition builtin_on_data :: "backend \<Rightarrow> op \<Rightarrow> int torch \<Rightarrow> pyval \<Rightarrow> error + pyval" where
  "builtin_on_data be o' x other =
     (case placeholder o' of
        Some e \<Rightarrow> Inl e
      | None \<Rightarrow>
          if is_unary o' then Inl TypeError
          else (case other of
                  PInt n \<Rightarrow> Inr (PTorch (torch_map (\<lambda>a. entry2 be o' a n) x))
                | PTorch y \<Rightarrow>
                    (case torch_map2 (entry2 be o') x y of
                       Inl e \<Rightarrow> Inl e
                     | Inr z \<Rightarrow> Inr (PTorch z))
                | _ \<Rightarrow> Inl TypeError))"

text \<open>
  \<open>op(x, other)\<close> and \<open>op(x)\<close> for any Python value \<open>op\<close> and an array \<open>x\<close>.  A funsor is
  callable, so \<open>op\<close> may be one.  \<open>PLam op other\<close> is built by \<^verbatim>\<open>pointwise_binary\<close> only,
  with an \<open>other\<close> that is not a funsor.
\<close>

definition call_on_data :: "backend \<Rightarrow> pyval \<Rightarrow> int torch \<Rightarrow> pyval \<Rightarrow> registry \<Rightarrow>
    (error + pyval) \<times> registry" where
  "call_on_data be op' x other R =
     (case op' of
        POp o' \<Rightarrow> (builtin_on_data be o' x other, R)
      | PFunsor g \<Rightarrow> funsor_call g [PTorch x, other] [] R
      | _ \<Rightarrow> (Inl TypeError, R))"

definition call_unary :: "backend \<Rightarrow> pyval \<Rightarrow> int torch \<Rightarrow> registry \<Rightarrow>
    (error + pyval) \<times> registry" where
  "call_unary be op' x R =
     (case op' of
        POp o' \<Rightarrow>
          (if is_unary o' then Inr (PTorch (torch_map (entry1 be o') x)) else Inl TypeError, R)
      | PLam p other \<Rightarrow> call_on_data be p x other R
      | PFunsor g \<Rightarrow> funsor_call g [PTorch x] [] R
      | _ \<Rightarrow> (Inl TypeError, R))"

subsection \<open>pointwise\_unary and pointwise\_binary\<close>

text \<open>
  \<^verbatim>\<open>Funsor.pointwise_unary\<close> and its overrides.  For \<^verbatim>\<open>_exp\<close> and \<^verbatim>\<open>_log\<close> a Variable
  asks for a \<^verbatim>\<open>TransformedVariable\<close>, a class without \<^verbatim>\<open>__call__\<close> that cannot be
  instantiated.
\<close>

definition pointwise_unary :: "backend \<Rightarrow> funsor \<Rightarrow> pyval \<Rightarrow> registry \<Rightarrow>
    (error + funsor) \<times> registry" where
  "pointwise_unary be self op' R =
     (case self of
        Variable name s \<Rightarrow>
          if op' = POp Op_exp \<or> op' = POp Op_log then (Inl TypeError, R)
          else (mk_Function (dims_of self) (shape_of self) (UnaryFn op' self), R)
      | Function dims sh fn \<Rightarrow> (mk_Function (dims_of self) (shape_of self) (UnaryFn op' self), R)
      | Tensor dims x \<Rightarrow>
          (case call_unary be op' x R of
             (Inl e, R') \<Rightarrow> (Inl e, R')
           | (Inr v, R') \<Rightarrow> (mk_Tensor dims v, R')))"

text \<open>
  \<^verbatim>\<open>Funsor.pointwise_binary(self, other, op)\<close>: an \<open>other\<close> that is not a funsor goes to
  \<^verbatim>\<open>pointwise_unary\<close>; equal names give a Function over them; otherwise the schemas are
  merged.
\<close>

definition Funsor_pointwise_binary :: "backend \<Rightarrow> funsor \<Rightarrow> pyval \<Rightarrow> pyval \<Rightarrow> registry \<Rightarrow>
    (error + funsor) \<times> registry" where
  "Funsor_pointwise_binary be self other op' R =
     (case other of
        PFunsor g \<Rightarrow>
          if dims_of self = dims_of g
          then (mk_Function (dims_of self) (shape_of self) (BinaryFn op' self g), R)
          else let sch = dict_update (schema self) (schema g)
               in (mk_Function (map fst sch) (map snd sch)
                     (BroadcastFn op' self g (map fst sch)), R)
      | _ \<Rightarrow> pointwise_unary be self (PLam op' other) R)"

text \<open>\<^verbatim>\<open>Tensor.pointwise_binary\<close> takes two Tensors itself and leaves the rest to the base.\<close>

definition pointwise_binary :: "backend \<Rightarrow> funsor \<Rightarrow> pyval \<Rightarrow> pyval \<Rightarrow> registry \<Rightarrow>
    (error + funsor) \<times> registry" where
  "pointwise_binary be self other op' R =
     (case (self, other) of
        (Tensor dims x, PFunsor (Tensor dims' y)) \<Rightarrow>
          if dims = dims'
          then (case call_on_data be op' x (PTorch y) R of
                  (Inl e, R') \<Rightarrow> (Inl e, R')
                | (Inr v, R') \<Rightarrow> (mk_Tensor dims v, R'))
          else (case align_tensors [(dims, x), (dims', y)] of
                  Inl e \<Rightarrow> (Inl e, R)
                | Inr (adims, xs) \<Rightarrow>
                    (case call_on_data be op' (xs ! 0) (PTorch (xs ! 1)) R of
                       (Inl e, R') \<Rightarrow> (Inl e, R')
                     | (Inr v, R') \<Rightarrow> (mk_Tensor adims v, R')))
      | _ \<Rightarrow> Funsor_pointwise_binary be self other op' R)"

subsection \<open>Applying an operator to the results of calls\<close>

text \<open>
  The method an operator of the module \<^verbatim>\<open>operator\<close> reaches on a funsor that is its
  right operand: \<^verbatim>\<open>__radd__\<close> and its like, and the reflected comparisons.
\<close>

definition reflected :: "op \<Rightarrow> op option" where
  "reflected o' =
     (if o' \<in> {Op_add, Op_mul, Op_and, Op_or, Op_eq, Op_ne, Op_min, Op_max} then Some o'
      else if o' = Op_sub then Some Op_rsub
      else if o' = Op_truediv then Some Op_rtruediv
      else if o' = Op_pow then Some Op_rpow
      else if o' = Op_lt then Some Op_gt
      else if o' = Op_gt then Some Op_lt
      else if o' = Op_le then Some Op_ge
      else if o' = Op_ge then Some Op_le
      else None)"

text \<open>\<open>op(a, b)\<close> for any two Python values, as \<^verbatim>\<open>functools.reduce\<close> calls it.\<close>

definition py_apply2 :: "backend \<Rightarrow> pyval \<Rightarrow> pyval \<Rightarrow> pyval \<Rightarrow> registry \<Rightarrow>
    (error + pyval) \<times> registry" where
  "py_apply2 be op' a b R =
     (case op' of
        POp o' \<Rightarrow>
          (case placeholder o' of
             Some e \<Rightarrow> (Inl e, R)
           | None \<Rightarrow>
               if is_unary o' then (Inl TypeError, R)
               else (case a of
                       PFunsor f \<Rightarrow>
                         (case pointwise_binary be f b op' R of
                            (Inl e, R') \<Rightarrow> (Inl e, R')
                          | (Inr r, R') \<Rightarrow> (Inr (PFunsor r), R'))
                     | PTorch x \<Rightarrow>
                         (case b of
                            PFunsor g \<Rightarrow> (Inl TypeError, R)
                          | _ \<Rightarrow> (builtin_on_data be o' x b, R))
                     | PInt m \<Rightarrow>
                         (case b of
                            PFunsor g \<Rightarrow>
                              (case reflected o' of
                                 None \<Rightarrow> (Inl TypeError, R)
                               | Some r' \<Rightarrow>
                                   (case pointwise_binary be g a (POp r') R of
                                      (Inl e, R') \<Rightarrow> (Inl e, R')
                                    | (Inr r, R') \<Rightarrow> (Inr (PFunsor r), R')))
                          | PInt n \<Rightarrow> (Inr (PInt (entry2 be o' m n)), R)
                          | PTorch y \<Rightarrow> (Inr (PTorch (torch_map (\<lambda>e. entry2 be o' m e) y)), R)
                          | _ \<Rightarrow> (Inl TypeError, R))
                     | _ \<Rightarrow> (Inl TypeError, R)))
      | PFunsor g \<Rightarrow> funsor_call g [a, b] [] R
      | _ \<Rightarrow> (Inl TypeError, R))"

subsection \<open>reduce and contract\<close>

text \<open>
  \<^verbatim>\<open>functools.reduce(op, (result(**{dim: i}) for i in range(size)))\<close>: the generator is
  consumed as the reduction goes, so the call for \<open>i\<close> comes after the application of
  \<open>op\<close> to the results before.
\<close>

fun fold_calls :: "backend \<Rightarrow> pyval \<Rightarrow> funsor \<Rightarrow> string \<Rightarrow> pyval \<Rightarrow> nat list \<Rightarrow> registry \<Rightarrow>
    (error + pyval) \<times> registry" where
  "fold_calls be op' r dim acc [] R = (Inr acc, R)"
| "fold_calls be op' r dim acc (i # is) R =
     (case funsor_call r [] [(dim, PInt (int i))] R of
        (Inl e, R') \<Rightarrow> (Inl e, R')
      | (Inr v, R') \<Rightarrow>
          (case py_apply2 be op' acc v R' of
             (Inl e, R'') \<Rightarrow> (Inl e, R'')
           | (Inr acc', R'') \<Rightarrow> fold_calls be op' r dim acc' is R''))"

definition reduce_calls :: "backend \<Rightarrow> pyval \<Rightarrow> funsor \<Rightarrow> string \<Rightarrow> nat \<Rightarrow> registry \<Rightarrow>
    (error + pyval) \<times> registry" where
  "reduce_calls be op' r dim n R =
     (if n = 0 then (Inl TypeError, R)
      else (case funsor_call r [] [(dim, PInt 0)] R of
              (Inl e, R') \<Rightarrow> (Inl e, R')
            | (Inr v, R') \<Rightarrow> fold_calls be op' r dim v [1..<n] R'))"

text \<open>
  The loop \<^verbatim>\<open>for dim in dims\<close> of \<^verbatim>\<open>Funsor.reduce\<close>.  \<^verbatim>\<open>result\<close> is whatever the
  reduction before returned; reading \<^verbatim>\<open>schema\<close> of a value that is not a funsor is an
  \<^verbatim>\<open>AttributeError\<close>, here \<open>TypeError\<close>.
\<close>

fun reduce_loop :: "backend \<Rightarrow> pyval \<Rightarrow> string list \<Rightarrow> pyval \<Rightarrow> registry \<Rightarrow>
    (error + pyval) \<times> registry" where
  "reduce_loop be op' [] result R = (Inr result, R)"
| "reduce_loop be op' (dim # dims) result R =
     (case result of
        PFunsor r \<Rightarrow>
          (case map_of (schema r) dim of
             None \<Rightarrow> (Inl KeyError, R)
           | Some (Named d) \<Rightarrow> (Inl (NotImplementedError ''cannot reduce dim''), R)
           | Some (Bint n) \<Rightarrow>
               (case reduce_calls be op' r dim n R of
                  (Inl e, R') \<Rightarrow> (Inl e, R')
                | (Inr v, R') \<Rightarrow> reduce_loop be op' dims v R'))
      | _ \<Rightarrow> (Inl TypeError, R))"

text \<open>
  \<^verbatim>\<open>frozenset(dims).intersection(self.dims)\<close>, or all the names when \<open>dims\<close> is
  \<^verbatim>\<open>None\<close>.  The set \<open>dims\<close> is given as the list of its elements in the order in which
  it is iterated; the theorems hold for every such list.
\<close>

definition reduce_dims :: "funsor \<Rightarrow> string list option \<Rightarrow> string list" where
  "reduce_dims self dims =
     (case dims of
        None \<Rightarrow> dims_of self
      | Some ds \<Rightarrow> filter (\<lambda>d. d \<in> set (dims_of self)) (remdups ds))"

definition Funsor_reduce :: "backend \<Rightarrow> funsor \<Rightarrow> pyval \<Rightarrow> string list option \<Rightarrow> registry \<Rightarrow>
    (error + pyval) \<times> registry" where
  "Funsor_reduce be self op' dims R = reduce_loop be op' (reduce_dims self dims) (PFunsor self) R"

text \<open>
  \<^verbatim>\<open>Tensor.reduce\<close>: for an operator of \<^verbatim>\<open>_REDUCE_OP_TO_TORCH\<close> the axes are reduced
  natively, from the last position to the first.
\<close>

definition in_table :: "pyval \<Rightarrow> op option" where
  "in_table op' =
     (case op' of
        POp o' \<Rightarrow>
          if o' \<in> {Op_add, Op_mul, Op_and, Op_or, Op_logaddexp, Op_min, Op_max} then Some o'
          else None
      | _ \<Rightarrow> None)"

fun reduce_axes :: "backend \<Rightarrow> op \<Rightarrow> int torch \<Rightarrow> nat list \<Rightarrow> error + int torch" where
  "reduce_axes be o' x [] = Inr x"
| "reduce_axes be o' x (pos # ps) =
     (case torch_reduce_axis be o' x pos of
        Inl e \<Rightarrow> Inl e
      | Inr y \<Rightarrow> reduce_axes be o' y ps)"

definition Tensor_reduce :: "backend \<Rightarrow> string list \<Rightarrow> int torch \<Rightarrow> pyval \<Rightarrow> string list option \<Rightarrow>
    registry \<Rightarrow> (error + pyval) \<times> registry" where
  "Tensor_reduce be dims x op' ds R =
     (case in_table op' of
        None \<Rightarrow> Funsor_reduce be (Tensor dims x) op' ds R
      | Some o' \<Rightarrow>
          (case ds of
             None \<Rightarrow>
               (case mk_Tensor [] (PTorch (torch_reduce_all be o' x)) of
                  Inl e \<Rightarrow> (Inl e, R)
                | Inr f \<Rightarrow> (Inr (PFunsor f), R))
           | Some l \<Rightarrow>
               if reduce_dims (Tensor dims x) ds = [] then (Inr (PFunsor (Tensor dims x)), R)
               else (case reduce_axes be o' x
                            (rev (sort (map (\<lambda>d. pos_of d dims) (reduce_dims (Tensor dims x) ds)))) of
                       Inl e \<Rightarrow> (Inl e, R)
                     | Inr y \<Rightarrow>
                         (case mk_Tensor (filter (\<lambda>d. d \<notin> set l) dims) (PTorch y) of
                            Inl e \<Rightarrow> (Inl e, R)
                          | Inr f \<Rightarrow> (Inr (PFunsor f), R)))))"

text \<open>\<^verbatim>\<open>self.reduce(op, dims)\<close>, dispatched on the class of \<open>self\<close>.\<close>

definition reduce_method :: "backend \<Rightarrow> funsor \<Rightarrow> pyval \<Rightarrow> string list option \<Rightarrow> registry \<Rightarrow>
    (error + pyval) \<times> registry" where
  "reduce_method be self op' dims R =
     (case self of
        Tensor ds x \<Rightarrow> Tensor_reduce be ds x op' dims R
      | _ \<Rightarrow> Funsor_reduce be self op' dims R)"

text \<open>
  \<^verbatim>\<open>Funsor.contract(self, sum_op, prod_op, other, dims)\<close>.  The body is
  \<^verbatim>\<open>self.pointwise_binary(prod_op, other).reduce(sum_op, dims)\<close>: \<^verbatim>\<open>prod_op\<close> stands
  where \<^verbatim>\<open>pointwise_binary(self, other, op)\<close> takes \<open>other\<close>, and \<open>other\<close> where it
  takes \<open>op\<close>.
\<close>

definition contract :: "backend \<Rightarrow> funsor \<Rightarrow> pyval \<Rightarrow> pyval \<Rightarrow> pyval \<Rightarrow> string list option \<Rightarrow>
    registry \<Rightarrow> (error + pyval) \<times> registry" where
  "contract be self sum_op' prod_op' other dims R =
     (case pointwise_binary be self prod_op' other R of
        (Inl e, R') \<Rightarrow> (Inl e, R')
      | (Inr f, R') \<Rightarrow> reduce_method be f sum_op' dims R')"

text \<open>
  What the docstring of \<^verbatim>\<open>contract\<close> and the spec say it is: the binary product
  followed by the reduction, \<^verbatim>\<open>self.pointwise_binary(other, prod_op).reduce(sum_op, dims)\<close>.
\<close>

definition product_then_reduce :: "backend \<Rightarrow> funsor \<Rightarrow> pyval \<Rightarrow> pyval \<Rightarrow> pyval \<Rightarrow>
    string list option \<Rightarrow> registry \<Rightarrow> (error + pyval) \<times> registry" where
  "product_then_reduce be self sum_op' prod_op' other dims R =
     (case pointwise_binary be self other prod_op' R of
        (Inl e, R') \<Rightarrow> (Inl e, R')
      | (Inr f, R') \<Rightarrow> reduce_method be f sum_op' dims R')"

subsection \<open>The states of the registry and the invariant of funsors\<close>

text \<open>
  The registry is empty when the module is loaded.  After that only \<^verbatim>\<open>var\<close> writes to
  it and only the garbage collector removes from it.
\<close>

definition registry_empty :: registry where
  "registry_empty = \<lparr>VARIABLES = [], next_id = 0\<rparr>"

text \<open>
  The construction of any other object takes the next identity.
\<close>

definition allocate :: "registry \<Rightarrow> registry" where
  "allocate R = R\<lparr>next_id := Suc (next_id R)\<rparr>"

inductive reachable :: "registry \<Rightarrow> bool" where
  start: "reachable registry_empty"
| call: "reachable R \<Longrightarrow> reachable (snd (var name s R))"
| gc: "reachable R \<Longrightarrow> reachable (collect live R)"
| alloc: "reachable R \<Longrightarrow> reachable (allocate R)"

text \<open>
  What holds of every registry so reached: the keys are distinct, no two entries hold the
  same object, every object has an identity handed out before, every registered funsor
  has as many names as sizes and no name twice, and a key with an integer size holds the
  Tensor of \<^verbatim>\<open>torch.arange\<close>, which has accepted the size.
\<close>

definition registry_inv :: "registry \<Rightarrow> bool" where
  "registry_inv R \<longleftrightarrow>
     distinct (map fst (VARIABLES R)) \<and>
     distinct (map (\<lambda>kv. fst (snd kv)) (VARIABLES R)) \<and>
     (\<forall>name s i f. ((name, s), (i, f)) \<in> set (VARIABLES R) \<longrightarrow>
        i < next_id R \<and> funsor_ok f \<and>
        (\<forall>n. s = Bint n \<longrightarrow> f = Tensor [name] (arange_values 0 (int n) 1) \<and> int n < 2 ^ 63))"

text \<open>
  The invariant on Python values: a funsor among them has as many names as sizes and no
  name twice.  A result that is raised, and a value that is not a funsor, are not
  constrained.
\<close>

definition val_ok :: "pyval \<Rightarrow> bool" where
  "val_ok v = (case v of PFunsor f \<Rightarrow> funsor_ok f | _ \<Rightarrow> True)"

definition result_ok :: "(error + pyval) \<times> registry \<Rightarrow> bool" where
  "result_ok p \<longleftrightarrow>
     registry_inv (snd p) \<and> (case fst p of Inl e \<Rightarrow> True | Inr v \<Rightarrow> val_ok v)"

definition funsor_result_ok :: "(error + funsor) \<times> registry \<Rightarrow> bool" where
  "funsor_result_ok p \<longleftrightarrow>
     registry_inv (snd p) \<and> (case fst p of Inl e \<Rightarrow> True | Inr f \<Rightarrow> funsor_ok f)"

text \<open>
  A backend for the examples: the arithmetic operators on integers, and the batch
  reductions \<^verbatim>\<open>torch.sum\<close> and \<^verbatim>\<open>torch.prod\<close>.
\<close>

definition int_entry1 :: "op \<Rightarrow> int \<Rightarrow> int" where
  "int_entry1 o' a = (if o' = Op_neg then - a else if o' = Op_abs then \<bar>a\<bar> else a)"

definition int_entry2 :: "op \<Rightarrow> int \<Rightarrow> int \<Rightarrow> int" where
  "int_entry2 o' a b =
     (if o' = Op_add then a + b
      else if o' = Op_sub then a - b
      else if o' = Op_mul then a * b
      else if o' = Op_min then min a b
      else if o' = Op_max then max a b
      else 0)"

definition int_reduce :: "op \<Rightarrow> int list \<Rightarrow> int" where
  "int_reduce o' xs =
     (if o' = Op_add then sum_list xs else if o' = Op_mul then prod_list xs else 0)"

definition int_backend :: backend where
  "int_backend = \<lparr>entry1 = int_entry1, entry2 = int_entry2, reduce_entries = int_reduce\<rparr>"

text \<open>
  The shape \<^verbatim>\<open>tuple(self.schema[d] for d in dims)\<close> that \<^verbatim>\<open>Function.__call__\<close> computes
  when the one name \<open>dim\<close> is substituted.
\<close>

definition rest_shape :: "string list \<Rightarrow> domain list \<Rightarrow> string \<Rightarrow> domain list" where
  "rest_shape dims sh dim = map (\<lambda>k. the (map_of (zip dims sh) k)) (filter (\<lambda>x. x \<noteq> dim) dims)"


section \<open>Properties of funsor/sum\_product.py\<close>

subsection \<open>Slice\<close>

lemma upt_shift: "[0..<Suc n] = 0 # map Suc [0..<n]"
  by (simp add: upt_conv_Cons map_Suc_upt del: upt_Suc)

lemma arange_count_step:
  assumes "0 < step" and "start < stop"
  shows "nat ((stop - start + step - 1) div step) =
         Suc (nat ((stop - (start + step) + step - 1) div step))"
proof -
  have "(stop - start + step - 1) div step = (stop - (start + step) + step - 1) div step + 1"
  proof -
    have "stop - start + step - 1 = (stop - (start + step) + step - 1) + 1 * step"
      by simp
    then show ?thesis
      using assms(1) by (metis div_add_self2 less_numeral_extra(3) mult_1)
  qed
  moreover have "0 \<le> (stop - (start + step) + step - 1) div step"
    using assms by (simp add: pos_imp_zdiv_nonneg_iff)
  ultimately show ?thesis by simp
qed

lemma arange_count_empty:
  assumes "0 < step" and "\<not> start < stop"
  shows "nat ((stop - start + step - 1) div step) = 0"
proof -
  have "stop - start + step - 1 < step" using assms by simp
  then have "(stop - start + step - 1) div step \<le> 0"
    using assms(1) by (metis div_pos_neg_trivial div_pos_pos_trivial linorder_not_less
        order_refl zdiv_mono1 div_by_0 int_div_less_self less_le_not_le)
  then show ?thesis by simp
qed

lemma arange_enumerates:
  "0 < step \<Longrightarrow>
   map (\<lambda>i. start + int i * step) [0..<nat ((stop - start + step - 1) div step)] =
   py_range start stop step"
proof (induction start stop step rule: py_range.induct)
  case (1 start stop step)
  show ?case
  proof (cases "start < stop")
    case True
    have ih: "map (\<lambda>i. (start + step) + int i * step)
                [0..<nat ((stop - (start + step) + step - 1) div step)] =
              py_range (start + step) stop step"
      using "1.IH" "1.prems" True by simp
    have "map (\<lambda>i. start + int i * step) [0..<nat ((stop - start + step - 1) div step)] =
          start # map (\<lambda>i. (start + step) + int i * step)
                    [0..<nat ((stop - (start + step) + step - 1) div step)]"
      unfolding arange_count_step [OF "1.prems" True] upt_shift
      by (simp add: algebra_simps)
    then show ?thesis
      using ih True "1.prems" by (subst py_range.simps) simp
  next
    case False
    then show ?thesis
      using arange_count_empty [OF "1.prems" False] by (subst py_range.simps) simp
  qed
qed

lemma tolist_arange:
  "0 < step \<Longrightarrow> tolist (arange_values start stop step) = py_range start stop step"
  using arange_enumerates [of step start stop] by (simp add: tolist_def arange_values_def)

lemma arange_returns:
  "0 < step \<Longrightarrow> start \<le> stop \<Longrightarrow> int64 start \<Longrightarrow> int64 stop \<Longrightarrow> int64 step \<Longrightarrow>
   arange start stop step = Inr (arange_values start stop step)"
  by (simp add: arange_def)

lemma arange_raises:
  "0 < step \<Longrightarrow> stop < start \<or> \<not> (int64 start \<and> int64 stop \<and> int64 step) \<Longrightarrow>
   arange start stop step = Inl RuntimeError"
  by (auto simp: arange_def)

lemma Slice_make_range:
  assumes "0 < step" "start \<le> stop" "int64 start" "int64 stop" "int64 step"
  shows "\<exists>t. Slice_make name start stop step bound = Inr t \<and>
             range_tensor t name start stop step bound"
proof -
  have "shape (arange_values start stop step) = [length (tolist (arange_values start stop step))]"
    by (simp add: arange_values_def tolist_def)
  then show ?thesis
    using assms(1) arange_returns [OF assms]
    by (simp add: Slice_make_def range_tensor_def tolist_arange)
qed

lemma Slice_make_raises:
  assumes "0 < step" "stop < start \<or> \<not> (int64 start \<and> int64 stop \<and> int64 step)"
  shows "Slice_make name start stop step bound = Inl RuntimeError"
  using assms(1) arange_raises [OF assms] by (simp add: Slice_make_def)

lemma int64_small: "int64 0" "int64 1"
  by (simp_all add: int64_def)

text \<open>
  Claim C9, as the code has it.  \<open>Slice\<close> raises \<^verbatim>\<open>ValueError\<close> when it is given no
  argument or more than four, and when the step (the third argument) is not positive.
  With a positive step, with \<open>start \<le> stop\<close> and with integers of 64 bits it returns a
  Tensor over the single dimension \<open>name\<close> whose data enumerates
  \<^verbatim>\<open>range(start, stop, step)\<close> (start 0 and step 1 where they are not given) and
  whose dtype is the bound (the stop where no bound is given).  With a positive step and
  \<open>stop < start\<close>, or with an integer beyond 64 bits, \<^verbatim>\<open>torch.arange\<close> raises and so
  does \<open>Slice\<close>: \<^verbatim>\<open>RuntimeError\<close>.
\<close>

theorem Slice_range_or_error:
  "Slice name [] = Inl (ValueError []) \<and>
   (4 < length args \<longrightarrow> Slice name args = Inl (ValueError [])) \<and>
   (step \<le> 0 \<longrightarrow>
      Slice name [start, stop, step] = Inl (ValueError []) \<and>
      Slice name [start, stop, step, bound] = Inl (ValueError [])) \<and>
   (0 \<le> stop \<and> int64 stop \<longrightarrow>
      (\<exists>t. Slice name [stop] = Inr t \<and> range_tensor t name 0 stop 1 stop)) \<and>
   (start \<le> stop \<and> int64 start \<and> int64 stop \<longrightarrow>
      (\<exists>t. Slice name [start, stop] = Inr t \<and> range_tensor t name start stop 1 stop)) \<and>
   (0 < step \<and> start \<le> stop \<and> int64 start \<and> int64 stop \<and> int64 step \<longrightarrow>
      (\<exists>t. Slice name [start, stop, step] = Inr t \<and>
           range_tensor t name start stop step stop) \<and>
      (\<exists>t. Slice name [start, stop, step, bound] = Inr t \<and>
           range_tensor t name start stop step bound)) \<and>
   (stop < 0 \<or> \<not> int64 stop \<longrightarrow> Slice name [stop] = Inl RuntimeError) \<and>
   (stop < start \<or> \<not> (int64 start \<and> int64 stop) \<longrightarrow>
      Slice name [start, stop] = Inl RuntimeError) \<and>
   (0 < step \<and> (stop < start \<or> \<not> (int64 start \<and> int64 stop \<and> int64 step)) \<longrightarrow>
      Slice name [start, stop, step] = Inl RuntimeError \<and>
      Slice name [start, stop, step, bound] = Inl RuntimeError)"
proof -
  have many: "4 < length args \<Longrightarrow> Slice name args = Inl (ValueError [])"
    by (cases "(name, args)" rule: Slice.cases) auto
  have bad: "step \<le> 0 \<Longrightarrow> Slice_make name start stop step b = Inl (ValueError [])" for b
    by (simp add: Slice_make_def)
  have 1: "0 \<le> stop \<and> int64 stop \<longrightarrow>
      (\<exists>t. Slice name [stop] = Inr t \<and> range_tensor t name 0 stop 1 stop)"
    using Slice_make_range [of 1 0 stop name stop] by (simp add: int64_small)
  have 2: "start \<le> stop \<and> int64 start \<and> int64 stop \<longrightarrow>
      (\<exists>t. Slice name [start, stop] = Inr t \<and> range_tensor t name start stop 1 stop)"
    using Slice_make_range [of 1 start stop name stop] by (simp add: int64_small)
  have 3: "0 < step \<and> start \<le> stop \<and> int64 start \<and> int64 stop \<and> int64 step \<longrightarrow>
      (\<exists>t. Slice name [start, stop, step] = Inr t \<and>
           range_tensor t name start stop step stop) \<and>
      (\<exists>t. Slice name [start, stop, step, bound] = Inr t \<and>
           range_tensor t name start stop step bound)"
    using Slice_make_range [of step start stop name stop]
      Slice_make_range [of step start stop name bound] by simp
  have 4: "stop < 0 \<or> \<not> int64 stop \<longrightarrow> Slice name [stop] = Inl RuntimeError"
    using Slice_make_raises [of 1 stop 0 name stop] by (auto simp: int64_small)
  have 5: "stop < start \<or> \<not> (int64 start \<and> int64 stop) \<longrightarrow>
      Slice name [start, stop] = Inl RuntimeError"
    using Slice_make_raises [of 1 stop start name stop] by (auto simp: int64_small)
  have 6: "0 < step \<and> (stop < start \<or> \<not> (int64 start \<and> int64 stop \<and> int64 step)) \<longrightarrow>
      Slice name [start, stop, step] = Inl RuntimeError \<and>
      Slice name [start, stop, step, bound] = Inl RuntimeError"
    using Slice_make_raises [of step stop start name stop]
      Slice_make_raises [of step stop start name bound] by auto
  have 0: "Slice name [] = Inl (ValueError [])" by simp
  have 7: "step \<le> 0 \<longrightarrow>
      Slice name [start, stop, step] = Inl (ValueError []) \<and>
      Slice name [start, stop, step, bound] = Inl (ValueError [])"
    using bad by simp
  from 0 many 7 1 2 3 4 5 6 show ?thesis by blast
qed

theorem Slice_range_or_error_witness:
  "Slice ''time'' [] = Inl (ValueError []) \<and>
   Slice ''time'' [0, 1, 2, 3, 4] = Inl (ValueError []) \<and>
   Slice ''time'' [1, 4, 0] = Inl (ValueError []) \<and>
   Slice ''time'' [1, 4, - 1, 5] = Inl (ValueError []) \<and>
   (\<exists>t. Slice ''time'' [3] = Inr t \<and> tolist (data t) = [0, 1, 2] \<and> dtype t = DInt 3) \<and>
   (\<exists>t. Slice ''time'' [1, 4, 2, 5] = Inr t \<and> inputs t = [(''time'', 2)] \<and>
        tolist (data t) = [1, 3] \<and> dtype t = DInt 5) \<and>
   Slice ''time'' [- 3] = Inl RuntimeError \<and>
   Slice ''time'' [4, 1, 2, 5] = Inl RuntimeError \<and>
   Slice ''time'' [0, 9223372036854775808] = Inl RuntimeError"
proof -
  have r1: "py_range 0 3 1 = [0, 1, 2]" by (simp add: py_range.simps)
  have r2: "py_range 1 4 2 = [1, 3]" by (simp add: py_range.simps)
  note a = Slice_range_or_error
             [where name = "''time''" and args = "[0, 1, 2, 3, 4]" and step = 0
                and start = 1 and stop = 4 and bound = 5]
  note b = Slice_range_or_error
             [where name = "''time''" and args = "[]" and step = "- 1"
                and start = 1 and stop = 4 and bound = 5]
  note c = Slice_range_or_error
             [where name = "''time''" and args = "[]" and step = 2
                and start = 1 and stop = 4 and bound = 5]
  note d = Slice_range_or_error
             [where name = "''time''" and args = "[]" and step = 1
                and start = 0 and stop = 3 and bound = 3]
  note e = Slice_range_or_error
             [where name = "''time''" and args = "[]" and step = 1
                and start = 0 and stop = "- 3" and bound = 3]
  note f = Slice_range_or_error
             [where name = "''time''" and args = "[]" and step = 2
                and start = 4 and stop = 1 and bound = 5]
  note g = Slice_range_or_error
             [where name = "''time''" and args = "[]" and step = 1
                and start = 0 and stop = 9223372036854775808 and bound = 5]
  have 1: "Slice ''time'' [] = Inl (ValueError [])" using a by blast
  have 2: "Slice ''time'' [0, 1, 2, 3, 4] = Inl (ValueError [])" using a by simp
  have 3: "Slice ''time'' [1, 4, 0] = Inl (ValueError [])" using a by simp
  have 4: "Slice ''time'' [1, 4, - 1, 5] = Inl (ValueError [])" using b by simp
  have 5: "\<exists>t. Slice ''time'' [3] = Inr t \<and> tolist (data t) = [0, 1, 2] \<and> dtype t = DInt 3"
  proof -
    have "0 \<le> (3::int) \<and> int64 3" by (simp add: int64_def)
    with d obtain t where "Slice ''time'' [3] = Inr t" "range_tensor t ''time'' 0 3 1 3"
      by blast
    then show ?thesis unfolding range_tensor_def r1 by simp
  qed
  have 6: "\<exists>t. Slice ''time'' [1, 4, 2, 5] = Inr t \<and> inputs t = [(''time'', 2)] \<and>
        tolist (data t) = [1, 3] \<and> dtype t = DInt 5"
  proof -
    have "(0::int) < 2 \<and> (1::int) \<le> 4 \<and> int64 1 \<and> int64 4 \<and> int64 2" by (simp add: int64_def)
    with c obtain t where "Slice ''time'' [1, 4, 2, 5] = Inr t" "range_tensor t ''time'' 1 4 2 5"
      by blast
    then show ?thesis unfolding range_tensor_def r2 by simp
  qed
  have 7: "Slice ''time'' [- 3] = Inl RuntimeError" using e by simp
  have 8: "Slice ''time'' [4, 1, 2, 5] = Inl RuntimeError" using f by simp
  have 9: "Slice ''time'' [0, 9223372036854775808] = Inl RuntimeError"
    using g by (simp add: int64_def)
  show ?thesis using 1 2 3 4 5 6 7 8 9 by blast
qed

text \<open>
  Claim C9, as the spec states it, fails.  \<^verbatim>\<open>Slice('time', 5, 2)\<close> has two arguments
  and the step 1, and \<^verbatim>\<open>range(5, 2)\<close> is empty; but \<^verbatim>\<open>torch.arange(5, 2, 1)\<close> raises
  \<^verbatim>\<open>RuntimeError\<close>, and no Tensor is returned.
\<close>

theorem Slice_descending_counterexample:
  "Slice ''time'' [5, 2] = Inl RuntimeError"
  by (simp add: Slice_make_def arange_def int64_def)

subsection \<open>The choice of the bucket\<close>

lemma py_max_by_first:
  "\<exists>pre post. best # xs = pre @ py_max_by key best xs # post \<and>
      (\<forall>x\<in>set pre. key x < key (py_max_by key best xs)) \<and>
      (\<forall>x\<in>set post. key x \<le> key (py_max_by key best xs))"
proof (induction xs arbitrary: best)
  case Nil
  have "[best] = [] @ py_max_by key best [] # []" by simp
  then show ?case by force
next
  case (Cons x xs)
  show ?case
  proof (cases "key best < key x")
    case True
    then have m: "py_max_by key best (x # xs) = py_max_by key x xs" by simp
    from Cons.IH [of x] obtain pre post where
      d: "x # xs = pre @ py_max_by key x xs # post"
      and lt: "\<forall>y\<in>set pre. key y < key (py_max_by key x xs)"
      and le: "\<forall>y\<in>set post. key y \<le> key (py_max_by key x xs)" by blast
    have "x \<in> set (pre @ py_max_by key x xs # post)" using d by (metis list.set_intros(1))
    then have "key x \<le> key (py_max_by key x xs)"
      using lt le by (auto simp: less_imp_le)
    with True have b: "key best < key (py_max_by key x xs)" by simp
    have e: "best # x # xs = (best # pre) @ py_max_by key best (x # xs) # post"
      unfolding m using d by simp
    have l: "\<forall>y\<in>set (best # pre). key y < key (py_max_by key best (x # xs))"
      unfolding m using lt b by simp
    have g: "\<forall>y\<in>set post. key y \<le> key (py_max_by key best (x # xs))"
      unfolding m using le by simp
    show ?thesis using e l g by blast
  next
    case False
    then have m: "py_max_by key best (x # xs) = py_max_by key best xs" by simp
    from Cons.IH [of best] obtain pre post where
      d: "best # xs = pre @ py_max_by key best xs # post"
      and lt: "\<forall>y\<in>set pre. key y < key (py_max_by key best xs)"
      and le: "\<forall>y\<in>set post. key y \<le> key (py_max_by key best xs)" by blast
    show ?thesis
    proof (cases pre)
      case Nil
      with d have "best # xs = py_max_by key best xs # post" by (simp only: append_Nil)
      then have mb: "py_max_by key best xs = best" and p: "post = xs"
        by (metis list.inject)+
      have e: "best # x # xs = [] @ py_max_by key best (x # xs) # (x # xs)"
        unfolding m mb by simp
      have g: "\<forall>y\<in>set (x # xs). key y \<le> key (py_max_by key best (x # xs))"
        unfolding m using False le mb p by auto
      have l: "\<forall>y\<in>set []. key y < key (py_max_by key best (x # xs))" by simp
      show ?thesis using e l g by blast
    next
      case (Cons b pre')
      with d have "best # xs = b # pre' @ py_max_by key best xs # post"
        by (simp only: append_Cons)
      then have b: "b = best" and xs: "xs = pre' @ py_max_by key best xs # post"
        by (metis list.inject)+
      have kb: "key best < key (py_max_by key best xs)" using lt Cons b by simp
      have e: "best # x # xs = (best # x # pre') @ py_max_by key best (x # xs) # post"
        unfolding m using xs by simp
      have l: "\<forall>y\<in>set (best # x # pre'). key y < key (py_max_by key best (x # xs))"
        unfolding m using lt Cons b kb False by auto
      have g: "\<forall>y\<in>set post. key y \<le> key (py_max_by key best (x # xs))"
        unfolding m using le by simp
      show ?thesis using e l g by blast
    qed
  qed
qed

lemma dict_pop_key:
  "k \<in> set (map fst d) \<Longrightarrow> \<exists>v d'. dict_pop k d = Some (v, d')"
  by (induction d) force+

text \<open>
  Claim C3, as the code has it.  In every round of the main loop the dictionary of
  buckets is not empty, and the bucket taken is the one of \<open>choose_leaf\<close>: it is a key
  of the dictionary, every key inserted before it has strictly fewer plate names and
  no key inserted after it has more.  So the bucket chosen is the one whose ordinal is
  largest, the first inserted among equals; the number of its factors plays no part.
\<close>

theorem choose_leaf_first_largest:
  "otf \<noteq> [] \<Longrightarrow>
   (\<exists>pre post. map fst otf = pre @ choose_leaf otf # post \<and>
      (\<forall>k\<in>set pre. card k < card (choose_leaf otf)) \<and>
      (\<forall>k\<in>set post. card k \<le> card (choose_leaf otf))) \<and>
   (\<exists>fs otf'. dict_pop (choose_leaf otf) otf = Some (fs, otf'))"
proof -
  assume ne: "otf \<noteq> []"
  have first: "\<exists>pre post. map fst otf = pre @ choose_leaf otf # post \<and>
      (\<forall>k\<in>set pre. card k < card (choose_leaf otf)) \<and>
      (\<forall>k\<in>set post. card k \<le> card (choose_leaf otf))"
    using py_max_by_first [of "fst (hd otf)" "map fst (tl otf)" card] ne
    by (cases otf) (auto simp: choose_leaf_def)
  then have "choose_leaf otf \<in> set (map fst otf)"
    by (metis in_set_conv_decomp)
  then show ?thesis
    using first dict_pop_key by fast
qed

theorem choose_leaf_first_largest_witness:
  "(\<exists>pre post. [{}, {''p''}, {''q''}] =
        pre @ choose_leaf [({}, [1::nat, 2]), ({''p''}, [3]), ({''q''}, [])] # post \<and>
      (\<forall>k\<in>set pre. card k < card (choose_leaf [({}, [1::nat, 2]), ({''p''}, [3]), ({''q''}, [])])) \<and>
      (\<forall>k\<in>set post. card k \<le> card (choose_leaf [({}, [1::nat, 2]), ({''p''}, [3]), ({''q''}, [])]))) \<and>
   (\<exists>fs otf'. dict_pop (choose_leaf [({}, [1::nat, 2]), ({''p''}, [3]), ({''q''}, [])])
        [({}, [1::nat, 2]), ({''p''}, [3]), ({''q''}, [])] = Some (fs, otf'))"
  using choose_leaf_first_largest [of "[({}, [1::nat, 2]), ({''p''}, [3]), ({''q''}, [])]"]
  by simp

text \<open>
  Claim C3, as the spec states it, fails.  With the plate \<open>p\<close> and three factors, two of
  them outside the plate, the first loop of \<open>partial_sum_product\<close> builds the bucket of
  the empty ordinal with two factors and the bucket of \<open>{p}\<close> with one, and the bucket
  chosen is the one of \<open>{p}\<close>.
\<close>

theorem choose_leaf_most_factors_counterexample:
  "\<not> most_factors
        (fst (psp_init lazy_api [Leaf ''f1'' [], Leaf ''f2'' [], Leaf ''f3'' [''p'']] {''p''} {''p''}))
        (choose_leaf
          (fst (psp_init lazy_api [Leaf ''f1'' [], Leaf ''f2'' [], Leaf ''f3'' [''p'']] {''p''} {''p''})))"
  by (simp add: psp_init_def lazy_api_def choose_leaf_def most_factors_def)

subsection \<open>sum\_product\<close>

lemma psp_empty: "partial_sum_product a s p [] elim pl = Some (Inr [])"
  by (simp add: partial_sum_product_def psp_init_def psp_loop.simps)

lemma fold_err_total:
  "(\<And>x y. f x y = Inr (g x y)) \<Longrightarrow> fold_err f a xs = Inr (foldl g a xs)"
  by (induction xs arbitrary: a) simp_all

lemma psp_one:
  "partial_sum_product lazy_api ''add'' ''mul'' [Leaf ''f'' [''x'']] {''x''} {} =
     Some (Inr [Reduce ''mul'' (Reduce ''add'' (Leaf ''f'' [''x'']) {''x''}) {}])"
  by (simp add: partial_sum_product_def psp_init_def psp_env_of_def psp_loop.simps psp_step_def
      choose_leaf_def lazy_api_def ordinal_to_vars_def partition_py_def neighbors_of_def
      partition_loop.simps component_loop.simps process_group_def contract_group_def
      remaining_sum_vars_def sum_vars_def)

lemma psp_numbers:
  "partial_sum_product number_api ''add'' ''mul'' [2, 3] {} {} = Some (Inr [3, 2])"
  by (simp add: partial_sum_product_def psp_init_def psp_env_of_def psp_loop.simps psp_step_def
      choose_leaf_def number_api_def ordinal_to_vars_def partition_py_def neighbors_of_def
      partition_loop.simps component_loop.simps process_group_def contract_group_def
      remaining_sum_vars_def sum_vars_def)

text \<open>
  Claim C5, as the code has it.  The seed is \<^verbatim>\<open>Number(UNITS[prod_op])\<close>, looked up after
  \<open>partial_sum_product\<close> has returned.
  \<^item> When \<open>UNITS\<close> has the entry \<open>u\<close> for \<open>prod_op\<close>, \<open>sum_product\<close> of no factors returns
    the constant funsor \<open>Number u\<close>; when it has none, \<open>sum_product\<close> of no factors raises
    \<^verbatim>\<open>KeyError\<close>.
  \<^item> Whenever \<open>partial_sum_product\<close> returns \<open>results\<close> and \<open>UNITS\<close> has the entry \<open>u\<close>,
    \<open>sum_product\<close> is the reduction of \<open>results\<close> by \<open>prod_op\<close> that starts from
    \<open>Number u\<close>, which is the left fold when \<open>prod_op\<close> does not raise.
  \<^item> When moreover \<open>Number u\<close> is an identity of \<open>prod_op\<close> on the first result, the seed
    does not show: \<open>sum_product\<close> is the product of the results alone,
    \<^verbatim>\<open>reduce(prod_op, results)\<close>.
  \<^item> Whenever \<open>partial_sum_product\<close> returns and \<open>UNITS\<close> has no entry for \<open>prod_op\<close>,
    \<open>sum_product\<close> raises \<^verbatim>\<open>KeyError\<close>; and what \<open>partial_sum_product\<close> raises,
    \<open>sum_product\<close> raises.
\<close>

theorem sum_product_seeds_with_unit:
  "(UNITS a p = Some u \<longrightarrow> sum_product a s p [] elim pl = Some (Inr (Number a u))) \<and>
   (UNITS a p = None \<longrightarrow> sum_product a s p [] elim pl = Some (Inl KeyError)) \<and>
   (partial_sum_product a s p factors elim pl = Some (Inr results) \<and> UNITS a p = Some u \<longrightarrow>
      sum_product a s p factors elim pl = Some (fold_err (apply_op a p) (Number a u) results)) \<and>
   (partial_sum_product a s p factors elim pl = Some (Inr results) \<and> UNITS a p = Some u \<and>
    (\<forall>x y. apply_op a p x y = Inr (mul x y)) \<longrightarrow>
      sum_product a s p factors elim pl = Some (Inr (foldl mul (Number a u) results))) \<and>
   (partial_sum_product a s p factors elim pl = Some (Inr (r # rs)) \<and> UNITS a p = Some u \<and>
    apply_op a p (Number a u) r = Inr r \<longrightarrow>
      sum_product a s p factors elim pl = Some (py_reduce (apply_op a p) (r # rs))) \<and>
   (partial_sum_product a s p factors elim pl = Some (Inr results) \<and> UNITS a p = None \<longrightarrow>
      sum_product a s p factors elim pl = Some (Inl KeyError)) \<and>
   (partial_sum_product a s p factors elim pl = Some (Inl e) \<longrightarrow>
      sum_product a s p factors elim pl = Some (Inl e))"
proof -
  have 1: "UNITS a p = Some u \<longrightarrow> sum_product a s p [] elim pl = Some (Inr (Number a u))"
    by (simp add: sum_product_def psp_empty)
  have 2: "UNITS a p = None \<longrightarrow> sum_product a s p [] elim pl = Some (Inl KeyError)"
    by (simp add: sum_product_def psp_empty)
  have 3: "partial_sum_product a s p factors elim pl = Some (Inr results) \<and> UNITS a p = Some u \<longrightarrow>
      sum_product a s p factors elim pl = Some (fold_err (apply_op a p) (Number a u) results)"
    by (simp add: sum_product_def)
  have 4: "partial_sum_product a s p factors elim pl = Some (Inr results) \<and> UNITS a p = Some u \<and>
    (\<forall>x y. apply_op a p x y = Inr (mul x y)) \<longrightarrow>
      sum_product a s p factors elim pl = Some (Inr (foldl mul (Number a u) results))"
    using fold_err_total [of "apply_op a p" mul "Number a u" results]
    by (simp add: sum_product_def)
  have 5: "partial_sum_product a s p factors elim pl = Some (Inr (r # rs)) \<and> UNITS a p = Some u \<and>
    apply_op a p (Number a u) r = Inr r \<longrightarrow>
      sum_product a s p factors elim pl = Some (py_reduce (apply_op a p) (r # rs))"
    by (simp add: sum_product_def)
  have 6: "partial_sum_product a s p factors elim pl = Some (Inr results) \<and> UNITS a p = None \<longrightarrow>
      sum_product a s p factors elim pl = Some (Inl KeyError)"
    by (simp add: sum_product_def)
  have 7: "partial_sum_product a s p factors elim pl = Some (Inl e) \<longrightarrow>
      sum_product a s p factors elim pl = Some (Inl e)"
    by (simp add: sum_product_def)
  show ?thesis by (intro conjI) (fact 1 2 3 4 5 6 7)+
qed

theorem sum_product_seeds_with_unit_witness:
  "sum_product lazy_api ''add'' ''mul'' [] {''x''} {} = Some (Inr (Const 1)) \<and>
   sum_product lazy_api ''add'' ''mul'' [Leaf ''f'' [''x'']] {''x''} {} =
     Some (Inr (Binary ''mul'' (Const 1)
                 (Reduce ''mul'' (Reduce ''add'' (Leaf ''f'' [''x'']) {''x''}) {}))) \<and>
   sum_product number_api ''add'' ''mul'' [] {} {} = Some (Inr 1) \<and>
   sum_product number_api ''add'' ''mul'' [2, 3] {} {} = Some (Inr 6) \<and>
   sum_product number_api ''add'' ''max'' [2, 3] {} {} = Some (Inl KeyError)"
proof -
  have u: "UNITS lazy_api ''mul'' = Some 1" by (simp add: lazy_api_def)
  have t: "\<forall>x y. apply_op lazy_api ''mul'' x y = Inr (Binary ''mul'' x y)"
    by (simp add: lazy_api_def)
  have n: "Number lazy_api 1 = Const 1" by (simp add: lazy_api_def)
  note lazy = sum_product_seeds_with_unit [where a = lazy_api and p = "''mul''" and u = 1
        and s = "''add''" and elim = "{''x''}" and pl = "{}" and factors = "[Leaf ''f'' [''x'']]"
        and results = "[Reduce ''mul'' (Reduce ''add'' (Leaf ''f'' [''x'']) {''x''}) {}]"
        and mul = "Binary ''mul''"]
  have 1: "sum_product lazy_api ''add'' ''mul'' [] {''x''} {} = Some (Inr (Const 1))"
    using lazy [THEN conjunct1] u by (simp add: n)
  have 2: "sum_product lazy_api ''add'' ''mul'' [Leaf ''f'' [''x'']] {''x''} {} =
     Some (Inr (Binary ''mul'' (Const 1)
                 (Reduce ''mul'' (Reduce ''add'' (Leaf ''f'' [''x'']) {''x''}) {})))"
    using lazy [THEN conjunct2, THEN conjunct2, THEN conjunct2, THEN conjunct1] u t psp_one
    by (simp add: n)
  have un: "UNITS number_api ''mul'' = Some 1" by (simp add: number_api_def)
  have idn: "apply_op number_api ''mul'' (Number number_api 1) 3 = Inr 3"
    by (simp add: number_api_def)
  note num = sum_product_seeds_with_unit [where a = number_api and p = "''mul''" and u = 1
        and s = "''add''" and elim = "{}" and pl = "{}" and factors = "[2, 3]"
        and r = 3 and rs = "[2]"]
  have 3: "sum_product number_api ''add'' ''mul'' [] {} {} = Some (Inr 1)"
    using num [THEN conjunct1] un by (simp add: number_api_def)
  have "sum_product number_api ''add'' ''mul'' [2, 3] {} {} =
      Some (py_reduce (apply_op number_api ''mul'') [3, 2])"
    using num [THEN conjunct2, THEN conjunct2, THEN conjunct2, THEN conjunct2, THEN conjunct1]
      psp_numbers un idn by simp
  then have 4: "sum_product number_api ''add'' ''mul'' [2, 3] {} {} = Some (Inr 6)"
    by (simp add: number_api_def)
  have none: "UNITS number_api ''max'' = None" by (simp add: number_api_def)
  have psp_max: "partial_sum_product number_api ''add'' ''max'' [2, 3] {} {} = Some (Inr [3, 2])"
    by (simp add: partial_sum_product_def psp_init_def psp_env_of_def psp_loop.simps psp_step_def
        choose_leaf_def number_api_def ordinal_to_vars_def partition_py_def neighbors_of_def
        partition_loop.simps component_loop.simps process_group_def contract_group_def
        remaining_sum_vars_def sum_vars_def)
  have 5: "sum_product number_api ''add'' ''max'' [2, 3] {} {} = Some (Inl KeyError)"
    using sum_product_seeds_with_unit [where a = number_api and p = "''max''"
        and s = "''add''" and elim = "{}" and pl = "{}" and factors = "[2, 3]"
        and results = "[3, 2]", THEN conjunct2, THEN conjunct2, THEN conjunct2, THEN conjunct2,
        THEN conjunct2, THEN conjunct1] psp_max none
    by simp
  show ?thesis using 1 2 3 4 5 by blast
qed

text \<open>
  Claim C5, as the spec states it, fails.  The claim is for every \<open>prod_op\<close>, and the seed
  is a lookup in a table: for an operator that the table does not hold, here \<open>foo\<close>,
  \<open>sum_product\<close> of no factors raises \<^verbatim>\<open>KeyError\<close> and returns no identity element.
\<close>

theorem sum_product_unknown_op_counterexample:
  "sum_product lazy_api ''add'' ''foo'' [] {} {} = Some (Inl KeyError)"
  by (simp add: sum_product_def partial_sum_product_def psp_init_def psp_loop.simps lazy_api_def)

subsection \<open>The intractable case\<close>

lemma psp_loop_rounds:
  "psp_rounds env k st0 = Some st \<Longrightarrow> psp_loop env st0 = psp_loop env st"
proof (induction k arbitrary: st0)
  case 0
  then show ?case by simp
next
  case (Suc k)
  then show ?case
    by (subst psp_loop.simps) (auto split: if_splits sum.splits)
qed

lemma fold_err_append:
  "fold_err f a (xs @ ys) = (case fold_err f a xs of Inl e \<Rightarrow> Inl e | Inr a' \<Rightarrow> fold_err f a' ys)"
  by (induction xs arbitrary: a) (auto split: sum.splits)


text \<open>
  Claim C4.  Take any run of \<open>partial_sum_product\<close> that, after \<open>k\<close> rounds of the
  main loop, processes the bucket \<open>leaf\<close> and reaches a component \<open>g\<close> of its
  partition (the components before it having been processed) whose contraction \<open>f\<close>
  still has sum variables and whose recomputed ordinal is \<open>leaf\<close> again.  Then the
  whole call raises \<^verbatim>\<open>ValueError("intractable!")\<close>: it returns, it returns no
  results, and it does not loop.
\<close>

theorem intractable_raises:
  assumes rounds: "psp_rounds (psp_env_of a s p factors elim pl) k (psp_init a factors elim pl) = Some st"
    and nonempty: "fst st \<noteq> []"
    and pop: "dict_pop (choose_leaf (fst st)) (fst st) = Some (leaf_factors, otf)"
    and groups: "partition_py a leaf_factors
                   (ordinal_to_vars (var_to_ordinal (psp_env_of a s p factors elim pl))
                      (choose_leaf (fst st))) = Inr (pre @ g # post)"
    and before: "fold_err (\<lambda>s' g'. process_group (psp_env_of a s p factors elim pl)
                     (choose_leaf (fst st)) g' s') (otf, snd st) pre = Inr st1"
    and residual: "contract_group (psp_env_of a s p factors elim pl) g = Inr f"
    and remaining: "remaining_sum_vars (psp_env_of a s p factors elim pl) f \<noteq> []"
    and same: "new_plates_of (var_to_ordinal (psp_env_of a s p factors elim pl))
                 (remaining_sum_vars (psp_env_of a s p factors elim pl) f) =
               Inr (choose_leaf (fst st))"
  shows "partial_sum_product a s p factors elim pl = Some (Inl (ValueError ''intractable!''))"
proof -
  let ?env = "psp_env_of a s p factors elim pl"
  have g: "process_group ?env (choose_leaf (fst st)) g st1 = Inl (ValueError ''intractable!'')"
    using residual remaining same by (simp add: process_group_def)
  have api: "api ?env = a" by (simp add: psp_env_of_def)
  have "psp_step ?env st = Inl (ValueError ''intractable!'')"
    using pop groups before g
    by (simp add: psp_step_def Let_def api fold_err_append)
  then have "psp_loop ?env st = Some (Inl (ValueError ''intractable!''))"
    using nonempty by (subst psp_loop.simps) simp
  then show ?thesis
    using psp_loop_rounds [OF rounds] by (simp add: partial_sum_product_def)
qed

lemma ab: "{''a'', ''b''} \<inter> {''a''} = {''a''}" "{''a'', ''b''} \<inter> {''b''} = {''b''}"
   "{''a'', ''b''} \<noteq> {''a''}" "{''a'', ''b''} \<noteq> {''b''}"  "{''a''} \<noteq> {''a'', ''b''}" "{''b''} \<noteq> {''a'', ''b''}"
   "{''a''} \<noteq> {''b''}"
  by auto

lemma env_w: "psp_env_of lazy_api ''add'' ''mul'' [Leaf ''f'' [''x'', ''y'', ''a'', ''b''], Leaf ''g'' [''x'', ''a''], Leaf ''h'' [''y'', ''b'']]
   {''x'', ''y'', ''a'', ''b''} {''a'', ''b''} =
   \<lparr>api = lazy_api, sum_op = ''add'', prod_op = ''mul'', eliminate = {''x'', ''y'', ''a'', ''b''},
     plates = {''a'', ''b''}, var_to_ordinal = [(''x'', {''a''}), (''y'', {''b''})]\<rparr>"
  by (simp add: psp_env_of_def lazy_api_def ab Let_def)

lemma init_w: "psp_init lazy_api [Leaf ''f'' [''x'', ''y'', ''a'', ''b''], Leaf ''g'' [''x'', ''a''], Leaf ''h'' [''y'', ''b'']]
   {''x'', ''y'', ''a'', ''b''} {''a'', ''b''} =
   ([({''a'', ''b''}, [Leaf ''f'' [''x'', ''y'', ''a'', ''b'']]), ({''a''}, [Leaf ''g'' [''x'', ''a'']]),
     ({''b''}, [Leaf ''h'' [''y'', ''b'']])], [])"
  by (simp add: psp_init_def lazy_api_def ab Let_def)

lemma leaf_w: "choose_leaf [({''a'', ''b''}, [Leaf ''f'' [''x'', ''y'', ''a'', ''b'']]), ({''a''}, [Leaf ''g'' [''x'', ''a'']]),
     ({''b''}, [Leaf ''h'' [''y'', ''b'']])] = {''a'', ''b''}"
  by (simp add: choose_leaf_def)

lemma part_w: "partition_py lazy_api [Leaf ''f'' [''x'', ''y'', ''a'', ''b'']]
    (ordinal_to_vars [(''x'', {''a''}), (''y'', {''b''})] {''a'', ''b''}) =
   Inr ([] @ ([Leaf ''f'' [''x'', ''y'', ''a'', ''b'']], {}) # [])"
  by (simp add: partition_py_def neighbors_of_def ordinal_to_vars_def lazy_api_def ab
      partition_loop.simps component_loop.simps)

theorem intractable_raises_witness:
  "partial_sum_product lazy_api ''add'' ''mul''
     [Leaf ''f'' [''x'', ''y'', ''a'', ''b''], Leaf ''g'' [''x'', ''a''], Leaf ''h'' [''y'', ''b'']]
     {''x'', ''y'', ''a'', ''b''} {''a'', ''b''} = Some (Inl (ValueError ''intractable!''))"
proof -
  let ?fs = "[Leaf ''f'' [''x'', ''y'', ''a'', ''b''], Leaf ''g'' [''x'', ''a''],
              Leaf ''h'' [''y'', ''b'']]"
  let ?env = "psp_env_of lazy_api ''add'' ''mul'' ?fs {''x'', ''y'', ''a'', ''b''} {''a'', ''b''}"
  let ?st = "psp_init lazy_api ?fs {''x'', ''y'', ''a'', ''b''} {''a'', ''b''}"
  let ?rest = "[({''a''}, [Leaf ''g'' [''x'', ''a'']]), ({''b''}, [Leaf ''h'' [''y'', ''b'']])]"
  let ?g = "([Leaf ''f'' [''x'', ''y'', ''a'', ''b'']], {}::string set)"
  let ?f = "Reduce ''add'' (Leaf ''f'' [''x'', ''y'', ''a'', ''b'']) {}"
  have leaf: "choose_leaf (fst ?st) = {''a'', ''b''}"
    by (simp add: init_w leaf_w)
  have 1: "psp_rounds ?env 0 ?st = Some ?st" by simp
  have 2: "fst ?st \<noteq> []" by (simp add: init_w)
  have 3: "dict_pop (choose_leaf (fst ?st)) (fst ?st) =
             Some ([Leaf ''f'' [''x'', ''y'', ''a'', ''b'']], ?rest)"
    unfolding leaf by (simp add: init_w)
  have 4: "partition_py lazy_api [Leaf ''f'' [''x'', ''y'', ''a'', ''b'']]
             (ordinal_to_vars (var_to_ordinal ?env) (choose_leaf (fst ?st))) = Inr ([] @ ?g # [])"
    unfolding leaf env_w using part_w by simp
  have 5: "fold_err (\<lambda>s' g'. process_group ?env (choose_leaf (fst ?st)) g' s') (?rest, snd ?st) [] =
             Inr (?rest, snd ?st)" by simp
  have 6: "contract_group ?env ?g = Inr ?f"
    unfolding env_w by (simp add: contract_group_def lazy_api_def)
  have r: "remaining_sum_vars ?env ?f = [''x'', ''y'']"
    unfolding env_w by (simp add: remaining_sum_vars_def sum_vars_def lazy_api_def)
  have 7: "remaining_sum_vars ?env ?f \<noteq> []" unfolding r by simp
  have 8: "new_plates_of (var_to_ordinal ?env) (remaining_sum_vars ?env ?f) =
             Inr (choose_leaf (fst ?st))"
    unfolding r leaf unfolding env_w by auto
  show ?thesis
    by (rule intractable_raises [OF 1 2 3 4 5 6 7 8])
qed


subsection \<open>The scan of sequential\_sum\_product\<close>

lemmas ssp_defs = ssp_round_def Tensor_call_def substitute_def binary_op_def reduce_dim_def
  Cat_def cat_align.simps align_expand_def torch_cat_def update_inputs_def names_def pos_of_def
  restrict_index_def Slice_make_def arange_def int64_def arange_values_def tolist_def Let_def

lemma sum_lt2: "(\<Sum>s<(2::nat). f s) = f 0 + (f 1 :: 'a::comm_monoid_add)"
  by (simp add: lessThan_Suc numeral_2_eq_2 add.commute)

lemma upt_small:
  "[0..<1] = [0]" "[0..<2] = [0, Suc 0]" "[Suc 0..<2] = [Suc 0]" "[0..<3] = [0, Suc 0, 2]"
  by (simp_all add: upt_rec)

lemma final_step:
  assumes "inputs r = [(''time'', 1), (''prev'', 2), (''curr'', 2)]"
  shows "\<exists>r'. sequential_sum_product f g r ''time'' ''prev'' ''curr'' = Some (Inr r') \<and>
       inputs r' = [(''prev'', 2), (''curr'', 2)] \<and>
       (\<forall>s0 s1. elems (data r') [s0, s1] = elems (data r) [0, s0, s1])"
  using assms by (subst sequential_sum_product.simps) (simp add: ssp_defs)

lemma round2:
  assumes "inputs r = [(''time'', 2), (''prev'', 2), (''curr'', 2)]" "shape (data r) = [2, 2, 2]"
  shows "\<exists>r'. ssp_round (+) (*) ''time'' ''prev'' ''curr'' r 2 = Inr r' \<and>
     inputs r' = [(''time'', 1), (''prev'', 2), (''curr'', 2)] \<and> shape (data r') = [1, 2, 2] \<and>
     (\<forall>s0 s1. elems (data r') [0, s0, s1] = pair_sum r 0 1 s0 s1)"
  using assms by (simp add: ssp_defs pair_sum_def sum_lt2 upt_small algebra_simps)

lemma round3:
  assumes "inputs r = [(''time'', 3), (''prev'', 2), (''curr'', 2)]" "shape (data r) = [3, 2, 2]"
  shows "\<exists>r'. ssp_round (+) (*) ''time'' ''prev'' ''curr'' r 3 = Inr r' \<and>
     inputs r' = [(''time'', 2), (''prev'', 2), (''curr'', 2)] \<and> shape (data r') = [2, 2, 2] \<and>
     (\<forall>s0 s1. elems (data r') [0, s0, s1] = pair_sum r 0 1 s0 s1 \<and>
              elems (data r') [1, s0, s1] = elems (data r) [2, s0, s1])"
  using assms by (simp add: ssp_defs pair_sum_def sum_lt2 upt_small algebra_simps)

lemma round4:
  assumes "inputs r = [(''time'', 4), (''prev'', 2), (''curr'', 2)]" "shape (data r) = [4, 2, 2]"
  shows "\<exists>r'. ssp_round (+) (*) ''time'' ''prev'' ''curr'' r 4 = Inr r' \<and>
     inputs r' = [(''time'', 2), (''prev'', 2), (''curr'', 2)] \<and> shape (data r') = [2, 2, 2] \<and>
     (\<forall>s0 s1. elems (data r') [0, s0, s1] = pair_sum r 0 1 s0 s1 \<and>
              elems (data r') [1, s0, s1] = pair_sum r 2 3 s0 s1)"
  using assms by (simp add: ssp_defs pair_sum_def sum_lt2 upt_small algebra_simps)

lemma round5:
  assumes "inputs r = [(''time'', 5), (''prev'', 2), (''curr'', 2)]" "shape (data r) = [5, 2, 2]"
  shows "\<exists>r'. ssp_round (+) (*) ''time'' ''prev'' ''curr'' r 5 = Inr r' \<and>
     inputs r' = [(''time'', 3), (''prev'', 2), (''curr'', 2)] \<and> shape (data r') = [3, 2, 2] \<and>
     (\<forall>s0 s1. elems (data r') [0, s0, s1] = pair_sum r 0 1 s0 s1 \<and>
              elems (data r') [1, s0, s1] = pair_sum r 2 3 s0 s1 \<and>
              elems (data r') [2, s0, s1] = elems (data r) [4, s0, s1])"
  using assms by (simp add: ssp_defs pair_sum_def sum_lt2 upt_small algebra_simps)


lemma loop_step:
  assumes "map_of (inputs r) time = Some n" "1 < n"
    and "ssp_round f g time prev curr' r n = Inr r'"
  shows "sequential_sum_product f g r time prev curr' = sequential_sum_product f g r' time prev curr'"
  using assms by (subst sequential_sum_product.simps) simp

lemma transition_facts:
  "inputs (transition T n) = [(''time'', n), (''prev'', 2), (''curr'', 2)]"
  "shape (data (transition T n)) = [n, 2, 2]"
  "elems (data (transition T n)) [t, p, c] = T t p c"
  by (simp_all add: transition_def)

lemma chain1: "chain_result (sequential_sum_product (+) (*) (transition T 1) ''time'' ''prev'' ''curr'') T 1"
proof -
  obtain r where r: "sequential_sum_product (+) (*) (transition T 1) ''time'' ''prev'' ''curr'' = Some (Inr r)"
      "inputs r = [(''prev'', 2), (''curr'', 2)]"
      "\<And>s0 s1. elems (data r) [s0, s1] = elems (data (transition T 1)) [0, s0, s1]"
    using final_step [OF transition_facts(1) [of T 1]] by blast
  show ?thesis
    unfolding chain_result_def using r by (simp add: transition_facts)
qed

lemma chain2: "chain_result (sequential_sum_product (+) (*) (transition T 2) ''time'' ''prev'' ''curr'') T 2"
proof -
  let ?t = "transition T 2"
  obtain r1 where r1: "ssp_round (+) (*) ''time'' ''prev'' ''curr'' ?t 2 = Inr r1"
      "inputs r1 = [(''time'', 1), (''prev'', 2), (''curr'', 2)]"
      "\<And>s0 s1. elems (data r1) [0, s0, s1] = pair_sum ?t 0 1 s0 s1"
    using round2 [OF transition_facts(1,2)] by blast
  obtain r where r: "sequential_sum_product (+) (*) r1 ''time'' ''prev'' ''curr'' = Some (Inr r)"
      "inputs r = [(''prev'', 2), (''curr'', 2)]"
      "\<And>s0 s1. elems (data r) [s0, s1] = elems (data r1) [0, s0, s1]"
    using final_step [OF r1(2)] by blast
  have "sequential_sum_product (+) (*) ?t ''time'' ''prev'' ''curr'' = Some (Inr r)"
    using loop_step [OF _ _ r1(1)] r(1) by (simp add: transition_facts)
  then show ?thesis
    unfolding chain_result_def using r(2,3) r1(3)
    by (simp add: pair_sum_def transition_facts sum_lt2)
qed

lemma chain5: "chain_result (sequential_sum_product (+) (*) (transition T 5) ''time'' ''prev'' ''curr'') T 5"
proof -
  let ?t = "transition T 5"
  obtain r1 where r1: "ssp_round (+) (*) ''time'' ''prev'' ''curr'' ?t 5 = Inr r1"
      "inputs r1 = [(''time'', 3), (''prev'', 2), (''curr'', 2)]" "shape (data r1) = [3, 2, 2]"
      "\<And>s0 s1. elems (data r1) [0, s0, s1] = pair_sum ?t 0 1 s0 s1"
      "\<And>s0 s1. elems (data r1) [1, s0, s1] = pair_sum ?t 2 3 s0 s1"
      "\<And>s0 s1. elems (data r1) [2, s0, s1] = elems (data ?t) [4, s0, s1]"
    using round5 [OF transition_facts(1,2)] by blast
  obtain r2 where r2: "ssp_round (+) (*) ''time'' ''prev'' ''curr'' r1 3 = Inr r2"
      "inputs r2 = [(''time'', 2), (''prev'', 2), (''curr'', 2)]" "shape (data r2) = [2, 2, 2]"
      "\<And>s0 s1. elems (data r2) [0, s0, s1] = pair_sum r1 0 1 s0 s1"
      "\<And>s0 s1. elems (data r2) [1, s0, s1] = elems (data r1) [2, s0, s1]"
    using round3 [OF r1(2,3)] by blast
  obtain r3 where r3: "ssp_round (+) (*) ''time'' ''prev'' ''curr'' r2 2 = Inr r3"
      "inputs r3 = [(''time'', 1), (''prev'', 2), (''curr'', 2)]"
      "\<And>s0 s1. elems (data r3) [0, s0, s1] = pair_sum r2 0 1 s0 s1"
    using round2 [OF r2(2,3)] by blast
  obtain r where r: "sequential_sum_product (+) (*) r3 ''time'' ''prev'' ''curr'' = Some (Inr r)"
      "inputs r = [(''prev'', 2), (''curr'', 2)]"
      "\<And>s0 s1. elems (data r) [s0, s1] = elems (data r3) [0, s0, s1]"
    using final_step [OF r3(2)] by blast
  have "sequential_sum_product (+) (*) ?t ''time'' ''prev'' ''curr'' = Some (Inr r)"
    using loop_step [OF _ _ r1(1)] loop_step [OF _ _ r2(1)] loop_step [OF _ _ r3(1)] r(1)
    by (simp add: transition_facts r1(2) r2(2))
  moreover have "elems (data r) [s0, sn] = chain_sum T 0 4 s0 sn" for s0 sn
    unfolding r(3) r3(3) pair_sum_def sum_lt2 r2(4,5) r1(4,5,6) transition_facts
    by (simp add: eval_nat_numeral sum_lt2 algebra_simps)
  ultimately show ?thesis
    unfolding chain_result_def using r(2) by simp
qed


lemma chain3: "chain_result (sequential_sum_product (+) (*) (transition T 3) ''time'' ''prev'' ''curr'') T 3"
proof -
  let ?t = "transition T 3"
  obtain r2 where r2: "ssp_round (+) (*) ''time'' ''prev'' ''curr'' ?t 3 = Inr r2"
      "inputs r2 = [(''time'', 2), (''prev'', 2), (''curr'', 2)]" "shape (data r2) = [2, 2, 2]"
      "\<And>s0 s1. elems (data r2) [0, s0, s1] = pair_sum ?t 0 1 s0 s1"
      "\<And>s0 s1. elems (data r2) [1, s0, s1] = elems (data ?t) [2, s0, s1]"
    using round3 [OF transition_facts(1,2)] by blast
  obtain r3 where r3: "ssp_round (+) (*) ''time'' ''prev'' ''curr'' r2 2 = Inr r3"
      "inputs r3 = [(''time'', 1), (''prev'', 2), (''curr'', 2)]"
      "\<And>s0 s1. elems (data r3) [0, s0, s1] = pair_sum r2 0 1 s0 s1"
    using round2 [OF r2(2,3)] by blast
  obtain r where r: "sequential_sum_product (+) (*) r3 ''time'' ''prev'' ''curr'' = Some (Inr r)"
      "inputs r = [(''prev'', 2), (''curr'', 2)]"
      "\<And>s0 s1. elems (data r) [s0, s1] = elems (data r3) [0, s0, s1]"
    using final_step [OF r3(2)] by blast
  have "sequential_sum_product (+) (*) ?t ''time'' ''prev'' ''curr'' = Some (Inr r)"
    using loop_step [OF _ _ r2(1)] loop_step [OF _ _ r3(1)] r(1)
    by (simp add: transition_facts r2(2))
  moreover have "elems (data r) [s0, sn] = chain_sum T 0 2 s0 sn" for s0 sn
    unfolding r(3) r3(3) pair_sum_def sum_lt2 r2(4,5) transition_facts
    by (simp add: eval_nat_numeral sum_lt2 algebra_simps)
  ultimately show ?thesis
    unfolding chain_result_def using r(2) by simp
qed

lemma chain4: "chain_result (sequential_sum_product (+) (*) (transition T 4) ''time'' ''prev'' ''curr'') T 4"
proof -
  let ?t = "transition T 4"
  obtain r2 where r2: "ssp_round (+) (*) ''time'' ''prev'' ''curr'' ?t 4 = Inr r2"
      "inputs r2 = [(''time'', 2), (''prev'', 2), (''curr'', 2)]" "shape (data r2) = [2, 2, 2]"
      "\<And>s0 s1. elems (data r2) [0, s0, s1] = pair_sum ?t 0 1 s0 s1"
      "\<And>s0 s1. elems (data r2) [1, s0, s1] = pair_sum ?t 2 3 s0 s1"
    using round4 [OF transition_facts(1,2)] by blast
  obtain r3 where r3: "ssp_round (+) (*) ''time'' ''prev'' ''curr'' r2 2 = Inr r3"
      "inputs r3 = [(''time'', 1), (''prev'', 2), (''curr'', 2)]"
      "\<And>s0 s1. elems (data r3) [0, s0, s1] = pair_sum r2 0 1 s0 s1"
    using round2 [OF r2(2,3)] by blast
  obtain r where r: "sequential_sum_product (+) (*) r3 ''time'' ''prev'' ''curr'' = Some (Inr r)"
      "inputs r = [(''prev'', 2), (''curr'', 2)]"
      "\<And>s0 s1. elems (data r) [s0, s1] = elems (data r3) [0, s0, s1]"
    using final_step [OF r3(2)] by blast
  have "sequential_sum_product (+) (*) ?t ''time'' ''prev'' ''curr'' = Some (Inr r)"
    using loop_step [OF _ _ r2(1)] loop_step [OF _ _ r3(1)] r(1)
    by (simp add: transition_facts r2(2))
  moreover have "elems (data r) [s0, sn] = chain_sum T 0 3 s0 sn" for s0 sn
    unfolding r(3) r3(3) pair_sum_def sum_lt2 r2(4,5) transition_facts
    by (simp add: eval_nat_numeral sum_lt2 algebra_simps)
  ultimately show ?thesis
    unfolding chain_result_def using r(2) by simp
qed

text \<open>
  Claim C6.  For the time sizes 1 to 5, with addition as \<open>sum_op\<close> and multiplication
  as \<open>prod_op\<close>, and for every two-state transition Tensor with entries
  \<open>T t prev curr\<close>, \<open>sequential_sum_product\<close> returns, and its result over \<open>prev\<close> and
  \<open>curr\<close> equals the explicit chain contraction at every pair of boundary states.  The
  sizes 3 and 5 go through \<open>Cat\<close>.  The entries are taken in any commutative semiring,
  so the arithmetic is exact.
\<close>

theorem sequential_sum_product_chain:
  "chain_result (sequential_sum_product (+) (*) (transition T 1) ''time'' ''prev'' ''curr'') T 1 \<and>
   chain_result (sequential_sum_product (+) (*) (transition T 2) ''time'' ''prev'' ''curr'') T 2 \<and>
   chain_result (sequential_sum_product (+) (*) (transition T 3) ''time'' ''prev'' ''curr'') T 3 \<and>
   chain_result (sequential_sum_product (+) (*) (transition T 4) ''time'' ''prev'' ''curr'') T 4 \<and>
   chain_result (sequential_sum_product (+) (*) (transition T 5) ''time'' ''prev'' ''curr'') T 5"
  using chain1 chain2 chain3 chain4 chain5 by blast

theorem sequential_sum_product_chain_witness:
  "\<exists>r. sequential_sum_product (+) (*) (transition (\<lambda>t p c. int (t + p + c)) 3)
          ''time'' ''prev'' ''curr'' = Some (Inr r) \<and>
       inputs r = [(''prev'', 2), (''curr'', 2)] \<and> elems (data r) [0, 1] = 18"
proof -
  have "chain_sum (\<lambda>t p c. int (t + p + c)) 0 2 0 1 = 18"
    by (simp add: eval_nat_numeral sum_lt2)
  then show ?thesis
    using sequential_sum_product_chain [of "\<lambda>t p c. int (t + p + c)"]
    unfolding chain_result_def by auto
qed

section \<open>Properties of funsor.py\<close>

subsection \<open>The registry of variables\<close>

lemma map_of_dict_set:
  "map_of (dict_set k v d) k' = (if k' = k then Some v else map_of d k')"
  by (induction d) auto

lemma set_dict_set_new:
  "map_of d k = None \<Longrightarrow> dict_set k v d = d @ [(k, v)]"
  by (induction d) (auto split: if_splits)

lemma mk_Tensor_arange:
  "mk_Tensor [name] (PTorch (arange_values 0 (int n) 1)) =
     Inr (Tensor [name] (arange_values 0 (int n) 1))"
  by (simp add: mk_Tensor_def Funsor_init_def arange_values_def)

lemma arange_size:
  "arange 0 (int n) 1 =
     (if int n < 2 ^ 63 then Inr (arange_values 0 (int n) 1) else Inl RuntimeError)"
  by (simp add: arange_def int64_def)

lemma var_hit:
  "map_of (VARIABLES R) (name, s) = Some obj \<Longrightarrow> var name s R = (Inr obj, R)"
  by (simp add: var_def)

lemma var_miss:
  assumes "map_of (VARIABLES R) (name, s) = None" "var name s R = (Inr obj, R1)"
  shows "fst obj = next_id R \<and>
         R1 = \<lparr>VARIABLES = dict_set (name, s) obj (VARIABLES R), next_id = Suc (next_id R)\<rparr>"
  using assms by (auto simp: var_def split: sum.splits domain.splits)

lemma var_result_registered:
  "var name s R = (Inr obj, R') \<Longrightarrow> map_of (VARIABLES R') (name, s) = Some obj"
  by (auto simp: var_def map_of_dict_set split: option.splits sum.splits domain.splits)

lemma funsor_ok_arange: "funsor_ok (Tensor [name] (arange_values a b c))"
  by (simp add: funsor_ok_def arange_values_def)

lemma inv_ids:
  assumes "registry_inv R" "kv \<in> set (VARIABLES R)"
  shows "fst (snd kv) < next_id R"
  using assms unfolding registry_inv_def by (cases kv) (metis fst_conv prod.collapse snd_conv)

lemma inv_insert:
  assumes inv: "registry_inv R" and none: "map_of (VARIABLES R) (name, s) = None"
    and ok: "funsor_ok f"
    and t: "\<And>n. s = Bint n \<Longrightarrow> f = Tensor [name] (arange_values 0 (int n) 1) \<and> int n < 2 ^ 63"
  shows "registry_inv \<lparr>VARIABLES = dict_set (name, s) (next_id R, f) (VARIABLES R),
                       next_id = Suc (next_id R)\<rparr>"
proof -
  have new: "dict_set (name, s) (next_id R, f) (VARIABLES R) =
             VARIABLES R @ [((name, s), (next_id R, f))]"
    using none by (rule set_dict_set_new)
  have notin: "(name, s) \<notin> set (map fst (VARIABLES R))"
    using none by (simp add: map_of_eq_None_iff)
  have fresh: "next_id R \<notin> set (map (\<lambda>kv. fst (snd kv)) (VARIABLES R))"
    using inv_ids [OF inv] by fastforce
  have keys: "distinct (map fst (VARIABLES R @ [((name, s), (next_id R, f))]))"
    using inv notin by (simp add: registry_inv_def)
  have ids: "distinct (map (\<lambda>kv. fst (snd kv)) (VARIABLES R @ [((name, s), (next_id R, f))]))"
    using inv fresh by (simp add: registry_inv_def)
  have entries: "\<forall>name' s' i g. ((name', s'), (i, g)) \<in> set (VARIABLES R @ [((name, s), (next_id R, f))]) \<longrightarrow>
        i < Suc (next_id R) \<and> funsor_ok g \<and>
        (\<forall>n. s' = Bint n \<longrightarrow> g = Tensor [name'] (arange_values 0 (int n) 1) \<and> int n < 2 ^ 63)"
    using inv ok t by (auto simp: registry_inv_def less_Suc_eq)
  show ?thesis
    unfolding registry_inv_def new using keys ids entries by simp
qed

lemma var_inv:
  assumes "registry_inv R"
  shows "registry_inv (snd (var name s R))"
proof (cases "map_of (VARIABLES R) (name, s)")
  case (Some obj)
  then show ?thesis using assms by (simp add: var_def)
next
  case None
  show ?thesis
  proof (cases s)
    case (Bint n)
    show ?thesis
    proof (cases "int n < 2 ^ 63")
      case True
      then have "snd (var name s R) =
          \<lparr>VARIABLES = dict_set (name, s) (next_id R, Tensor [name] (arange_values 0 (int n) 1))
                         (VARIABLES R),
           next_id = Suc (next_id R)\<rparr>"
        using None by (simp add: var_def Bint arange_size mk_Tensor_arange)
      moreover have "registry_inv
          \<lparr>VARIABLES = dict_set (name, s) (next_id R, Tensor [name] (arange_values 0 (int n) 1))
                         (VARIABLES R),
           next_id = Suc (next_id R)\<rparr>"
        using Bint True by (intro inv_insert [OF assms None funsor_ok_arange]) simp
      ultimately show ?thesis by simp
    next
      case False
      then show ?thesis using None assms by (simp add: var_def Bint arange_size)
    qed
  next
    case (Named d)
    show ?thesis
    proof (cases "Funsor_init [name] [s]")
      case True
      then have "snd (var name s R) =
          \<lparr>VARIABLES = dict_set (name, s) (next_id R, Variable name s) (VARIABLES R),
           next_id = Suc (next_id R)\<rparr>"
        using None by (simp add: var_def Named mk_Variable_def)
      moreover have "funsor_ok (Variable name s)" by (simp add: funsor_ok_def)
      ultimately show ?thesis
        using inv_insert [OF assms None, of "Variable name s"] Named by simp
    next
      case False
      then show ?thesis using None assms by (simp add: var_def Named mk_Variable_def)
    qed
  qed
qed

lemma collect_inv: "registry_inv R \<Longrightarrow> registry_inv (collect live R)"
  unfolding registry_inv_def collect_def by (auto simp: distinct_map_filter)

lemma allocate_inv: "registry_inv R \<Longrightarrow> registry_inv (allocate R)"
  unfolding registry_inv_def allocate_def by (auto simp: less_Suc_eq)

lemma reachable_inv: "reachable R \<Longrightarrow> registry_inv R"
proof (induction rule: reachable.induct)
  case start
  show ?case by (simp add: registry_inv_def registry_empty_def)
next
  case (call R name s)
  then show ?case by (simp add: var_inv)
next
  case (gc R live)
  then show ?case by (simp add: collect_inv)
next
  case (alloc R)
  then show ?case by (simp add: allocate_inv)
qed

lemma var_Bint_Tensor:
  assumes "reachable R" "int n < 2 ^ 63"
  shows "\<exists>i R'. var name (Bint n) R = (Inr (i, Tensor [name] (arange_values 0 (int n) 1)), R')"
proof (cases "map_of (VARIABLES R) (name, Bint n)")
  case None
  then show ?thesis using assms(2) by (simp add: var_def arange_size mk_Tensor_arange)
next
  case (Some obj)
  then have "((name, Bint n), obj) \<in> set (VARIABLES R)" by (rule map_of_SomeD)
  then have "snd obj = Tensor [name] (arange_values 0 (int n) 1)"
    using reachable_inv [OF assms(1)] unfolding registry_inv_def by (cases obj) auto
  then show ?thesis using Some by (cases obj) (simp add: var_def)
qed

lemma var_Bint_overflow:
  assumes "reachable R" "2 ^ 63 \<le> int n"
  shows "var name (Bint n) R = (Inl RuntimeError, R)"
proof (cases "map_of (VARIABLES R) (name, Bint n)")
  case None
  then show ?thesis using assms(2) by (simp add: var_def arange_size)
next
  case (Some obj)
  then have "((name, Bint n), obj) \<in> set (VARIABLES R)" by (rule map_of_SomeD)
  then have "int n < 2 ^ 63"
    using reachable_inv [OF assms(1)] unfolding registry_inv_def by (cases obj) auto
  then show ?thesis using assms(2) by simp
qed

lemma collect_keeps:
  assumes "registry_inv R" "map_of (VARIABLES R) k = Some obj" "fst obj \<in> live"
  shows "map_of (VARIABLES (collect live R)) k = Some obj"
proof -
  have "(k, obj) \<in> set (VARIABLES R)" using assms(2) by (rule map_of_SomeD)
  then have "(k, obj) \<in> set (VARIABLES (collect live R))"
    using assms(3) by (simp add: collect_def)
  moreover have "distinct (map fst (VARIABLES (collect live R)))"
    using collect_inv [OF assms(1)] by (simp add: registry_inv_def)
  ultimately show ?thesis by (rule map_of_is_SomeI [rotated])
qed

lemma collect_drops:
  assumes "registry_inv R" "map_of (VARIABLES R) k = Some obj" "fst obj \<notin> live"
  shows "map_of (VARIABLES (collect live R)) k = None"
proof (rule ccontr)
  assume "map_of (VARIABLES (collect live R)) k \<noteq> None"
  then obtain obj' where "map_of (VARIABLES (collect live R)) k = Some obj'" by blast
  then have "(k, obj') \<in> set (VARIABLES (collect live R))" by (rule map_of_SomeD)
  then have m: "(k, obj') \<in> set (VARIABLES R)" and l: "fst obj' \<in> live"
    by (simp_all add: collect_def)
  have "distinct (map fst (VARIABLES R))" using assms(1) by (simp add: registry_inv_def)
  then have "map_of (VARIABLES R) k = Some obj'" using m by (rule map_of_is_SomeI)
  then show False using assms(2,3) l by simp
qed

lemma tolist_arange_upto: "tolist (arange_values 0 (int n) 1) = map int [0..<n]"
  by (simp add: tolist_def arange_values_def)

lemma var_keeps:
  assumes "map_of (VARIABLES R) k = Some obj"
  shows "map_of (VARIABLES (snd (var name s R))) k = Some obj"
proof (cases "map_of (VARIABLES R) (name, s)")
  case (Some obj')
  then show ?thesis using assms by (simp add: var_def)
next
  case None
  then have "k \<noteq> (name, s)" using assms by auto
  then show ?thesis
    using assms None
    by (auto simp: var_def map_of_dict_set split: sum.splits domain.splits)
qed

lemma registered_ids_differ:
  assumes "registry_inv R" "map_of (VARIABLES R) k = Some obj" "map_of (VARIABLES R) k' = Some obj'"
    and "k \<noteq> k'"
  shows "fst obj \<noteq> fst obj'"
proof -
  have m: "(k, obj) \<in> set (VARIABLES R)" "(k', obj') \<in> set (VARIABLES R)"
    using assms(2,3) by (auto dest: map_of_SomeD)
  have d: "distinct (map (\<lambda>kv. fst (snd kv)) (VARIABLES R))"
    using assms(1) by (simp add: registry_inv_def)
  have inj: "inj_on (\<lambda>kv. fst (snd kv)) (set (VARIABLES R))"
    using d by (simp add: distinct_map)
  show ?thesis
  proof
    assume "fst obj = fst obj'"
    then have "(k, obj) = (k', obj')"
      using inj_onD [OF inj _ m] by simp
    then show False using assms(4) by simp
  qed
qed

text \<open>
  Claim C10, as the code has it.  Take any state of the registry reached by calls of
  \<^verbatim>\<open>var\<close>, garbage collections and constructions of other objects.  For a size
  \<open>n < 2^63\<close>, \<open>var name n\<close> returns a Tensor over the single name \<open>name\<close>, not a Variable,
  and its data are \<open>0, ..., n - 1\<close>; for a larger size \<^verbatim>\<open>torch.arange\<close> raises
  \<^verbatim>\<open>RuntimeError\<close> and the registry is left as it was.  When \<open>var name s\<close> has returned
  the object \<open>obj\<close>:
  \<^item> \<open>obj\<close> is the value of the key \<open>(name, s)\<close> in the registry;
  \<^item> on a miss \<open>obj\<close> is a new object, whose identity no registered object has, and one
    identity is used up; on a hit \<open>obj\<close> is the registered object and nothing changes;
  \<^item> an object constructed later has another identity;
  \<^item> a second call with the same key returns the same object, identity included: at
    once, after a call of \<^verbatim>\<open>var\<close> with any key, and after a garbage collection in which
    \<open>obj\<close> is live, that is, while a reference to it is held;
  \<^item> after a garbage collection in which \<open>obj\<close> is not live the key is not registered;
  \<^item> a call with another key returns an object of another identity.
\<close>

theorem var_returns_cached_Tensor:
  assumes "reachable R"
  shows "(int n < 2 ^ 63 \<longrightarrow>
            (\<exists>i R'. var name (Bint n) R =
                      (Inr (i, Tensor [name] (arange_values 0 (int n) 1)), R'))) \<and>
         tolist (arange_values 0 (int n) 1) = map int [0..<n] \<and>
         (2 ^ 63 \<le> int n \<longrightarrow> var name (Bint n) R = (Inl RuntimeError, R)) \<and>
         (var name s R = (Inr obj, R1) \<longrightarrow>
            map_of (VARIABLES R1) (name, s) = Some obj \<and>
            (map_of (VARIABLES R) (name, s) = None \<longrightarrow>
               fst obj = next_id R \<and> next_id R1 = Suc (next_id R) \<and>
               (\<forall>kv\<in>set (VARIABLES R). fst (snd kv) \<noteq> fst obj)) \<and>
            (map_of (VARIABLES R) (name, s) \<noteq> None \<longrightarrow>
               map_of (VARIABLES R) (name, s) = Some obj \<and> R1 = R) \<and>
            fst obj < next_id R1 \<and>
            var name s R1 = (Inr obj, R1) \<and>
            var name s (snd (var name' s' R1)) = (Inr obj, snd (var name' s' R1)) \<and>
            (fst obj \<in> live \<longrightarrow> var name s (collect live R1) = (Inr obj, collect live R1)) \<and>
            (fst obj \<notin> live \<longrightarrow> map_of (VARIABLES (collect live R1)) (name, s) = None) \<and>
            (var name' s' R1 = (Inr obj', R2) \<and> (name', s') \<noteq> (name, s) \<longrightarrow>
               fst obj' \<noteq> fst obj))"
proof -
  have inv0: "registry_inv R" using assms by (rule reachable_inv)
  have a: "int n < 2 ^ 63 \<longrightarrow>
            (\<exists>i R'. var name (Bint n) R =
                      (Inr (i, Tensor [name] (arange_values 0 (int n) 1)), R'))"
    using var_Bint_Tensor [OF assms] by (rule impI)
  have b: "tolist (arange_values 0 (int n) 1) = map int [0..<n]"
    by (rule tolist_arange_upto)
  have c: "2 ^ 63 \<le> int n \<longrightarrow> var name (Bint n) R = (Inl RuntimeError, R)"
    using var_Bint_overflow [OF assms] by (rule impI)
  have d: "var name s R = (Inr obj, R1) \<longrightarrow>
            map_of (VARIABLES R1) (name, s) = Some obj \<and>
            (map_of (VARIABLES R) (name, s) = None \<longrightarrow>
               fst obj = next_id R \<and> next_id R1 = Suc (next_id R) \<and>
               (\<forall>kv\<in>set (VARIABLES R). fst (snd kv) \<noteq> fst obj)) \<and>
            (map_of (VARIABLES R) (name, s) \<noteq> None \<longrightarrow>
               map_of (VARIABLES R) (name, s) = Some obj \<and> R1 = R) \<and>
            fst obj < next_id R1 \<and>
            var name s R1 = (Inr obj, R1) \<and>
            var name s (snd (var name' s' R1)) = (Inr obj, snd (var name' s' R1)) \<and>
            (fst obj \<in> live \<longrightarrow> var name s (collect live R1) = (Inr obj, collect live R1)) \<and>
            (fst obj \<notin> live \<longrightarrow> map_of (VARIABLES (collect live R1)) (name, s) = None) \<and>
            (var name' s' R1 = (Inr obj', R2) \<and> (name', s') \<noteq> (name, s) \<longrightarrow>
               fst obj' \<noteq> fst obj)"
  proof (rule impI)
    assume v: "var name s R = (Inr obj, R1)"
    have reg: "map_of (VARIABLES R1) (name, s) = Some obj"
      using v by (rule var_result_registered)
    have "R1 = snd (var name s R)" using v by simp
    then have inv: "registry_inv R1" using var_inv [OF inv0] by simp
    have miss: "map_of (VARIABLES R) (name, s) = None \<longrightarrow>
           fst obj = next_id R \<and> next_id R1 = Suc (next_id R) \<and>
           (\<forall>kv\<in>set (VARIABLES R). fst (snd kv) \<noteq> fst obj)"
    proof (rule impI)
      assume none: "map_of (VARIABLES R) (name, s) = None"
      have "fst obj = next_id R" "next_id R1 = Suc (next_id R)"
        using var_miss [OF none v] by simp_all
      moreover have "\<forall>kv\<in>set (VARIABLES R). fst (snd kv) \<noteq> next_id R"
        using inv_ids [OF inv0] by fastforce
      ultimately show "fst obj = next_id R \<and> next_id R1 = Suc (next_id R) \<and>
           (\<forall>kv\<in>set (VARIABLES R). fst (snd kv) \<noteq> fst obj)" by simp
    qed
    have hit: "map_of (VARIABLES R) (name, s) \<noteq> None \<longrightarrow>
               map_of (VARIABLES R) (name, s) = Some obj \<and> R1 = R"
      using v by (auto simp: var_def)
    have lt: "fst obj < next_id R1"
      using inv_ids [OF inv map_of_SomeD [OF reg]] by simp
    have again: "var name s R1 = (Inr obj, R1)" by (rule var_hit [OF reg])
    have later: "var name s (snd (var name' s' R1)) = (Inr obj, snd (var name' s' R1))"
      by (rule var_hit [OF var_keeps [OF reg]])
    have held: "fst obj \<in> live \<longrightarrow> var name s (collect live R1) = (Inr obj, collect live R1)"
      using var_hit [OF collect_keeps [OF inv reg]] by (rule impI)
    have dropped: "fst obj \<notin> live \<longrightarrow> map_of (VARIABLES (collect live R1)) (name, s) = None"
      using collect_drops [OF inv reg] by (rule impI)
    have other: "var name' s' R1 = (Inr obj', R2) \<and> (name', s') \<noteq> (name, s) \<longrightarrow>
               fst obj' \<noteq> fst obj"
    proof (rule impI)
      assume "var name' s' R1 = (Inr obj', R2) \<and> (name', s') \<noteq> (name, s)"
      then have o: "var name' s' R1 = (Inr obj', R2)" and ne: "(name', s') \<noteq> (name, s)"
        by simp_all
      have "R2 = snd (var name' s' R1)" using o by simp
      then have inv2: "registry_inv R2" using var_inv [OF inv] by simp
      have 1: "map_of (VARIABLES R2) (name, s) = Some obj"
        using var_keeps [OF reg, of name' s'] o by simp
      have 2: "map_of (VARIABLES R2) (name', s') = Some obj'"
        using o by (rule var_result_registered)
      show "fst obj' \<noteq> fst obj"
        by (rule registered_ids_differ [OF inv2 2 1 ne])
    qed
    show "map_of (VARIABLES R1) (name, s) = Some obj \<and>
            (map_of (VARIABLES R) (name, s) = None \<longrightarrow>
               fst obj = next_id R \<and> next_id R1 = Suc (next_id R) \<and>
               (\<forall>kv\<in>set (VARIABLES R). fst (snd kv) \<noteq> fst obj)) \<and>
            (map_of (VARIABLES R) (name, s) \<noteq> None \<longrightarrow>
               map_of (VARIABLES R) (name, s) = Some obj \<and> R1 = R) \<and>
            fst obj < next_id R1 \<and>
            var name s R1 = (Inr obj, R1) \<and>
            var name s (snd (var name' s' R1)) = (Inr obj, snd (var name' s' R1)) \<and>
            (fst obj \<in> live \<longrightarrow> var name s (collect live R1) = (Inr obj, collect live R1)) \<and>
            (fst obj \<notin> live \<longrightarrow> map_of (VARIABLES (collect live R1)) (name, s) = None) \<and>
            (var name' s' R1 = (Inr obj', R2) \<and> (name', s') \<noteq> (name, s) \<longrightarrow>
               fst obj' \<noteq> fst obj)"
      by (intro conjI) (fact reg miss hit lt again later held dropped other)+
  qed
  show ?thesis by (intro conjI) (fact a b c d)+
qed

theorem var_returns_cached_Tensor_witness:
  "\<exists>R1. var ''x'' (Bint 3) registry_empty = (Inr (0, Tensor [''x''] (arange_values 0 3 1)), R1) \<and>
        tolist (arange_values 0 3 1) = [0, 1, 2] \<and>
        map_of (VARIABLES R1) (''x'', Bint 3) = Some (0, Tensor [''x''] (arange_values 0 3 1)) \<and>
        next_id R1 = 1 \<and>
        var ''x'' (Bint 3) R1 = (Inr (0, Tensor [''x''] (arange_values 0 3 1)), R1) \<and>
        var ''x'' (Bint 3) (collect {0} R1) =
          (Inr (0, Tensor [''x''] (arange_values 0 3 1)), collect {0} R1) \<and>
        map_of (VARIABLES (collect {} R1)) (''x'', Bint 3) = None"
proof -
  have ar: "arange 0 3 1 = Inr (arange_values 0 3 1)"
    by (simp add: arange_def int64_def)
  have mk: "mk_Tensor [''x''] (PTorch (arange_values 0 3 1)) =
      Inr (Tensor [''x''] (arange_values 0 3 1))"
    using mk_Tensor_arange [of "''x''" 3] by simp
  have "\<exists>R1. var ''x'' (Bint 3) registry_empty =
      (Inr (0, Tensor [''x''] (arange_values 0 3 1)), R1)"
    by (simp add: var_def registry_empty_def ar mk)
  then obtain R1 where v: "var ''x'' (Bint 3) registry_empty =
      (Inr (0, Tensor [''x''] (arange_values 0 3 1)), R1)" by blast
  have none: "map_of (VARIABLES registry_empty) (''x'', Bint 3) = None"
    by (simp add: registry_empty_def)
  note inst = var_returns_cached_Tensor [OF reachable.start, where name = "''x''" and n = 3
        and s = "Bint 3" and obj = "(0, Tensor [''x''] (arange_values 0 3 1))" and ?R1.0 = R1]
  note k = inst [THEN conjunct2, THEN conjunct2, THEN conjunct2, THEN mp, OF v]
  note held = inst [where live = "{0}", THEN conjunct2, THEN conjunct2, THEN conjunct2, THEN mp, OF v]
  note dropped = inst [where live = "{}", THEN conjunct2, THEN conjunct2, THEN conjunct2, THEN mp, OF v]
  have 1: "tolist (arange_values 0 3 1) = [0, 1, 2]"
    using inst [THEN conjunct2, THEN conjunct1] by (simp add: upt_rec)
  have 2: "map_of (VARIABLES R1) (''x'', Bint 3) = Some (0, Tensor [''x''] (arange_values 0 3 1))"
    by (rule k [THEN conjunct1])
  have 3: "next_id R1 = 1"
    using k [THEN conjunct2, THEN conjunct1] none by (simp add: registry_empty_def)
  have 4: "var ''x'' (Bint 3) R1 = (Inr (0, Tensor [''x''] (arange_values 0 3 1)), R1)"
    using k by blast
  have 5: "var ''x'' (Bint 3) (collect {0} R1) =
          (Inr (0, Tensor [''x''] (arange_values 0 3 1)), collect {0} R1)"
    using held by simp
  have 6: "map_of (VARIABLES (collect {} R1)) (''x'', Bint 3) = None"
    using dropped by simp
  show ?thesis using v 1 2 3 4 5 6 by blast
qed

text \<open>
  Claim C10, as the spec states it, fails.  \<open>2^63\<close> is a finite integer size, and
  \<^verbatim>\<open>torch.arange(2 ** 63)\<close> raises \<^verbatim>\<open>RuntimeError\<close>: \<^verbatim>\<open>var\<close> returns no Tensor.
\<close>

theorem var_size_overflow_counterexample:
  "var ''x'' (Bint 9223372036854775808) registry_empty = (Inl RuntimeError, registry_empty)"
  by (simp add: var_def registry_empty_def arange_def int64_def)

subsection \<open>Calling a Variable\<close>

text \<open>
  Claim C2.  Substituting a number for the name of a Variable, by keyword or by position,
  returns \<^verbatim>\<open>None\<close> and not the number: the branch for a \<^verbatim>\<open>Number\<close> is a bare
  \<^verbatim>\<open>return\<close>.  Substituting a funsor returns that funsor, and substituting a string
  returns \<open>var\<close> of the string and the Variable's size.
\<close>

theorem Variable_call_number_returns_None:
  "funsor_call (Variable name s) [] [(name, PInt n)] R = (Inr PNone, R) \<and>
   funsor_call (Variable name s) [PInt n] [] R = (Inr PNone, R) \<and>
   funsor_call (Variable name s) [] [(name, PFunsor g)] R = (Inr (PFunsor g), R) \<and>
   funsor_call (Variable name s) [] [(name, PStr v)] R =
     (case var v s R of (Inl e, R') \<Rightarrow> (Inl e, R') | (Inr obj, R') \<Rightarrow> (Inr (PFunsor (snd obj)), R'))"
  by (simp add: call_Variable_def dict_update_def)


subsection \<open>contract\<close>

lemmas funsor_defs = contract_def product_then_reduce_def pointwise_binary_def
  Funsor_pointwise_binary_def pointwise_unary_def mk_Function_def Funsor_init_def
  reduce_method_def Funsor_reduce_def reduce_dims_def schema_def reduce_calls_def
  call_Function_def py_apply2_def placeholder_def is_unary_def dict_update_def DOMAINS_def


text \<open>
  Claim C1.  \<open>contract\<close> is not the product followed by the reduction.  For the Function
  \<open>a\<close> over \<open>i\<close> and the Function \<open>b\<close> over \<open>i\<close> and \<open>j\<close>, with \<open>i\<close> to be reduced,
  \<open>contract\<close> returns a funsor without names, while
  \<^verbatim>\<open>a.pointwise_binary(b, prod_op).reduce(sum_op, dims)\<close> is a funsor over \<open>j\<close>.  For two
  Tensors \<open>contract\<close> raises \<^verbatim>\<open>NotImplementedError\<close>: the Tensor \<open>other\<close> is called as the
  operator, on the data of \<open>self\<close> and \<open>prod_op\<close>.
\<close>

theorem contract_swaps_its_operands:
  "(\<exists>f. contract be (Function [''i''] [Bint 2] (Native 0)) (POp Op_add) (POp Op_mul)
          (PFunsor (Function [''i'', ''j''] [Bint 2, Bint 2] (Native 1))) (Some [''i'']) R =
        (Inr (PFunsor f), R) \<and> dims_of f = []) \<and>
   (\<exists>f. product_then_reduce be (Function [''i''] [Bint 2] (Native 0)) (POp Op_add) (POp Op_mul)
          (PFunsor (Function [''i'', ''j''] [Bint 2, Bint 2] (Native 1))) (Some [''i'']) R =
        (Inr (PFunsor f), R) \<and> dims_of f = [''j'']) \<and>
   contract be (Tensor [''i''] (arange_values 0 2 1)) (POp Op_add) (POp Op_mul)
          (PFunsor (Tensor [''i''] (arange_values 0 2 1))) (Some [''i'']) R =
        (Inl (NotImplementedError ''TODO handle''), R)"
proof (intro conjI)
  show "\<exists>f. contract be (Function [''i''] [Bint 2] (Native 0)) (POp Op_add) (POp Op_mul)
          (PFunsor (Function [''i'', ''j''] [Bint 2, Bint 2] (Native 1))) (Some [''i'']) R =
        (Inr (PFunsor f), R) \<and> dims_of f = []"
    by (simp add: funsor_defs Let_def upt_small)
  show "\<exists>f. product_then_reduce be (Function [''i''] [Bint 2] (Native 0)) (POp Op_add) (POp Op_mul)
          (PFunsor (Function [''i'', ''j''] [Bint 2, Bint 2] (Native 1))) (Some [''i'']) R =
        (Inr (PFunsor f), R) \<and> dims_of f = [''j'']"
    by (simp add: funsor_defs Let_def upt_small)
  show "contract be (Tensor [''i''] (arange_values 0 2 1)) (POp Op_add) (POp Op_mul)
          (PFunsor (Tensor [''i''] (arange_values 0 2 1))) (Some [''i'']) R =
        (Inl (NotImplementedError ''TODO handle''), R)"
    by (simp add: contract_def pointwise_binary_def Funsor_pointwise_binary_def
        pointwise_unary_def call_unary_def call_on_data_def call_Tensor_def dict_update_def
        Tensor_substitute_def Let_def)
qed


subsection \<open>reduce\<close>

lemma dict_update_fresh:
  "distinct (map fst kvs) \<Longrightarrow> set (map fst kvs) \<inter> set (map fst acc) = {} \<Longrightarrow>
   dict_update acc kvs = acc @ kvs"
proof (induction kvs arbitrary: acc)
  case Nil
  then show ?case by (simp add: dict_update_def)
next
  case (Cons kv kvs)
  have none: "map_of acc (fst kv) = None"
    using Cons.prems(2) by (auto simp: map_of_eq_None_iff)
  have "dict_update acc (kv # kvs) = dict_update (acc @ [kv]) kvs"
    using set_dict_set_new [OF none, of "snd kv"] by (simp add: dict_update_def)
  also have "\<dots> = (acc @ [kv]) @ kvs"
    using Cons.prems by (intro Cons.IH) auto
  finally show ?case by simp
qed

lemma schema_zip:
  "funsor_ok f \<Longrightarrow> schema f = zip (dims_of f) (shape_of f)"
  using dict_update_fresh [of "zip (dims_of f) (shape_of f)" "[]"]
  by (simp add: schema_def dict_update_def funsor_ok_def)

lemma fst_zip_set:
  "length dims = length sh \<Longrightarrow> fst ` set (zip dims sh) = set dims"
  by (metis map_fst_zip set_map)

lemma lookup_all_total:
  "\<forall>k\<in>set ks. map_of d k \<noteq> None \<Longrightarrow> lookup_all d ks = Inr (map (\<lambda>k. the (map_of d k)) ks)"
  by (induction ks) auto

lemma call_Function_index:
  assumes "distinct dims" "length dims = length sh" "dim \<in> set dims"
  shows "call_Function dims sh fn [] [(dim, PInt i)] =
           (if Funsor_init (filter (\<lambda>x. x \<noteq> dim) dims) (rest_shape dims sh dim)
            then Inr (PFunsor (Function (filter (\<lambda>x. x \<noteq> dim) dims) (rest_shape dims sh dim)
                                 (Partial fn [] [(dim, PInt i)])))
            else Inl AssertionError)"
proof -
  have sch: "schema (Function dims sh fn) = zip dims sh"
    using assms by (simp add: schema_zip funsor_ok_def)
  have "\<forall>k\<in>set (filter (\<lambda>x. x \<noteq> dim) dims). map_of (zip dims sh) k \<noteq> None"
    using assms(2) by (simp add: map_of_eq_None_iff fst_zip_set)
  then have "lookup_all (zip dims sh) (filter (\<lambda>x. x \<noteq> dim) dims) = Inr (rest_shape dims sh dim)"
    unfolding rest_shape_def by (rule lookup_all_total)
  then show ?thesis
    using assms(3) by (simp add: call_Function_def sch mk_Function_def Let_def)
qed

lemma apply_same_dims:
  assumes "Funsor_init dims sh"
  shows "(\<exists>e. py_apply2 be (POp o') (PFunsor (Function dims sh fa)) (PFunsor (Function dims sh fb)) R
              = (Inl e, R)) \<or>
         (\<exists>fn. py_apply2 be (POp o') (PFunsor (Function dims sh fa)) (PFunsor (Function dims sh fb)) R
              = (Inr (PFunsor (Function dims sh fn)), R))"
  using assms
  by (simp add: py_apply2_def pointwise_binary_def Funsor_pointwise_binary_def mk_Function_def
      split: option.splits)

lemma fold_calls_shape:
  assumes "distinct dims" "length dims = length sh" "dim \<in> set dims"
    and "Funsor_init (filter (\<lambda>x. x \<noteq> dim) dims) (rest_shape dims sh dim)"
  shows "(\<exists>e R'. fold_calls be (POp o') (Function dims sh fn) dim
                   (PFunsor (Function (filter (\<lambda>x. x \<noteq> dim) dims) (rest_shape dims sh dim) fa))
                   is R = (Inl e, R')) \<or>
         (\<exists>fn' R'. fold_calls be (POp o') (Function dims sh fn) dim
                   (PFunsor (Function (filter (\<lambda>x. x \<noteq> dim) dims) (rest_shape dims sh dim) fa))
                   is R =
                 (Inr (PFunsor (Function (filter (\<lambda>x. x \<noteq> dim) dims) (rest_shape dims sh dim) fn')), R'))"
proof (induction "is" arbitrary: fa R)
  case Nil
  show ?case by simp
next
  case (Cons i "is")
  let ?d = "filter (\<lambda>x. x \<noteq> dim) dims" and ?s = "rest_shape dims sh dim"
  have c: "funsor_call (Function dims sh fn) [] [(dim, PInt (int i))] R =
           (Inr (PFunsor (Function ?d ?s (Partial fn [] [(dim, PInt (int i))]))), R)"
    using call_Function_index [OF assms(1,2,3)] assms(4) by simp
  from apply_same_dims [OF assms(4), of be o' fa "Partial fn [] [(dim, PInt (int i))]" R]
  show ?case
  proof
    assume "\<exists>e. py_apply2 be (POp o') (PFunsor (Function ?d ?s fa))
                  (PFunsor (Function ?d ?s (Partial fn [] [(dim, PInt (int i))]))) R = (Inl e, R)"
    then show ?thesis using c by auto
  next
    assume "\<exists>fn'. py_apply2 be (POp o') (PFunsor (Function ?d ?s fa))
                  (PFunsor (Function ?d ?s (Partial fn [] [(dim, PInt (int i))]))) R =
                (Inr (PFunsor (Function ?d ?s fn')), R)"
    then obtain fn' where "py_apply2 be (POp o') (PFunsor (Function ?d ?s fa))
                  (PFunsor (Function ?d ?s (Partial fn [] [(dim, PInt (int i))]))) R =
                (Inr (PFunsor (Function ?d ?s fn')), R)" by blast
    then show ?thesis using c Cons.IH [of fn' R] by simp
  qed
qed

lemma rest_lookup:
  assumes "distinct dims" "length dims = length sh" "d \<in> set dims" "d \<noteq> dim"
  shows "map_of (zip (filter (\<lambda>x. x \<noteq> dim) dims) (rest_shape dims sh dim)) d = map_of (zip dims sh) d"
proof -
  have "d \<in> set (filter (\<lambda>x. x \<noteq> dim) dims)" using assms by simp
  then have "map_of (zip (filter (\<lambda>x. x \<noteq> dim) dims) (rest_shape dims sh dim)) d =
             Some (the (map_of (zip dims sh) d))"
    unfolding rest_shape_def by (simp add: map_of_zip_map)
  moreover have "map_of (zip dims sh) d \<noteq> None"
    using assms by (simp add: map_of_eq_None_iff fst_zip_set)
  ultimately show ?thesis by auto
qed

lemma reduce_loop_fails:
  assumes "distinct dims" "length dims = length sh"
    and "map_of (zip dims sh) d = Some (Named c)" "d \<in> set dl"
  shows "\<exists>e R'. reduce_loop be (POp o') dl (PFunsor (Function dims sh fn)) R = (Inl e, R')"
  using assms
proof (induction dl arbitrary: dims sh fn R)
  case Nil
  then show ?case by simp
next
  case (Cons dim dl)
  have sch: "schema (Function dims sh fn) = zip dims sh"
    using Cons.prems by (simp add: schema_zip funsor_ok_def)
  show ?case
  proof (cases "map_of (zip dims sh) dim")
    case None
    then show ?thesis by (simp add: sch)
  next
    case (Some dom)
    show ?thesis
    proof (cases dom)
      case (Named c')
      then show ?thesis using Some by (simp add: sch)
    next
      case (Bint n)
      then have neq: "dim \<noteq> d" using Some Cons.prems(3) by auto
      then have d_dl: "d \<in> set dl" using Cons.prems(4) by simp
      have dim_in: "dim \<in> set dims" using Some by (meson map_of_SomeD set_zip_leftD)
      have d_in: "d \<in> set dims" using Cons.prems(3) by (meson map_of_SomeD set_zip_leftD)
      let ?d = "filter (\<lambda>x. x \<noteq> dim) dims" and ?s = "rest_shape dims sh dim"
      show ?thesis
      proof (cases "n = 0 \<or> \<not> Funsor_init ?d ?s")
        case True
        then show ?thesis
          using Some Bint call_Function_index [OF Cons.prems(1,2) dim_in, of fn 0]
          by (auto simp: sch reduce_calls_def)
      next
        case False
        then have init: "Funsor_init ?d ?s" and n: "n \<noteq> 0" by auto
        have c0: "funsor_call (Function dims sh fn) [] [(dim, PInt 0)] R =
                  (Inr (PFunsor (Function ?d ?s (Partial fn [] [(dim, PInt 0)]))), R)"
          using call_Function_index [OF Cons.prems(1,2) dim_in, of fn 0] init by simp
        have rc: "reduce_calls be (POp o') (Function dims sh fn) dim n R =
                  fold_calls be (POp o') (Function dims sh fn) dim
                    (PFunsor (Function ?d ?s (Partial fn [] [(dim, PInt 0)]))) [1..<n] R"
          using n c0 by (simp add: reduce_calls_def)
        from fold_calls_shape [OF Cons.prems(1,2) dim_in init,
            of be o' fn "Partial fn [] [(dim, PInt 0)]" "[1..<n]" R]
        show ?thesis
        proof
          assume "\<exists>e R'. fold_calls be (POp o') (Function dims sh fn) dim
                   (PFunsor (Function ?d ?s (Partial fn [] [(dim, PInt 0)]))) [1..<n] R = (Inl e, R')"
          then show ?thesis using Some Bint rc by (auto simp: sch)
        next
          assume "\<exists>fn' R'. fold_calls be (POp o') (Function dims sh fn) dim
                   (PFunsor (Function ?d ?s (Partial fn [] [(dim, PInt 0)]))) [1..<n] R =
                 (Inr (PFunsor (Function ?d ?s fn')), R')"
          then obtain fn' R' where f: "fold_calls be (POp o') (Function dims sh fn) dim
                   (PFunsor (Function ?d ?s (Partial fn [] [(dim, PInt 0)]))) [1..<n] R =
                 (Inr (PFunsor (Function ?d ?s fn')), R')" by blast
          have "distinct ?d" "length ?d = length ?s"
            using init by (simp_all add: Funsor_init_def)
          moreover have "map_of (zip ?d ?s) d = Some (Named c)"
            using rest_lookup [OF Cons.prems(1,2) d_in neq [symmetric]] Cons.prems(3) by simp
          ultimately have "\<exists>e R''. reduce_loop be (POp o') dl (PFunsor (Function ?d ?s fn')) R' = (Inl e, R'')"
            using Cons.IH d_dl by blast
          then show ?thesis using Some Bint rc f by (auto simp: sch)
        qed
      qed
    qed
  qed
qed

lemma Tensor_no_Named:
  assumes "funsor_ok (Tensor dims x)"
  shows "map_of (schema (Tensor dims x)) d \<noteq> Some (Named c)"
proof
  assume "map_of (schema (Tensor dims x)) d = Some (Named c)"
  then have "map_of (zip dims (map Bint (shape x))) d = Some (Named c)"
    using schema_zip [OF assms] by simp
  then have "Named c \<in> set (map Bint (shape x))"
    by (meson map_of_SomeD set_zip_rightD)
  then show False by auto
qed

lemma schema_Variable: "schema (Variable name s) = [(name, s)]"
  by (simp add: schema_def)

lemma reduce_dims_mem:
  "d \<in> set ds \<Longrightarrow> d \<in> set (dims_of self) \<Longrightarrow> d \<in> set (reduce_dims self (Some ds))"
  by (simp add: reduce_dims_def)

lemma reduce_dims_single:
  "d \<in> set (dims_of self) \<Longrightarrow> reduce_dims self (Some [d]) = [d]"
  by (simp add: reduce_dims_def)

lemma reduce_dims_unknown:
  "set ds \<inter> set (dims_of self) = {} \<Longrightarrow> reduce_dims self (Some ds) = []"
  by (auto simp: reduce_dims_def filter_empty_conv)

lemma reduce_loop_Variable:
  assumes "d \<in> set dl"
  shows "\<exists>e R'. reduce_loop be op' dl (PFunsor (Variable name (Named c))) R = (Inl e, R')"
proof (cases dl)
  case Nil
  then show ?thesis using assms by simp
next
  case (Cons dim dl')
  then show ?thesis by (simp add: schema_Variable)
qed

lemma schema_dom:
  assumes "funsor_ok self" "map_of (schema self) d = Some v"
  shows "d \<in> set (dims_of self)"
  using assms schema_zip [OF assms(1)] by (metis map_of_SomeD set_zip_leftD)


text \<open>
  Claim C8, as the code has it.  Let \<open>self\<close> have as many names as sizes and no name
  twice, and let \<open>op\<close> be one of the operators of the module.  When \<open>d\<close> is a name of
  \<open>self\<close> with a continuous domain, reducing \<open>d\<close> alone raises
  \<^verbatim>\<open>NotImplementedError('cannot reduce dim ...')\<close>, and reducing any \<open>dims\<close> that contain
  \<open>d\<close> raises.  When no name of \<open>dims\<close> is a name of \<open>self\<close>, \<open>reduce\<close> raises nothing
  and returns \<open>self\<close>: the names are intersected with those of \<open>self\<close> first.
\<close>

theorem reduce_continuous_fails_unknown_skipped:
  assumes "funsor_ok self"
  shows "(map_of (schema self) d = Some (Named c) \<longrightarrow>
            reduce_method be self (POp o') (Some [d]) R =
              (Inl (NotImplementedError ''cannot reduce dim''), R)) \<and>
         (map_of (schema self) d = Some (Named c) \<and> d \<in> set ds \<longrightarrow>
            (\<exists>e R'. reduce_method be self (POp o') (Some ds) R = (Inl e, R'))) \<and>
         (set ds \<inter> set (dims_of self) = {} \<longrightarrow>
            reduce_method be self op' (Some ds) R = (Inr (PFunsor self), R))"
proof (intro conjI impI)
  assume s: "map_of (schema self) d = Some (Named c)"
  have d: "d \<in> set (dims_of self)" by (rule schema_dom [OF assms s])
  show "reduce_method be self (POp o') (Some [d]) R =
          (Inl (NotImplementedError ''cannot reduce dim''), R)"
  proof (cases self)
    case (Variable name s')
    then show ?thesis
      using s d by (simp add: reduce_method_def Funsor_reduce_def reduce_dims_single)
  next
    case (Function dims sh fn)
    then show ?thesis
      using s d by (simp add: reduce_method_def Funsor_reduce_def reduce_dims_single)
  next
    case (Tensor dims x)
    then show ?thesis using Tensor_no_Named assms s by blast
  qed
next
  assume "map_of (schema self) d = Some (Named c) \<and> d \<in> set ds"
  then have s: "map_of (schema self) d = Some (Named c)" and m: "d \<in> set ds" by auto
  have d: "d \<in> set (dims_of self)" by (rule schema_dom [OF assms s])
  have r: "d \<in> set (reduce_dims self (Some ds))" by (rule reduce_dims_mem [OF m d])
  show "\<exists>e R'. reduce_method be self (POp o') (Some ds) R = (Inl e, R')"
  proof (cases self)
    case (Variable name s')
    then have "s' = Named c" using s by (simp add: schema_Variable split: if_splits)
    then show ?thesis
      using Variable reduce_loop_Variable [OF r, of be "POp o'" name c R]
      by (simp add: reduce_method_def Funsor_reduce_def)
  next
    case (Function dims sh fn)
    have "distinct dims" "length dims = length sh"
      using assms Function by (simp_all add: funsor_ok_def)
    moreover have "map_of (zip dims sh) d = Some (Named c)"
      using s schema_zip [OF assms] Function by simp
    ultimately show ?thesis
      using Function reduce_loop_fails [of dims sh d c "reduce_dims self (Some ds)" be o' fn R] r
      by (simp add: reduce_method_def Funsor_reduce_def)
  next
    case (Tensor dims x)
    then show ?thesis using Tensor_no_Named assms s by blast
  qed
next
  assume u: "set ds \<inter> set (dims_of self) = {}"
  show "reduce_method be self op' (Some ds) R = (Inr (PFunsor self), R)"
    using reduce_dims_unknown [OF u]
    by (cases self)
       (simp_all add: reduce_method_def Funsor_reduce_def Tensor_reduce_def split: option.splits)
qed

theorem reduce_continuous_fails_unknown_skipped_witness:
  "reduce_method int_backend (Function [''i'', ''x''] [Bint 2, Named ''real''] (Native 0))
       (POp Op_add) (Some [''x'']) registry_empty =
     (Inl (NotImplementedError ''cannot reduce dim''), registry_empty) \<and>
   (\<exists>e R'. reduce_method int_backend (Function [''i'', ''x''] [Bint 2, Named ''real''] (Native 0))
       (POp Op_add) (Some [''i'', ''x'']) registry_empty = (Inl e, R')) \<and>
   reduce_method int_backend (Function [''i'', ''x''] [Bint 2, Named ''real''] (Native 0))
       (POp Op_add) (Some [''z'']) registry_empty =
     (Inr (PFunsor (Function [''i'', ''x''] [Bint 2, Named ''real''] (Native 0))), registry_empty)"
proof -
  let ?f = "Function [''i'', ''x''] [Bint 2, Named ''real''] (Native 0)"
  have 1: "funsor_ok ?f" by (simp add: funsor_ok_def)
  have 2: "map_of (schema ?f) ''x'' = Some (Named ''real'')"
    by (simp add: schema_def)
  have 3: "set [''z''] \<inter> set (dims_of ?f) = {}" by simp
  show ?thesis
    using reduce_continuous_fails_unknown_skipped [OF 1, where d = "''x''" and c = "''real''"
        and ds = "[''i'', ''x'']" and o' = Op_add and R = registry_empty and be = int_backend]
      reduce_continuous_fails_unknown_skipped [OF 1, where d = "''x''" and c = "''real''"
        and ds = "[''z'']" and op' = "POp Op_add" and R = registry_empty and be = int_backend]
      2
    by simp
qed

text \<open>
  Claim C8, as the spec states it, fails.  Reducing the unknown name \<open>z\<close> of a Function
  over \<open>i\<close>, or of a Tensor over \<open>i\<close>, returns the funsor unchanged.
\<close>

theorem reduce_skips_unknown_dim_counterexample:
  "reduce_method int_backend (Function [''i''] [Bint 2] (Native 0)) (POp Op_add) (Some [''z''])
      registry_empty =
     (Inr (PFunsor (Function [''i''] [Bint 2] (Native 0))), registry_empty) \<and>
   reduce_method int_backend (Tensor [''i''] (arange_values 0 2 1)) (POp Op_add) (Some [''z''])
      registry_empty =
     (Inr (PFunsor (Tensor [''i''] (arange_values 0 2 1))), registry_empty)"
  by (simp add: reduce_method_def Funsor_reduce_def Tensor_reduce_def reduce_dims_def in_table_def)

subsection \<open>The invariant of funsors\<close>

lemma val_ok_simps [simp]:
  "val_ok (PFunsor f) = funsor_ok f" "val_ok PNone" "val_ok (PInt n)" "val_ok (PStr s)"
  "val_ok PEllipsis" "val_ok (PSlice a b c)" "val_ok (PTorch x)" "val_ok (POp o')"
  "val_ok (PLam p q)"
  by (simp_all add: val_ok_def)

lemma result_ok_Inl [simp]: "result_ok (Inl e, R) = registry_inv R"
  by (simp add: result_ok_def)

lemma result_ok_Inr [simp]: "result_ok (Inr v, R) = (registry_inv R \<and> val_ok v)"
  by (simp add: result_ok_def)

lemma funsor_result_ok_Inl [simp]: "funsor_result_ok (Inl e, R) = registry_inv R"
  by (simp add: funsor_result_ok_def)

lemma funsor_result_ok_Inr [simp]: "funsor_result_ok (Inr f, R) = (registry_inv R \<and> funsor_ok f)"
  by (simp add: funsor_result_ok_def)

lemma mk_Function_ok: "mk_Function dims sh fn = Inr f \<Longrightarrow> funsor_ok f"
  by (auto simp: mk_Function_def Funsor_init_def funsor_ok_def split: if_splits)

lemma mk_Tensor_ok: "mk_Tensor dims v = Inr f \<Longrightarrow> funsor_ok f"
  by (auto simp: mk_Tensor_def Funsor_init_def funsor_ok_def split: if_splits pyval.splits)

lemma mk_Variable_ok: "mk_Variable R name s = Inr f \<Longrightarrow> funsor_ok f"
  by (auto simp: mk_Variable_def Funsor_init_def funsor_ok_def split: if_splits)

lemma mk_Function_result: "registry_inv R \<Longrightarrow> funsor_result_ok (mk_Function dims sh fn, R)"
  by (cases "mk_Function dims sh fn") (simp_all add: mk_Function_ok)

lemma mk_Tensor_result: "registry_inv R \<Longrightarrow> funsor_result_ok (mk_Tensor dims v, R)"
  by (cases "mk_Tensor dims v") (simp_all add: mk_Tensor_ok)

lemma var_ok:
  assumes "registry_inv R" "var v s R = (Inr obj, R')"
  shows "funsor_ok (snd obj) \<and> registry_inv R'"
proof -
  have "R' = snd (var v s R)" using assms(2) by simp
  then have inv: "registry_inv R'" using var_inv [OF assms(1)] by simp
  have "((v, s), obj) \<in> set (VARIABLES R')"
    using var_result_registered [OF assms(2)] by (rule map_of_SomeD)
  then show ?thesis using inv unfolding registry_inv_def by (cases obj) auto
qed

lemma var_err_inv:
  assumes "registry_inv R" "var v s R = (Inl e, R')"
  shows "registry_inv R'"
proof -
  have "R' = snd (var v s R)" using assms(2) by simp
  then show ?thesis using var_inv [OF assms(1)] by simp
qed

lemma dict_set_member:
  "(k', w) \<in> set (dict_set k v d) \<Longrightarrow> w = v \<or> w \<in> snd ` set d"
  by (induction d) (force split: if_splits)+

lemma dict_set_values: "snd ` set (dict_set k v d) \<subseteq> insert v (snd ` set d)"
  using dict_set_member by fastforce

lemma dict_update_value:
  "map_of (dict_update d pairs) k = Some v \<Longrightarrow> v \<in> snd ` set d \<union> snd ` set pairs"
proof (induction pairs arbitrary: d)
  case Nil
  then show ?case by (auto simp: dict_update_def dest: map_of_SomeD intro: rev_image_eqI)
next
  case (Cons kv pairs)
  have "map_of (dict_update (dict_set (fst kv) (snd kv) d) pairs) k = Some v"
    using Cons.prems by (simp add: dict_update_def)
  then have "v \<in> snd ` set (dict_set (fst kv) (snd kv) d) \<union> snd ` set pairs"
    by (rule Cons.IH)
  then show ?case using dict_set_values [of "fst kv" "snd kv" d] by auto
qed

lemma call_Variable_ok:
  assumes "funsor_ok (Variable name s)" "registry_inv R"
    and "list_all val_ok args" "list_all (\<lambda>kv. val_ok (snd kv)) kwargs"
  shows "result_ok (call_Variable name s args kwargs R)"
proof (cases "map_of (dict_update kwargs (zip [name] args)) name")
  case None
  then show ?thesis using assms by (simp add: call_Variable_def)
next
  case (Some v)
  then have "v \<in> snd ` set kwargs \<union> snd ` set (zip [name] args)" by (rule dict_update_value)
  then have "v \<in> snd ` set kwargs \<union> set args"
    by (cases args) auto
  then have v: "val_ok v" using assms(3,4) by (auto simp: list_all_iff)
  show ?thesis
  proof (cases v)
    case (PStr w)
    show ?thesis
    proof (cases "var w s R")
      case (Pair res R')
      then show ?thesis
        using Some PStr var_ok [OF assms(2), of w s _ R'] var_err_inv [OF assms(2), of w s _ R']
        by (cases res) (auto simp: call_Variable_def)
    qed
  qed (use Some v assms in \<open>simp_all add: call_Variable_def\<close>)
qed

lemma call_Function_ok:
  assumes "funsor_ok (Function dims sh fn)" "call_Function dims sh fn args kwargs = Inr v"
  shows "val_ok v"
  using assms
  by (auto simp: call_Function_def Let_def dest: mk_Function_ok split: if_splits sum.splits)

lemma substitute_index_ok: "substitute_index dims x dim value vdims vdata = Inr f \<Longrightarrow> funsor_ok f"
  by (auto simp: substitute_index_def Let_def dest: mk_Tensor_ok split: if_splits sum.splits)

lemma Tensor_substitute_ok:
  assumes "funsor_ok (Tensor dims x)" "Tensor_substitute dims x dim value = Inr f"
  shows "funsor_ok f"
  using assms
  by (auto simp: Tensor_substitute_def Let_def dest: mk_Tensor_ok substitute_index_ok
      split: if_splits sum.splits pyval.splits funsor.splits)

lemma substitute_all_ok:
  "funsor_ok result \<Longrightarrow> substitute_all result kvs = Inr f \<Longrightarrow> funsor_ok f"
proof (induction kvs arbitrary: result)
  case Nil
  then show ?case by simp
next
  case (Cons kv kvs)
  then show ?case
    by (auto split: funsor.splits sum.splits dest: Tensor_substitute_ok)
qed

lemma call_Tensor_ok:
  assumes "funsor_ok (Tensor dims x)" "call_Tensor dims x args kwargs = Inr v"
  shows "val_ok v"
  using assms
  by (auto simp: call_Tensor_def Let_def dest: substitute_all_ok split: sum.splits)

lemma funsor_call_ok:
  assumes "funsor_ok self" "registry_inv R"
    and "list_all val_ok args" "list_all (\<lambda>kv. val_ok (snd kv)) kwargs"
  shows "result_ok (funsor_call self args kwargs R)"
proof (cases self)
  case (Variable name s)
  then show ?thesis using call_Variable_ok assms by simp
next
  case (Function dims sh fn)
  then show ?thesis
    using assms call_Function_ok [of dims sh fn args kwargs]
    by (cases "call_Function dims sh fn args kwargs") simp_all
next
  case (Tensor dims x)
  then show ?thesis
    using assms call_Tensor_ok [of dims x args kwargs]
    by (cases "call_Tensor dims x args kwargs") simp_all
qed

lemma funsor_call_inv:
  assumes "registry_inv R"
  shows "registry_inv (snd (funsor_call self args kwargs R))"
proof (cases self)
  case (Variable name s)
  show ?thesis
  proof (cases "map_of (dict_update kwargs (zip [name] args)) name")
    case None
    then show ?thesis using assms Variable by (simp add: call_Variable_def)
  next
    case (Some v)
    show ?thesis
    proof (cases v)
      case (PStr w)
      have "snd (call_Variable name s args kwargs R) = snd (var w s R)"
        using Some PStr by (simp add: call_Variable_def split: prod.splits sum.splits)
      then show ?thesis using Variable var_inv [OF assms] by simp
    qed (use Some assms Variable in \<open>simp_all add: call_Variable_def\<close>)
  qed
qed (use assms in simp_all)

lemma call_on_data_inv:
  "registry_inv R \<Longrightarrow> registry_inv (snd (call_on_data be op' x other R))"
  by (cases op') (simp_all add: call_on_data_def funsor_call_inv)

lemma call_unary_inv:
  "registry_inv R \<Longrightarrow> registry_inv (snd (call_unary be op' x R))"
  by (cases op') (simp_all add: call_unary_def funsor_call_inv call_on_data_inv)

lemma pointwise_unary_ok:
  assumes "registry_inv R"
  shows "funsor_result_ok (pointwise_unary be self op' R)"
proof (cases self)
  case (Tensor dims x)
  show ?thesis
  proof (cases "call_unary be op' x R")
    case (Pair res R')
    then have "registry_inv R'" using call_unary_inv [OF assms, of be op' x] by simp
    then show ?thesis
      using Pair Tensor by (cases res) (simp_all add: pointwise_unary_def mk_Tensor_result)
  qed
qed (use assms in \<open>simp_all add: pointwise_unary_def mk_Function_result\<close>)

lemma Funsor_pointwise_binary_ok:
  assumes "registry_inv R"
  shows "funsor_result_ok (Funsor_pointwise_binary be self other op' R)"
  using assms
  by (cases other)
     (simp_all add: Funsor_pointwise_binary_def pointwise_unary_ok mk_Function_result Let_def)

lemma tensor_op_ok:
  assumes "registry_inv R"
  shows "funsor_result_ok
           (case call_on_data be op' x other R of
              (Inl e, R') \<Rightarrow> (Inl e, R')
            | (Inr v, R') \<Rightarrow> (mk_Tensor dims v, R'))"
proof (cases "call_on_data be op' x other R")
  case (Pair res R')
  then have "registry_inv R'" using call_on_data_inv [OF assms, of be op' x other] by simp
  then show ?thesis using Pair by (cases res) (simp_all add: mk_Tensor_result)
qed

lemma pointwise_binary_ok:
  assumes "registry_inv R"
  shows "funsor_result_ok (pointwise_binary be self other op' R)"
proof (cases self)
  case (Tensor dims x)
  show ?thesis
  proof (cases other)
    case (PFunsor g)
    show ?thesis
    proof (cases g)
      case (Tensor dims' y)
      note g = this
      show ?thesis
      proof (cases "dims = dims'")
        case True
        then show ?thesis
          using \<open>self = Tensor dims x\<close> PFunsor g tensor_op_ok [OF assms]
          by (simp add: pointwise_binary_def)
      next
        case False
        show ?thesis
        proof (cases "align_tensors [(dims, x), (dims', y)]")
          case (Inl e)
          then show ?thesis
            using \<open>self = Tensor dims x\<close> PFunsor g False assms
            by (simp add: pointwise_binary_def)
        next
          case (Inr r)
          then show ?thesis
            using \<open>self = Tensor dims x\<close> PFunsor g False tensor_op_ok [OF assms]
            by (cases r) (simp add: pointwise_binary_def)
        qed
      qed
    qed (use \<open>self = Tensor dims x\<close> PFunsor Funsor_pointwise_binary_ok [OF assms] in
          \<open>simp_all add: pointwise_binary_def\<close>)
  qed (use Tensor Funsor_pointwise_binary_ok [OF assms] in \<open>simp_all add: pointwise_binary_def\<close>)
qed (use Funsor_pointwise_binary_ok [OF assms] in \<open>simp_all add: pointwise_binary_def\<close>)

lemma lift_funsor_result:
  assumes "funsor_result_ok p"
  shows "result_ok (case p of (Inl e, R') \<Rightarrow> (Inl e, R') | (Inr r, R') \<Rightarrow> (Inr (PFunsor r), R'))"
  using assms by (cases p) (auto split: sum.splits)

lemma builtin_on_data_ok: "builtin_on_data be o' x b = Inr v \<Longrightarrow> val_ok v"
  by (auto simp: builtin_on_data_def split: option.splits if_splits pyval.splits sum.splits)

lemma py_apply2_ok:
  assumes "registry_inv R" "val_ok op'" "val_ok a" "val_ok b"
  shows "result_ok (py_apply2 be op' a b R)"
proof (cases op')
  case (POp o')
  show ?thesis
  proof (cases "placeholder o' = None \<and> \<not> is_unary o'")
    case False
    then show ?thesis using POp assms by (auto simp: py_apply2_def split: option.splits)
  next
    case True
    show ?thesis
    proof (cases a)
      case (PFunsor f)
      then show ?thesis
        using POp True lift_funsor_result [OF pointwise_binary_ok [OF assms(1), of be f b op']]
        by (simp add: py_apply2_def)
    next
      case (PTorch x)
      show ?thesis
      proof (cases "builtin_on_data be o' x b")
        case (Inl e)
        then show ?thesis
          using POp True PTorch assms by (cases b) (simp_all add: py_apply2_def)
      next
        case (Inr v)
        then show ?thesis
          using POp True PTorch assms builtin_on_data_ok [OF Inr]
          by (cases b) (simp_all add: py_apply2_def)
      qed
    next
      case (PInt m)
      show ?thesis
      proof (cases b)
        case (PFunsor g)
        show ?thesis
        proof (cases "reflected o'")
          case None
          then show ?thesis using POp True PInt PFunsor assms by (simp add: py_apply2_def)
        next
          case (Some r')
          then show ?thesis
            using POp True PInt PFunsor
              lift_funsor_result [OF pointwise_binary_ok [OF assms(1), of be g a "POp r'"]]
            by (simp add: py_apply2_def)
        qed
      qed (use POp True PInt assms in \<open>simp_all add: py_apply2_def\<close>)
    qed (use POp True assms in \<open>simp_all add: py_apply2_def\<close>)
  qed
next
  case (PFunsor g)
  then show ?thesis
    using funsor_call_ok [of g R "[a, b]" "[]"] assms by (simp add: py_apply2_def)
qed (use assms in \<open>simp_all add: py_apply2_def\<close>)

lemma fold_calls_ok:
  assumes "funsor_ok r" "val_ok op'"
  shows "registry_inv R \<Longrightarrow> val_ok acc \<Longrightarrow> result_ok (fold_calls be op' r dim acc is R)"
proof (induction "is" arbitrary: acc R)
  case Nil
  then show ?case by simp
next
  case (Cons i "is")
  show ?case
  proof (cases "funsor_call r [] [(dim, PInt (int i))] R")
    case (Pair res R')
    have c: "result_ok (res, R')"
      using funsor_call_ok [OF assms(1) Cons.prems(1), of "[]" "[(dim, PInt (int i))]"] Pair
      by simp
    show ?thesis
    proof (cases res)
      case (Inl e)
      then show ?thesis using Pair c by simp
    next
      case (Inr v)
      then have v: "registry_inv R'" "val_ok v" using c by simp_all
      show ?thesis
      proof (cases "py_apply2 be op' acc v R'")
        case (Pair res' R'')
        have p: "result_ok (res', R'')"
          using py_apply2_ok [OF v(1) assms(2) Cons.prems(2) v(2), of be] Pair by simp
        show ?thesis
        proof (cases res')
          case (Inl e)
          then show ?thesis
            using \<open>funsor_call r [] [(dim, PInt (int i))] R = (res, R')\<close> Inr Pair p by simp
        next
          case (Inr acc')
          then have "registry_inv R''" "val_ok acc'" using p by simp_all
          then have "result_ok (fold_calls be op' r dim acc' is R'')" by (rule Cons.IH)
          then show ?thesis
            using \<open>funsor_call r [] [(dim, PInt (int i))] R = (res, R')\<close> \<open>res = Inr v\<close> Pair Inr
            by simp
        qed
      qed
    qed
  qed
qed

lemma reduce_calls_ok:
  assumes "funsor_ok r" "val_ok op'" "registry_inv R"
  shows "result_ok (reduce_calls be op' r dim n R)"
proof (cases "n = 0")
  case True
  then show ?thesis using assms by (simp add: reduce_calls_def)
next
  case False
  show ?thesis
  proof (cases "funsor_call r [] [(dim, PInt 0)] R")
    case (Pair res R')
    have c: "result_ok (res, R')"
      using funsor_call_ok [OF assms(1) assms(3), of "[]" "[(dim, PInt 0)]"] Pair by simp
    show ?thesis
    proof (cases res)
      case (Inl e)
      then show ?thesis using Pair c False by (simp add: reduce_calls_def)
    next
      case (Inr v)
      then have "registry_inv R'" "val_ok v" using c by simp_all
      then have "result_ok (fold_calls be op' r dim v [1..<n] R')"
        using fold_calls_ok [OF assms(1,2)] by blast
      then show ?thesis using Pair Inr False by (simp add: reduce_calls_def)
    qed
  qed
qed

lemma reduce_loop_ok:
  assumes "val_ok op'"
  shows "registry_inv R \<Longrightarrow> val_ok result \<Longrightarrow> result_ok (reduce_loop be op' dl result R)"
proof (induction dl arbitrary: result R)
  case Nil
  then show ?case by simp
next
  case (Cons dim dl)
  show ?case
  proof (cases result)
    case (PFunsor r)
    then have r: "funsor_ok r" using Cons.prems(2) by simp
    show ?thesis
    proof (cases "map_of (schema r) dim")
      case None
      then show ?thesis using PFunsor Cons.prems by simp
    next
      case (Some dom)
      show ?thesis
      proof (cases dom)
        case (Named c)
        then show ?thesis using PFunsor Some Cons.prems by simp
      next
        case (Bint n)
        show ?thesis
        proof (cases "reduce_calls be op' r dim n R")
          case (Pair res R')
          have c: "result_ok (res, R')"
            using reduce_calls_ok [OF r assms Cons.prems(1), of be dim n] Pair by simp
          show ?thesis
          proof (cases res)
            case (Inl e)
            then show ?thesis using PFunsor Some Bint Pair c by simp
          next
            case (Inr v)
            then have "registry_inv R'" "val_ok v" using c by simp_all
            then have "result_ok (reduce_loop be op' dl v R')" by (rule Cons.IH)
            then show ?thesis using PFunsor Some Bint Pair Inr by simp
          qed
        qed
      qed
    qed
  qed (use Cons.prems in simp_all)
qed

lemma Funsor_reduce_ok:
  assumes "funsor_ok self" "val_ok op'" "registry_inv R"
  shows "result_ok (Funsor_reduce be self op' dims R)"
  using reduce_loop_ok [OF assms(2) assms(3), of "PFunsor self"] assms(1)
  by (simp add: Funsor_reduce_def)

lemma reduce_method_ok:
  assumes "funsor_ok self" "val_ok op'" "registry_inv R"
  shows "result_ok (reduce_method be self op' dims R)"
proof (cases self)
  case (Tensor ds x)
  show ?thesis
  proof (cases "in_table op'")
    case None
    then show ?thesis
      using Tensor Funsor_reduce_ok [OF assms] by (simp add: reduce_method_def Tensor_reduce_def)
  next
    case (Some o')
    then show ?thesis
      using Tensor assms
      by (auto simp: reduce_method_def Tensor_reduce_def dest: mk_Tensor_ok
          split: option.splits sum.splits)
  qed
qed (use Funsor_reduce_ok [OF assms] in \<open>simp_all add: reduce_method_def\<close>)

lemma contract_ok:
  assumes "val_ok sum_op'" "registry_inv R"
  shows "result_ok (contract be self sum_op' prod_op' other dims R)"
proof (cases "pointwise_binary be self prod_op' other R")
  case (Pair res R')
  have p: "funsor_result_ok (res, R')"
    using pointwise_binary_ok [OF assms(2), of be self prod_op' other] Pair by simp
  show ?thesis
  proof (cases res)
    case (Inl e)
    then show ?thesis using Pair p by (simp add: contract_def)
  next
    case (Inr f)
    then have "funsor_ok f" "registry_inv R'" using p by simp_all
    then have "result_ok (reduce_method be f sum_op' dims R')"
      using reduce_method_ok assms(1) by blast
    then show ?thesis using Pair Inr by (simp add: contract_def)
  qed
qed


text \<open>
  Claim C7.  A funsor that a constructor returns has as many names as sizes and no name
  twice, and so has the funsor returned by \<^verbatim>\<open>var\<close>, by a call, by \<^verbatim>\<open>pointwise_unary\<close>,
  by \<^verbatim>\<open>pointwise_binary\<close>, by \<^verbatim>\<open>reduce\<close> and by \<^verbatim>\<open>contract\<close>, in every state of the
  registry reached by calls of \<^verbatim>\<open>var\<close> and garbage collections, when the funsor the
  method is called on and the funsors among the arguments have the property.
\<close>

theorem operations_keep_funsor_invariant:
  assumes "reachable R" "funsor_ok self" "val_ok op'"
    and "list_all val_ok args" "list_all (\<lambda>kv. val_ok (snd kv)) kwargs"
  shows "(mk_Function dims sh fn = Inr f \<longrightarrow> funsor_ok f) \<and>
         (mk_Tensor dims v = Inr f \<longrightarrow> funsor_ok f) \<and>
         (mk_Variable R name s = Inr f \<longrightarrow> funsor_ok f) \<and>
         (var name s R = (Inr (i, f), R') \<longrightarrow> funsor_ok f) \<and>
         (funsor_call self args kwargs R = (Inr (PFunsor f), R') \<longrightarrow> funsor_ok f) \<and>
         (pointwise_unary be self op1 R = (Inr f, R') \<longrightarrow> funsor_ok f) \<and>
         (pointwise_binary be self other op2 R = (Inr f, R') \<longrightarrow> funsor_ok f) \<and>
         (reduce_method be self op' ds R = (Inr (PFunsor f), R') \<longrightarrow> funsor_ok f) \<and>
         (contract be self op' prod_op' other ds R = (Inr (PFunsor f), R') \<longrightarrow> funsor_ok f)"
proof -
  have inv: "registry_inv R" using assms(1) by (rule reachable_inv)
  have 1: "mk_Function dims sh fn = Inr f \<longrightarrow> funsor_ok f" using mk_Function_ok by blast
  have 2: "mk_Tensor dims v = Inr f \<longrightarrow> funsor_ok f" using mk_Tensor_ok by blast
  have 3: "mk_Variable R name s = Inr f \<longrightarrow> funsor_ok f" using mk_Variable_ok by blast
  have 4: "var name s R = (Inr (i, f), R') \<longrightarrow> funsor_ok f"
    using var_ok [OF inv, of name s "(i, f)" R'] by simp
  have 5: "funsor_call self args kwargs R = (Inr (PFunsor f), R') \<longrightarrow> funsor_ok f"
    using funsor_call_ok [OF assms(2) inv assms(4,5)] by auto
  have 6: "pointwise_unary be self op1 R = (Inr f, R') \<longrightarrow> funsor_ok f"
    using pointwise_unary_ok [OF inv, of be self op1] by auto
  have 7: "pointwise_binary be self other op2 R = (Inr f, R') \<longrightarrow> funsor_ok f"
    using pointwise_binary_ok [OF inv, of be self other op2] by auto
  have 8: "reduce_method be self op' ds R = (Inr (PFunsor f), R') \<longrightarrow> funsor_ok f"
    using reduce_method_ok [OF assms(2,3) inv, of be ds] by auto
  have 9: "contract be self op' prod_op' other ds R = (Inr (PFunsor f), R') \<longrightarrow> funsor_ok f"
    using contract_ok [OF assms(3) inv, of be self prod_op' other ds] by auto
  from 1 2 3 4 5 6 7 8 9 show ?thesis by blast
qed

theorem operations_keep_funsor_invariant_witness:
  "\<exists>f1 f2 f3 f4.
     funsor_call (Function [''i'', ''j''] [Bint 2, Bint 2] (Native 0)) [PInt 0] [] registry_empty =
       (Inr (PFunsor f1), registry_empty) \<and> funsor_ok f1 \<and>
     pointwise_binary int_backend (Function [''i'', ''j''] [Bint 2, Bint 2] (Native 0))
         (PFunsor (Function [''j'', ''k''] [Bint 2, Bint 3] (Native 1))) (POp Op_mul) registry_empty =
       (Inr f2, registry_empty) \<and> funsor_ok f2 \<and>
     reduce_method int_backend (Function [''i'', ''j''] [Bint 2, Bint 2] (Native 0)) (POp Op_add)
         (Some [''i'']) registry_empty =
       (Inr (PFunsor f3), registry_empty) \<and> funsor_ok f3 \<and>
     contract int_backend (Function [''i'', ''j''] [Bint 2, Bint 2] (Native 0)) (POp Op_add) (POp Op_mul)
         (PFunsor (Function [''j'', ''k''] [Bint 2, Bint 3] (Native 1))) (Some [''i''])
         registry_empty =
       (Inr (PFunsor f4), registry_empty) \<and> funsor_ok f4"
proof -
  let ?self = "Function [''i'', ''j''] [Bint 2, Bint 2] (Native 0)"
  let ?g = "Function [''j'', ''k''] [Bint 2, Bint 3] (Native 1)"
  have ok: "funsor_ok ?self" by (simp add: funsor_ok_def)
  have sum: "val_ok (POp Op_add)" by (simp add: val_ok_def)
  have args: "list_all val_ok [PInt 0]" by (simp add: val_ok_def)
  have kw: "list_all (\<lambda>kv. val_ok (snd kv)) ([] :: (string \<times> pyval) list)" by simp
  note inst = operations_keep_funsor_invariant [OF reachable.start ok sum args kw,
      where be = int_backend and R' = registry_empty and other = "PFunsor ?g" and ?op2.0 = "POp Op_mul"
        and ds = "Some [''i'']" and prod_op' = "POp Op_mul"]
  have "\<exists>f. funsor_call ?self [PInt 0] [] registry_empty = (Inr (PFunsor f), registry_empty)"
    by (simp add: funsor_defs Let_def)
  then obtain f1 where 1: "funsor_call ?self [PInt 0] [] registry_empty =
      (Inr (PFunsor f1), registry_empty)" by blast
  have "\<exists>f. pointwise_binary int_backend ?self (PFunsor ?g) (POp Op_mul) registry_empty =
      (Inr f, registry_empty)"
    by (simp add: funsor_defs Let_def)
  then obtain f2 where 2: "pointwise_binary int_backend ?self (PFunsor ?g) (POp Op_mul) registry_empty =
      (Inr f2, registry_empty)" by blast
  have "\<exists>f. reduce_method int_backend ?self (POp Op_add) (Some [''i'']) registry_empty =
      (Inr (PFunsor f), registry_empty)"
    by (simp add: funsor_defs Let_def upt_small)
  then obtain f3 where 3: "reduce_method int_backend ?self (POp Op_add) (Some [''i'']) registry_empty =
      (Inr (PFunsor f3), registry_empty)" by blast
  have "\<exists>f. contract int_backend ?self (POp Op_add) (POp Op_mul) (PFunsor ?g) (Some [''i''])
      registry_empty = (Inr (PFunsor f), registry_empty)"
    by (simp add: funsor_defs Let_def upt_small)
  then obtain f4 where 4: "contract int_backend ?self (POp Op_add) (POp Op_mul) (PFunsor ?g) (Some [''i''])
      registry_empty = (Inr (PFunsor f4), registry_empty)" by blast
  have "funsor_ok f1" using inst [where f = f1] 1 by blast
  moreover have "funsor_ok f2" using inst [where f = f2] 2 by blast
  moreover have "funsor_ok f3" using inst [where f = f3] 3 by blast
  moreover have "funsor_ok f4" using inst [where f = f4] 4 by blast
  ultimately show "\<exists>f1 f2 f3 f4.
     funsor_call ?self [PInt 0] [] registry_empty = (Inr (PFunsor f1), registry_empty) \<and>
       funsor_ok f1 \<and>
     pointwise_binary int_backend ?self (PFunsor ?g) (POp Op_mul) registry_empty =
       (Inr f2, registry_empty) \<and> funsor_ok f2 \<and>
     reduce_method int_backend ?self (POp Op_add) (Some [''i'']) registry_empty =
       (Inr (PFunsor f3), registry_empty) \<and> funsor_ok f3 \<and>
     contract int_backend ?self (POp Op_add) (POp Op_mul) (PFunsor ?g) (Some [''i'']) registry_empty =
       (Inr (PFunsor f4), registry_empty) \<and> funsor_ok f4"
    using 1 2 3 4 by blast
qed

end
